(* ===== verification/Prelude.thy ===== *)
theory Prelude
  imports Main "HOL-Library.Word" "HOL-Library.Monad_Syntax"
    "HOL-Library.List_Lexorder" "HOL-Library.Char_ord"
begin

text \<open>
  Shared vocabulary of the development: the machine integers of the Go code, run-time panics as
  \<open>None\<close>, the error values, and the generic facts on lists and maps that several components use.
\<close>

section \<open>Machine integers and Go results\<close>

type_synonym u8 = "8 word"
type_synonym u16 = "16 word"
type_synonym u32 = "32 word"
type_synonym u64 = "64 word"

text \<open>
  A value of type \<open>'a go\<close> is the outcome of running a piece of Go code: \<open>Some x\<close> when it returns
  \<open>x\<close>, \<open>None\<close> when it panics (index out of range, nil dereference, failed type assertion).
\<close>

type_synonym 'a go = "'a option"

abbreviation (input) panic :: "'a go" where
  "panic \<equiv> None"

text \<open>
  Error values. The first five are the sentinel errors of \<^verbatim>\<open>internal/repository/imdb/error.go\<close>;
  \<open>Errorf\<close> is a \<^verbatim>\<open>fmt.Errorf\<close> message, \<open>Wrap\<close> one that wraps another error with \<^verbatim>\<open>%w\<close>, \<open>ExtErr\<close>
  an error handed back by code outside the repository.
\<close>

datatype err =
    ErrNoVPPFIPFoundInStorage
  | ErrNoBGPPeerFoundInStorage
  | ErrNoBGPPeersFoundInStorage
  | ErrNoVPPVRFsFoundInStorage
  | ErrNoVPPUDPTunnelFoundInStorage
  | Errorf string
  | Wrap string err
  | ExtErr string

text \<open>A Go list access \<^verbatim>\<open>xs[i]\<close>: a panic out of range.\<close>

definition at :: "'a list \<Rightarrow> nat \<Rightarrow> 'a go" where
  "at xs i = (if i < length xs then Some (xs ! i) else panic)"

lemma at_Some_iff [simp]: "at xs i = Some x \<longleftrightarrow> i < length xs \<and> x = xs ! i"
  by (auto simp: at_def)

lemma at_None_iff [simp]: "at xs i = None \<longleftrightarrow> length xs \<le> i"
  by (auto simp: at_def)

lemma at_Cons_0 [simp]: "at (x # xs) 0 = Some x"
  by (simp add: at_def)

section \<open>Collections of facts\<close>

named_theorems view_simps \<open>effect of a storage operation on the observable tables\<close>
named_theorems frame_simps \<open>parts of the state an operation leaves alone\<close>

section \<open>Lists\<close>

text \<open>\<open>drop_at i xs\<close> is Go's \<^verbatim>\<open>append(xs[:i], xs[i+1:]...)\<close>.\<close>

definition drop_at :: "nat \<Rightarrow> 'a list \<Rightarrow> 'a list" where
  "drop_at i xs = take i xs @ drop (Suc i) xs"

lemma length_drop_at: "i < length xs \<Longrightarrow> length (drop_at i xs) = length xs - 1"
  by (simp add: drop_at_def)

lemma set_drop_at_subset: "set (drop_at i xs) \<subseteq> set xs"
  by (auto simp: drop_at_def dest: in_set_takeD in_set_dropD)

lemma distinct_drop_at:
  assumes "distinct xs"
  shows "distinct (drop_at i xs)"
  using assms set_take_disj_set_drop_if_distinct [OF assms, of i "Suc i"]
  by (simp add: drop_at_def)

lemma set_drop_at:
  assumes "distinct xs" "i < length xs"
  shows "set (drop_at i xs) = set xs - {xs ! i}"
proof -
  have split: "xs = take i xs @ xs ! i # drop (Suc i) xs"
    using assms(2) by (rule id_take_nth_drop)
  then have "distinct (take i xs @ xs ! i # drop (Suc i) xs)"
    using assms(1) by simp
  then have "set (take i xs @ xs ! i # drop (Suc i) xs) - {xs ! i} = set (drop_at i xs)"
    by (auto simp: drop_at_def)
  with split show ?thesis by metis
qed

text \<open>Counting the elements of a list with a property, one update at a time.\<close>

lemma count_list_distinct: "distinct xs \<Longrightarrow> count_list xs x = (if x \<in> set xs then 1 else 0)"
  by (induction xs) auto

section \<open>Maps\<close>

lemma ran_upd_subset: "ran (m(k \<mapsto> v)) \<subseteq> insert v (ran m)"
  by (auto simp: ran_def)

lemma map_upd_same_None: "m k = None \<Longrightarrow> (m(k \<mapsto> v))(k := None) = m"
  by (auto simp: fun_eq_iff)

section \<open>Event loops\<close>

text \<open>
  The contract of a loop that handles one event after the other and that a panic ends: \<open>inv\<close> may
  count the events handled so far, and \<open>ok\<close> says which events the contract is about, and how many.
\<close>

locale event_loop =
  fixes step :: "'e \<Rightarrow> 's \<Rightarrow> 's go" and run :: "'e list \<Rightarrow> 's \<Rightarrow> 's go"
    and ok :: "nat \<Rightarrow> 'e \<Rightarrow> bool" and inv :: "nat \<Rightarrow> 's \<Rightarrow> bool"
  assumes run_Nil: "run [] s = Some s"
    and run_Cons: "run (e # es) s = Option.bind (step e s) (run es)"
    and step_inv: "ok n e \<Longrightarrow> inv n s \<Longrightarrow> step e s = Some s' \<Longrightarrow> inv (Suc n) s'"
begin

lemma run_append: "run (es @ fs) s = Option.bind (run es s) (run fs)"
  by (induction es arbitrary: s) (auto simp: run_Nil run_Cons split: Option.bind_split)

lemma run_inv: "\<forall>i < length es. ok (n + i) (es ! i) \<Longrightarrow> inv n s \<Longrightarrow> run es s = Some s' \<Longrightarrow> inv (n + length es) s'"
proof (induction es arbitrary: n s)
  case (Cons e es)
  then obtain s1 where "step e s = Some s1" "run es s1 = Some s'" by (auto simp: run_Cons bind_eq_Some_conv)
  moreover have "ok n e" "\<forall>i < length es. ok (Suc n + i) (es ! i)" using Cons.prems(1) by (auto simp: All_less_Suc2)
  ultimately show ?case using Cons.IH [of "Suc n" s1] step_inv [of n e s s1] Cons.prems(2) by simp
qed (simp add: run_Nil)

end

text \<open>
  A loop that implements another one, on an abstraction of its state: \<open>spec es x y\<close> says that the events
  lead the abstract state from \<open>x\<close> to \<open>y\<close>.
\<close>

locale refined_loop = event_loop step run ok inv
  for step :: "'e \<Rightarrow> 's \<Rightarrow> 's go" and run :: "'e list \<Rightarrow> 's \<Rightarrow> 's go"
    and ok :: "nat \<Rightarrow> 'e \<Rightarrow> bool" and inv :: "nat \<Rightarrow> 's \<Rightarrow> bool" +
  fixes abs :: "'s \<Rightarrow> 't" and spec :: "'e list \<Rightarrow> 't \<Rightarrow> 't \<Rightarrow> bool"
  assumes spec_Nil: "spec [] x x"
    and spec_Cons: "ok n e \<Longrightarrow> inv n s \<Longrightarrow> step e s = Some s' \<Longrightarrow> spec es (abs s') y \<Longrightarrow> spec (e # es) (abs s) y"
begin

lemma run_spec:
  "\<forall>i < length es. ok (n + i) (es ! i) \<Longrightarrow> inv n s \<Longrightarrow> run es s = Some s' \<Longrightarrow> spec es (abs s) (abs s')"
proof (induction es arbitrary: n s)
  case (Cons e es)
  then obtain s1 where s1: "step e s = Some s1" "run es s1 = Some s'" by (auto simp: run_Cons bind_eq_Some_conv)
  have e: "ok n e" "\<forall>i < length es. ok (Suc n + i) (es ! i)" using Cons.prems(1) by (auto simp: All_less_Suc2)
  have "spec es (abs s1) (abs s')" by (rule Cons.IH [OF e(2) step_inv [OF e(1) Cons.prems(2) s1(1)] s1(2)])
  then show ?case by (rule spec_Cons [OF e(1) Cons.prems(2) s1(1)])
qed (simp add: run_Nil spec_Nil)

end

text \<open>A loop whose state carries a trace to which every event appends its output.\<close>

locale traced_loop = event_loop step run ok inv
  for step :: "'e \<Rightarrow> 's \<Rightarrow> 's go" and run :: "'e list \<Rightarrow> 's \<Rightarrow> 's go"
    and ok :: "nat \<Rightarrow> 'e \<Rightarrow> bool" and inv :: "nat \<Rightarrow> 's \<Rightarrow> bool" +
  fixes trace :: "'s \<Rightarrow> 't list" and out :: "'e \<Rightarrow> 't"
  assumes step_trace: "ok n e \<Longrightarrow> inv n s \<Longrightarrow> step e s = Some s' \<Longrightarrow> trace s' = trace s @ [out e]"

sublocale traced_loop \<subseteq> log: refined_loop step run ok inv trace "\<lambda>es x y. y = x @ map out es"
  by unfold_locales (auto simp: step_trace)

end
