(* ===== verification/Netutils.thy ===== *)
theory Netutils
  imports Prelude
begin

text \<open>
  \<^verbatim>\<open>pkg/netutils\<close> and \<^verbatim>\<open>pkg/typeconvert\<close>: prefixes written as text, the floating-IP membership
  test and the local MPLS label of a VRF. The parts of Go's \<^verbatim>\<open>net\<close>, \<^verbatim>\<open>net/netip\<close> and \<^verbatim>\<open>strconv\<close>
  these functions use are translated first: an IP is the 16-byte slice \<^verbatim>\<open>net.ParseCIDR\<close> returns,
  IPv4 addresses in their IPv4-in-IPv6 form.
\<close>

unbundle bit_operations_syntax

section \<open>Decimal numbers (strconv)\<close>

definition is_digit :: "char \<Rightarrow> bool" where
  "is_digit c \<longleftrightarrow> 48 \<le> (of_char c :: nat) \<and> (of_char c :: nat) \<le> 57"

definition digit_val :: "char \<Rightarrow> int" where
  "digit_val c = int (of_char c) - 48"

definition digit_char :: "nat \<Rightarrow> char" where
  "digit_char d = char_of (48 + d)"

text \<open>\<open>itoa\<close> is \<^verbatim>\<open>strconv.Itoa\<close> / \<^verbatim>\<open>FormatUint(_, 10)\<close> on non-negative numbers.\<close>

fun itoa :: "nat \<Rightarrow> string" where
  "itoa n = (if n < 10 then [digit_char n] else itoa (n div 10) @ [digit_char (n mod 10)])"

declare itoa.simps [simp del]

text \<open>The digit loop shared by \<^verbatim>\<open>Atoi\<close> and \<^verbatim>\<open>ParseUint\<close>: \<open>None\<close> at the first non-digit.\<close>

fun digits_from :: "int \<Rightarrow> string \<Rightarrow> int option" where
  "digits_from acc [] = Some acc"
| "digits_from acc (c # cs) =
     (if is_digit c then digits_from (10 * acc + digit_val c) cs else None)"

definition parse_digits :: "string \<Rightarrow> int option" where
  "parse_digits s = (if s = [] then None else digits_from 0 s)"

text \<open>\<^verbatim>\<open>strconv.ParseUint(s, 10, 64)\<close>: no sign, at most \<open>2^64 - 1\<close>.\<close>

definition ParseUint64 :: "string \<Rightarrow> err + int" where
  "ParseUint64 s = (case parse_digits s of
      None \<Rightarrow> Inl (ExtErr ''invalid syntax'')
    | Some n \<Rightarrow> if n < 2 ^ 64 then Inr n else Inl (ExtErr ''value out of range''))"

text \<open>\<^verbatim>\<open>strconv.Atoi\<close> on a 64-bit platform: an optional sign, then digits, in the range of \<open>int64\<close>.\<close>

definition Atoi :: "string \<Rightarrow> err + int" where
  "Atoi s =
     (let neg = (s \<noteq> [] \<and> hd s = CHR ''-'');
          body = (if s \<noteq> [] \<and> (hd s = CHR ''-'' \<or> hd s = CHR ''+'') then tl s else s)
      in case parse_digits body of
           None \<Rightarrow> Inl (ExtErr ''invalid syntax'')
         | Some n \<Rightarrow>
             if neg then (if n \<le> 2 ^ 63 then Inr (- n) else Inl (ExtErr ''value out of range''))
             else (if n < 2 ^ 63 then Inr n else Inl (ExtErr ''value out of range'')))"

section \<open>pkg/typeconvert\<close>

definition Uint32ToStr :: "u32 \<Rightarrow> string" where
  "Uint32ToStr val = itoa (unat val)"

text \<open>The parsed 64-bit value is cut to 32 bits by the conversion \<^verbatim>\<open>uint32(parsed)\<close>.\<close>

definition StrToUint32 :: "string \<Rightarrow> err + u32" where
  "StrToUint32 str = (case ParseUint64 str of Inl e \<Rightarrow> Inl e | Inr n \<Rightarrow> Inr (of_int n))"

section \<open>Addresses as text (net, net/netip)\<close>

type_synonym ip = "u8 list"

definition v4InV6Prefix :: "u8 list" where
  "v4InV6Prefix = [0,0,0,0,0,0,0,0,0,0,255,255]"

text \<open>
  \<^verbatim>\<open>netip.parseIPv4Fields\<close>: value and number of digits of the current octet, the octets read so
  far, the previous character, the rest of the text.
\<close>

fun ipv4_fields :: "int \<Rightarrow> nat \<Rightarrow> u8 list \<Rightarrow> char option \<Rightarrow> string \<Rightarrow> u8 list option" where
  "ipv4_fields val digLen fs prev [] =
     (if length fs < 3 then None else Some (fs @ [of_int val]))"
| "ipv4_fields val digLen fs prev (c # cs) =
     (if is_digit c then
        (if digLen = 1 \<and> val = 0 then None
         else if val * 10 + digit_val c > 255 then None
         else ipv4_fields (val * 10 + digit_val c) (Suc digLen) fs (Some c) cs)
      else if c = CHR ''.'' then
        (if prev = None \<or> cs = [] \<or> prev = Some (CHR ''.'') then None
         else if length fs = 3 then None
         else ipv4_fields 0 0 (fs @ [of_int val]) (Some c) cs)
      else None)"

definition parseIPv4Fields :: "string \<Rightarrow> u8 list option" where
  "parseIPv4Fields s = ipv4_fields 0 0 [] None s"

definition hex_val :: "char \<Rightarrow> int option" where
  "hex_val c = (let n = of_char c :: int in
     if is_digit c then Some (digit_val c)
     else if 97 \<le> n \<and> n \<le> 102 then Some (n - 87)
     else if 65 \<le> n \<and> n \<le> 70 then Some (n - 55)
     else None)"

fun hex_group :: "nat \<Rightarrow> int \<Rightarrow> string \<Rightarrow> (int \<times> nat \<times> string) option" where
  "hex_group off acc [] = Some (acc, off, [])"
| "hex_group off acc (c # cs) = (case hex_val c of
      None \<Rightarrow> Some (acc, off, c # cs)
    | Some v \<Rightarrow>
        if off > 3 then None
        else if acc * 16 + v > 65535 then None
        else hex_group (Suc off) (acc * 16 + v) cs)"

definition ipv6_finish :: "u8 list \<Rightarrow> nat option \<Rightarrow> string \<Rightarrow> ip option" where
  "ipv6_finish bs ellipsis s =
     (if s \<noteq> [] then None
      else if length bs < 16 then
        (case ellipsis of
           None \<Rightarrow> None
         | Some e \<Rightarrow> Some (take e bs @ replicate (16 - length bs) 0 @ drop e bs))
      else if ellipsis \<noteq> None then None else Some bs)"

text \<open>The group loop of \<^verbatim>\<open>netip.parseIPv6\<close>: two bytes per round, so at most eight rounds.\<close>

function ipv6_groups :: "u8 list \<Rightarrow> nat option \<Rightarrow> string \<Rightarrow> ip option" where
  "ipv6_groups bs ellipsis s =
     (if 16 \<le> length bs then ipv6_finish bs ellipsis s
      else case hex_group 0 0 s of
        None \<Rightarrow> None
      | Some (acc, off, rest) \<Rightarrow>
          if off = 0 then None
          else if rest \<noteq> [] \<and> hd rest = CHR ''.'' then
            (if ellipsis = None \<and> length bs \<noteq> 12 then None
             else if length bs + 4 > 16 then None
             else case parseIPv4Fields s of
               None \<Rightarrow> None
             | Some fs \<Rightarrow> ipv6_finish (bs @ fs) ellipsis [])
          else
            let bs' = bs @ [of_int (acc div 256), of_int acc] in
            (case rest of
               [] \<Rightarrow> ipv6_finish bs' ellipsis []
             | c # cs \<Rightarrow>
                 if c \<noteq> CHR '':'' then None
                 else if cs = [] then None
                 else if hd cs = CHR '':'' then
                   (if ellipsis \<noteq> None then None
                    else if tl cs = [] then ipv6_finish bs' (Some (length bs')) []
                    else ipv6_groups bs' (Some (length bs')) (tl cs))
                 else ipv6_groups bs' ellipsis cs))"
  by pat_completeness auto
termination
  by (relation "measure (\<lambda>(bs, _, _). 16 - length bs)") auto

declare ipv6_groups.simps [simp del]

definition parseIPv6 :: "string \<Rightarrow> ip option" where
  "parseIPv6 s =
     (if take 2 s = ''::'' then
        (if drop 2 s = [] then Some (replicate 16 0) else ipv6_groups [] (Some 0) (drop 2 s))
      else ipv6_groups [] None s)"

text \<open>
  \<^verbatim>\<open>netip.ParseAddr\<close>: the first \<open>.\<close>, \<open>:\<close> or \<open>%\<close> decides. The result is the 16-byte form with
  the bit length of the family. A zone makes \<^verbatim>\<open>net.ParseCIDR\<close> fail whatever it is, so a \<open>%\<close> in an
  IPv6 text is an error here.
\<close>

definition ParseAddr :: "string \<Rightarrow> (ip \<times> nat) option" where
  "ParseAddr s = (case find (\<lambda>c. c = CHR ''.'' \<or> c = CHR '':'' \<or> c = CHR ''%'') s of
      None \<Rightarrow> None
    | Some c \<Rightarrow>
        if c = CHR ''.'' then map_option (\<lambda>fs. (v4InV6Prefix @ fs, 32)) (parseIPv4Fields s)
        else if c = CHR '':'' then
          (if CHR ''%'' \<in> set s then None else map_option (\<lambda>bs. (bs, 128)) (parseIPv6 s))
        else None)"

text \<open>\<^verbatim>\<open>net.dtoi\<close>: the number, the characters used and whether it is valid.\<close>

fun dtoi_from :: "int \<Rightarrow> nat \<Rightarrow> string \<Rightarrow> int \<times> nat \<times> bool" where
  "dtoi_from n i [] = (n, i, i \<noteq> 0)"
| "dtoi_from n i (c # cs) =
     (if is_digit c then
        (if n * 10 + digit_val c \<ge> 16777215 then (16777215, i, False)
         else dtoi_from (n * 10 + digit_val c) (Suc i) cs)
      else (n, i, i \<noteq> 0))"

fun CIDRMask :: "nat \<Rightarrow> nat \<Rightarrow> u8 list" where
  "CIDRMask n 0 = []"
| "CIDRMask n (Suc l) =
     (if n \<ge> 8 then 255 # CIDRMask (n - 8) l else NOT (drop_bit n 255) # CIDRMask 0 l)"

definition To4 :: "ip \<Rightarrow> ip option" where
  "To4 a = (if length a = 4 then Some a
            else if length a = 16 \<and> take 12 a = v4InV6Prefix then Some (drop 12 a)
            else None)"

text \<open>\<^verbatim>\<open>IP.Mask\<close>; \<open>None\<close> is the nil IP.\<close>

definition ip_mask :: "ip \<Rightarrow> u8 list \<Rightarrow> ip option" where
  "ip_mask a m =
     (let m = (if length m = 16 \<and> length a = 4 \<and> take 12 m = replicate 12 255 then drop 12 m else m);
          a = (if length m = 4 \<and> length a = 16 \<and> take 12 a = v4InV6Prefix then drop 12 a else a)
      in if length a \<noteq> length m then None else Some (map2 (AND) a m))"

record ipnet =
  net_ip :: "ip option"
  net_mask :: "u8 list"

definition ParseCIDR :: "string \<Rightarrow> err + ip \<times> ipnet" where
  "ParseCIDR s =
     (let addr = takeWhile (\<lambda>c. c \<noteq> CHR ''/'') s; rest = dropWhile (\<lambda>c. c \<noteq> CHR ''/'') s;
          fail = Inl (ExtErr ''invalid CIDR address'')
      in if rest = [] then fail
         else case ParseAddr addr of
           None \<Rightarrow> fail
         | Some (a, bits) \<Rightarrow>
             (case dtoi_from 0 0 (tl rest) of (n, i, ok) \<Rightarrow>
                if \<not> ok \<or> i \<noteq> length (tl rest) \<or> n < 0 \<or> n > int bits then fail
                else let m = CIDRMask (nat n) (bits div 8)
                     in Inr (a, \<lparr>net_ip = ip_mask a m, net_mask = m\<rparr>)))"

definition networkNumberAndMask :: "ipnet \<Rightarrow> (ip \<times> u8 list) option" where
  "networkNumberAndMask n = (case net_ip n of
      None \<Rightarrow> None
    | Some a \<Rightarrow>
        (let a' = (case To4 a of Some x \<Rightarrow> x | None \<Rightarrow> a); m = net_mask n
         in if To4 a = None \<and> length a \<noteq> 16 then None
            else if length m = 4 then (if length a' \<noteq> 4 then None else Some (a', m))
            else if length m = 16 then
              (if length a' = 4 then Some (a', drop 12 m) else Some (a', m))
            else None))"

text \<open>\<^verbatim>\<open>IPNet.Contains\<close>; a nil network number has length 0 and so contains nothing here.\<close>

definition Contains :: "ipnet \<Rightarrow> ip \<Rightarrow> bool" where
  "Contains n a =
     (let a' = (case To4 a of Some x \<Rightarrow> x | None \<Rightarrow> a)
      in case networkNumberAndMask n of
           None \<Rightarrow> a' = []
         | Some (nn, m) \<Rightarrow> length a' = length nn \<and> map2 (AND) nn m = map2 (AND) a' m)"

text \<open>\<^verbatim>\<open>simpleMaskLength\<close>; \<open>None\<close> is its \<open>-1\<close>. \<^verbatim>\<open>Size\<close> turns that into \<open>0\<close>.\<close>

fun leading_ones :: "nat \<Rightarrow> u8 \<Rightarrow> nat \<times> u8" where
  "leading_ones 0 v = (0, v)"
| "leading_ones (Suc k) v =
     (if v AND 128 \<noteq> 0 then (case leading_ones k (push_bit 1 v) of (n, r) \<Rightarrow> (Suc n, r)) else (0, v))"

fun simpleMaskLength :: "u8 list \<Rightarrow> nat option" where
  "simpleMaskLength [] = Some 0"
| "simpleMaskLength (v # vs) =
     (if v = 255 then map_option (\<lambda>n. 8 + n) (simpleMaskLength vs)
      else case leading_ones 8 v of (n, r) \<Rightarrow>
        if r \<noteq> 0 then None else if \<exists>b \<in> set vs. b \<noteq> 0 then None else Some n)"

definition mask_ones :: "u8 list \<Rightarrow> nat" where
  "mask_ones m = (case simpleMaskLength m of None \<Rightarrow> 0 | Some n \<Rightarrow> n)"

section \<open>Printing addresses\<close>

fun join :: "string \<Rightarrow> string list \<Rightarrow> string" where
  "join sep [] = []"
| "join sep [x] = x"
| "join sep (x # y # xs) = x @ sep @ join sep (y # xs)"

definition dotted :: "u8 list \<Rightarrow> string" where
  "dotted fs = join ''.'' (map (\<lambda>b. itoa (unat b)) fs)"

definition hex_digit :: "nat \<Rightarrow> char" where
  "hex_digit n = (if n < 10 then char_of (48 + n) else char_of (87 + n))"

fun hex_str :: "nat \<Rightarrow> string" where
  "hex_str n = (if n < 16 then [hex_digit n] else hex_str (n div 16) @ [hex_digit (n mod 16)])"

declare hex_str.simps [simp del]

fun u16s :: "u8 list \<Rightarrow> nat list" where
  "u16s (a # b # bs) = (unat a * 256 + unat b) # u16s bs"
| "u16s _ = []"

definition zero_run :: "nat list \<Rightarrow> nat \<Rightarrow> nat" where
  "zero_run gs i = length (takeWhile (\<lambda>g. g = 0) (drop i gs))"

text \<open>The longest run of at least two zero groups, the first one on a tie: (start, end).\<close>

definition best_run :: "nat list \<Rightarrow> (nat \<times> nat) option" where
  "best_run gs = fold (\<lambda>i best.
      let l = zero_run gs i; cur = (case best of None \<Rightarrow> 0 | Some (a, b) \<Rightarrow> b - a)
      in if l \<ge> 2 \<and> l > cur then Some (i, i + l) else best) [0..<8] None"

definition ipv6_str :: "u8 list \<Rightarrow> string" where
  "ipv6_str bs = (let gs = u16s bs in case best_run gs of
      None \<Rightarrow> join '':'' (map hex_str gs)
    | Some (a, b) \<Rightarrow>
        join '':'' (map hex_str (take a gs)) @ ''::'' @ join '':'' (map hex_str (drop b gs)))"

definition ip_string :: "ip \<Rightarrow> string" where
  "ip_string a = (case To4 a of Some fs \<Rightarrow> dotted fs | None \<Rightarrow> ipv6_str a)"

section \<open>pkg/netutils\<close>

definition Addr :: "string \<Rightarrow> string" where
  "Addr prefix = (case ParseCIDR prefix of Inl _ \<Rightarrow> '''' | Inr (a, _) \<Rightarrow> ip_string a)"

definition MaskLen :: "string \<Rightarrow> u32" where
  "MaskLen prefix = (case ParseCIDR prefix of Inl _ \<Rightarrow> 0 | Inr (_, n) \<Rightarrow> of_nat (mask_ones (net_mask n)))"

fun any_contains :: "ipnet list \<Rightarrow> ip \<Rightarrow> bool" where
  "any_contains [] a = False"
| "any_contains (n # ns) a = (if Contains n a then True else any_contains ns a)"

definition IsFIP :: "string \<Rightarrow> ipnet list \<Rightarrow> bool" where
  "IsFIP fipPrefix nets = (case ParseCIDR fipPrefix of
      Inl _ \<Rightarrow> False
    | Inr (a, _) \<Rightarrow> any_contains nets a)"

text \<open>
  The label is the last four decimal digits of the address written without its dots, on top of
  1000000. Go's \<open>%\<close> on the non-negative number is \<open>mod\<close>.
\<close>

definition MPLSLabel :: "string \<Rightarrow> err + u32" where
  "MPLSLabel ipPrefix = (case ParseCIDR ipPrefix of
      Inl e \<Rightarrow> Inl e
    | Inr (a, _) \<Rightarrow>
        (case Atoi (filter (\<lambda>c. c \<noteq> CHR ''.'') (ip_string a)) of
           Inl e \<Rightarrow> Inl e
         | Inr n \<Rightarrow> Inr (1000000 + of_int (sgn n * (\<bar>n\<bar> mod 10000)))))"

section \<open>Vocabulary of the specifications\<close>

text \<open>
  A prefix in the notation of the configuration file, the network it denotes, the bits of an
  address from the most significant one, and the number a label is computed from.
\<close>

definition cidr_text :: "u8 list \<Rightarrow> nat \<Rightarrow> string" where
  "cidr_text fs n = dotted fs @ ''/'' @ itoa n"

definition v4_net :: "u8 list \<Rightarrow> nat \<Rightarrow> ipnet" where
  "v4_net fs n = \<lparr>net_ip = Some (map2 (AND) fs (CIDRMask n 4)), net_mask = CIDRMask n 4\<rparr>"

definition byte_bits :: "u8 \<Rightarrow> bool list" where
  "byte_bits b = map (bit b) [7, 6, 5, 4, 3, 2, 1, 0]"

definition addr_bits :: "u8 list \<Rightarrow> bool list" where
  "addr_bits fs = concat (map byte_bits fs)"

definition parsed_nets :: "(u8 list \<times> nat) list \<Rightarrow> ipnet list" where
  "parsed_nets ps = map (\<lambda>(fs, n). v4_net fs n) ps"

definition digits_of_addr :: "u8 list \<Rightarrow> string" where
  "digits_of_addr fs = concat (map (\<lambda>b. itoa (unat b)) fs)"

definition label_number :: "u8 list \<Rightarrow> int" where
  "label_number fs = the (parse_digits (digits_of_addr fs))"

section \<open>Printing and parsing decimal numbers\<close>

lemma of_char_digit_char: "d < 10 \<Longrightarrow> (of_char (digit_char d) :: nat) = 48 + d"
  by (simp add: digit_char_def)

lemma is_digit_digit_char [simp]: "d < 10 \<Longrightarrow> is_digit (digit_char d)"
  by (simp add: is_digit_def of_char_digit_char)

lemma digit_val_digit_char [simp]: "d < 10 \<Longrightarrow> digit_val (digit_char d) = int d"
  by (simp add: digit_val_def of_char_digit_char)

lemma int_div_mod_10: "int (n div 10) * 10 + int (n mod 10) = int n"
  using div_mult_mod_eq [of n 10] by (metis of_nat_add of_nat_mult of_nat_numeral)

lemma digits_from_append:
  "digits_from acc (xs @ ys) = (case digits_from acc xs of None \<Rightarrow> None | Some n \<Rightarrow> digits_from n ys)"
  by (induction xs arbitrary: acc) auto

lemma digits_itoa [simp]: "list_all is_digit (itoa n)"
proof (induction n rule: itoa.induct)
  case (1 n)
  then show ?case by (subst itoa.simps) simp
qed

lemma itoa_nonempty [simp]: "itoa n \<noteq> []"
  by (subst itoa.simps) simp

lemma digits_from_itoa: "digits_from 0 (itoa n) = Some (int n)"
proof (induction n rule: itoa.induct)
  case (1 n)
  show ?case
  proof (cases "n < 10")
    case True
    then show ?thesis by (subst itoa.simps) simp
  next
    case False
    with "1.IH" have "digits_from 0 (itoa (n div 10)) = Some (int (n div 10))" by simp
    then show ?thesis using False
      using int_div_mod_10 [of n]
      by (subst itoa.simps) (simp add: digits_from_append mult.commute)
  qed
qed

lemma parse_digits_itoa [simp]: "parse_digits (itoa n) = Some (int n)"
  by (simp add: parse_digits_def digits_from_itoa)

lemma digit_not_dot: "is_digit c \<Longrightarrow> c \<noteq> CHR ''.'' \<and> c \<noteq> CHR ''/'' \<and> c \<noteq> CHR '':'' \<and> c \<noteq> CHR ''%''
   \<and> c \<noteq> CHR ''-'' \<and> c \<noteq> CHR ''+''"
  by (auto simp: is_digit_def)

lemma itoa_chars: "c \<in> set (itoa n) \<Longrightarrow> is_digit c"
  using digits_itoa [of n] by (simp add: list_all_iff)

lemma ipv4_fields_itoa:
  assumes "n < 256"
  shows "ipv4_fields 0 0 fs prev (itoa n @ r) =
           ipv4_fields (int n) (length (itoa n)) fs (Some (last (itoa n))) r"
  using assms
proof (induction n arbitrary: r rule: itoa.induct)
  case (1 n)
  show ?case
  proof (cases "n < 10")
    case True
    then show ?thesis by (simp add: itoa.simps [of n])
  next
    case False
    have "int (n div 10) \<noteq> 0" "\<not> 255 < int n" using False "1.prems" by simp_all
    then show ?thesis
      using False "1.IH" "1.prems" int_div_mod_10 [of n] by (simp add: itoa.simps [of n])
  qed
qed

lemma last_itoa: "is_digit (last (itoa n))"
  by (rule itoa_chars [where n = n]) simp

lemma parseIPv4Fields_dotted:
  "parseIPv4Fields (dotted [a, b, c, d]) = Some [a, b, c, d]"
proof -
  have lt: "unat x < 256" for x :: u8
    using unsigned_less [of x, where 'a = nat] by simp
  show ?thesis
    by (simp add: parseIPv4Fields_def dotted_def ipv4_fields_itoa lt
        digit_not_dot [OF last_itoa] is_digit_def ipv4_fields_itoa [where r = "[]", simplified])
qed


lemma dotted_Cons: "dotted [a, b, c, d] = itoa (unat a) @ CHR ''.'' # itoa (unat b) @ CHR ''.'' # itoa (unat c) @ CHR ''.'' # itoa (unat d)"
  by (simp add: dotted_def)

lemma find_after_digits:
  "list_all is_digit xs \<Longrightarrow> find (\<lambda>c. c = CHR ''.'' \<or> c = CHR '':'' \<or> c = CHR ''%'') (xs @ ys) =
     find (\<lambda>c. c = CHR ''.'' \<or> c = CHR '':'' \<or> c = CHR ''%'') ys"
  by (induction xs) (auto dest: digit_not_dot)

lemma ParseAddr_dotted: "ParseAddr (dotted [a, b, c, d]) = Some (v4InV6Prefix @ [a, b, c, d], 32)"
  unfolding ParseAddr_def parseIPv4Fields_dotted
  unfolding dotted_Cons by (simp add: find_after_digits)

lemma dtoi_append_digits:
  "list_all is_digit xs \<Longrightarrow> 0 \<le> n \<Longrightarrow> digits_from n xs = Some m \<Longrightarrow> m < 16777215 \<Longrightarrow>
     dtoi_from n i xs = (m, i + length xs, i + length xs \<noteq> 0)"
proof (induction xs arbitrary: n i)
  case (Cons c cs)
  have mono: "list_all is_digit ys \<Longrightarrow> 0 \<le> k \<Longrightarrow> digits_from k ys = Some m \<Longrightarrow> k \<le> m" for ys k
  proof (induction ys arbitrary: k)
    case (Cons y ys)
    have "0 \<le> digit_val y" using Cons.prems by (simp add: digit_val_def is_digit_def)
    with Cons.IH [of "10 * k + digit_val y"] Cons.prems show ?case by simp
  qed simp
  have "0 \<le> digit_val c" using Cons.prems by (simp add: digit_val_def is_digit_def)
  with Cons mono [of cs "10 * n + digit_val c"] show ?case by (simp add: mult.commute)
qed simp

lemma dtoi_itoa: "n < 16777215 \<Longrightarrow> dtoi_from 0 0 (itoa n) = (int n, length (itoa n), True)"
  using dtoi_append_digits [of "itoa n" 0 "int n" 0] by (simp add: digits_from_itoa)

lemma leading_ones_masks:
  "\<forall>n \<in> set [0..<8]. leading_ones 8 (NOT (drop_bit n 255)) = (n, 0) \<and> NOT (drop_bit n 255) \<noteq> (255 :: u8)"
  by code_simp

lemma leading_ones_mask:
  assumes "n < 8"
  shows "leading_ones 8 (NOT (drop_bit n 255)) = (n, 0)" "NOT (drop_bit n 255) \<noteq> (255 :: u8)"
  using leading_ones_masks assms by auto

lemma CIDRMask_0: "CIDRMask 0 l = replicate l 0"
  by (induction l) simp_all

lemma simpleMaskLength_CIDRMask: "n \<le> 8 * l \<Longrightarrow> simpleMaskLength (CIDRMask n l) = Some n"
proof (induction n l rule: CIDRMask.induct)
  case (2 n l)
  show ?case
  proof (cases "8 \<le> n")
    case True
    with 2 show ?thesis by simp
  next
    case False
    then show ?thesis by (simp add: leading_ones_mask CIDRMask_0)
  qed
qed simp

lemma length_CIDRMask [simp]: "length (CIDRMask n l) = l"
  by (induction n l rule: CIDRMask.induct) auto

lemma slash_notin_itoa: "CHR ''/'' \<notin> set (itoa n)"
  using digit_not_dot itoa_chars by blast

lemma slash_notin_dotted: "CHR ''/'' \<notin> set (dotted [a, b, c, d])"
  by (simp add: dotted_Cons slash_notin_itoa)

lemma split_slash: "CHR ''/'' \<notin> set xs \<Longrightarrow>
   takeWhile (\<lambda>c. c \<noteq> CHR ''/'') (xs @ CHR ''/'' # ys) = xs \<and>
   dropWhile (\<lambda>c. c \<noteq> CHR ''/'') (xs @ CHR ''/'' # ys) = CHR ''/'' # ys"
  by (induction xs) auto

lemma ParseCIDR_cidr_text:
  assumes "n \<le> 32"
  shows "ParseCIDR (cidr_text [a, b, c, d] n) = Inr (v4InV6Prefix @ [a, b, c, d], v4_net [a, b, c, d] n)"
proof -
  have "dtoi_from 0 0 (itoa n) = (int n, length (itoa n), True)"
    using assms by (intro dtoi_itoa) simp
  moreover have "take 12 (v4InV6Prefix @ [a, b, c, d]) = v4InV6Prefix"
    "drop 12 (v4InV6Prefix @ [a, b, c, d]) = [a, b, c, d]"
    by (simp_all add: v4InV6Prefix_def)
  moreover have "length v4InV6Prefix = 12" by (simp add: v4InV6Prefix_def)
  ultimately show ?thesis
    using assms
    by (simp add: ParseCIDR_def cidr_text_def split_slash slash_notin_dotted ParseAddr_dotted
        v4_net_def ip_mask_def Let_def)
qed

lemma To4_v4 [simp]: "To4 (v4InV6Prefix @ [a, b, c, d]) = Some [a, b, c, d]"
  by (simp add: To4_def v4InV6Prefix_def)

section \<open>Membership in a prefix, bit by bit\<close>

lemma length_byte_bits [simp]: "length (byte_bits b) = 8"
  by (simp add: byte_bits_def)

lemma all_below_8: "(\<forall>i<8. P i) \<longleftrightarrow> (P 7 \<and> P 6 \<and> P 5 \<and> P 4 \<and> P 3 \<and> P 2 \<and> P 1 \<and> P (0::nat))"
proof -
  have "{..<8::nat} = {7, 6, 5, 4, 3, 2, 1, 0}" by auto
  then have "(\<forall>i \<in> {..<8}. P i) \<longleftrightarrow> (\<forall>i \<in> {7, 6, 5, 4, 3, 2, 1, 0}. P i)" by (simp only:)
  moreover have "(\<forall>i<8. P i) \<longleftrightarrow> (\<forall>i \<in> {..<8}. P i)" by (simp add: lessThan_iff Ball_def)
  ultimately show ?thesis by (simp only: ball_simps insert_iff) simp
qed

lemma u8_eq_bits: "(x :: u8) = y \<longleftrightarrow> (\<forall>i<8. bit x i = bit y i)"
  by (auto intro: bit_word_eqI)

lemma byte_bits_inj: "byte_bits x = byte_bits y \<longleftrightarrow> x = y"
  unfolding byte_bits_def u8_eq_bits all_below_8 by simp

lemma masked_byte_eq:
  assumes "n < 8"
  shows "x AND NOT (drop_bit n 255) = y AND NOT (drop_bit n 255) \<longleftrightarrow>
         take n (byte_bits x) = take n (byte_bits (y :: u8))"
proof -
  have "n \<in> {0,1,2,3,4,5,6,7}" using assms by auto
  then show ?thesis
    unfolding u8_eq_bits all_below_8 byte_bits_def
    by (elim insertE emptyE; simp add: bit_simps)
qed

lemma masked_zero: "map2 (AND) xs (replicate (length xs) 0) = replicate (length xs) (0::u8)"
  by (induction xs) simp_all

lemma masked_addr_eq:
  assumes "length xs = l" "length ys = l" "n \<le> 8 * l"
  shows "map2 (AND) xs (CIDRMask n l) = map2 (AND) ys (CIDRMask n l) \<longleftrightarrow>
         take n (addr_bits xs) = take n (addr_bits ys)"
  using assms
proof (induction n l arbitrary: xs ys rule: CIDRMask.induct)
  case (2 n l)
  then obtain x xs' y ys' where xs: "xs = x # xs'" "ys = y # ys'" "length xs' = l" "length ys' = l"
    by (auto simp: length_Suc_conv)
  show ?case
  proof (cases "8 \<le> n")
    case True
    have "(x AND 255 = y AND 255) \<longleftrightarrow> byte_bits x = byte_bits y"
      unfolding u8_eq_bits all_below_8 byte_bits_def by (simp add: bit_simps)
    with True 2 xs show ?thesis
      by (simp add: addr_bits_def)
  next
    case False
    with xs show ?thesis
      using masked_byte_eq [of n x y] masked_zero [of xs'] masked_zero [of ys']
      by (simp add: addr_bits_def CIDRMask_0)
  qed
qed simp

lemma and_idem_mask: "map2 (AND) (map2 (AND) xs m) m = map2 (AND) xs (m :: u8 list)"
  by (induction xs m rule: list_induct2') auto

lemma Contains_v4_net:
  assumes "n \<le> 32"
  shows "Contains (v4_net [p, q, r, s] n) (v4InV6Prefix @ [a, b, c, d]) \<longleftrightarrow>
         take n (addr_bits [p, q, r, s]) = take n (addr_bits [a, b, c, d])"
proof -
  have len: "length (map2 (AND) [p, q, r, s] (CIDRMask n 4)) = 4" by simp
  have "networkNumberAndMask (v4_net [p, q, r, s] n) =
          Some (map2 (AND) [p, q, r, s] (CIDRMask n 4), CIDRMask n 4)"
    by (simp add: networkNumberAndMask_def v4_net_def To4_def)
  then show ?thesis
    using masked_addr_eq [of "[p,q,r,s]" 4 "[a,b,c,d]" n] assms
    by (simp add: Contains_def and_idem_mask)
qed

lemma any_contains_iff: "any_contains ns a \<longleftrightarrow> (\<exists>n \<in> set ns. Contains n a)"
  by (induction ns) auto

lemma filter_dot_itoa [simp]: "filter (\<lambda>c. c \<noteq> CHR ''.'') (itoa n) = itoa n"
  by (rule filter_True) (use digit_not_dot itoa_chars in blast)

lemma filter_dot_dotted: "filter (\<lambda>c. c \<noteq> CHR ''.'') (dotted [a, b, c, d]) = digits_of_addr [a, b, c, d]"
  by (simp add: dotted_Cons digits_of_addr_def)

lemma length_itoa_u8: "length (itoa (unat (b :: u8))) \<le> 3"
proof -
  have lt: "unat b < 256" using unsigned_less [of b, where 'a = nat] by simp
  then have "unat b div 10 div 10 < 10" by simp
  then show ?thesis
    by (simp add: itoa.simps [of "unat b"] itoa.simps [of "unat b div 10"] itoa.simps [of "unat b div 10 div 10"])
qed

lemma digit_val_bounds: "is_digit c \<Longrightarrow> 0 \<le> digit_val c \<and> digit_val c \<le> 9"
  by (simp add: is_digit_def digit_val_def)

lemma digits_from_bound:
  "list_all is_digit xs \<Longrightarrow> 0 \<le> k \<Longrightarrow> \<exists>m. digits_from k xs = Some m \<and> 0 \<le> m \<and> m < (k + 1) * 10 ^ length xs"
proof (induction xs arbitrary: k)
  case (Cons c cs)
  have d: "0 \<le> digit_val c" "digit_val c \<le> 9" using Cons.prems digit_val_bounds by auto
  then obtain m where m: "digits_from (10 * k + digit_val c) cs = Some m" "0 \<le> m"
    "m < (10 * k + digit_val c + 1) * 10 ^ length cs"
    using Cons.IH [of "10 * k + digit_val c"] Cons.prems by auto
  have "(10 * k + digit_val c + 1) * 10 ^ length cs \<le> ((k + 1) * 10) * 10 ^ length cs"
    using d by (intro mult_right_mono) auto
  from m(3) this have "m < ((k + 1) * 10) * 10 ^ length cs" by (rule less_le_trans)
  then have "m < (k + 1) * 10 ^ length (c # cs)" by (simp only: mult.assoc power_Suc list.size(4) add_0_right add_Suc_right)
  with m(1,2) Cons.prems show ?case by simp
qed simp

lemma digits_of_addr_parse:
  "\<exists>m. parse_digits (digits_of_addr [a, b, c, d]) = Some m \<and> 0 \<le> m \<and> m < 10 ^ 12"
proof -
  let ?s = "digits_of_addr [a, b, c, d]"
  have "length ?s \<le> 12"
    using length_itoa_u8 [of a] length_itoa_u8 [of b] length_itoa_u8 [of c] length_itoa_u8 [of d]
    by (simp add: digits_of_addr_def)
  then have "(10::int) ^ length ?s \<le> 10 ^ 12" by (intro power_increasing) auto
  moreover have "list_all is_digit ?s" "?s \<noteq> []" by (simp_all add: digits_of_addr_def)
  ultimately show ?thesis using digits_from_bound [of ?s 0] by (auto simp: parse_digits_def)
qed

lemma hd_digits_of_addr: "is_digit (hd (digits_of_addr [a, b, c, d]))" "digits_of_addr [a, b, c, d] \<noteq> []"
  using itoa_chars [of "hd (itoa (unat a))" "unat a"] by (simp_all add: digits_of_addr_def)

section \<open>Properties\<close>

text \<open>A number written by \<^verbatim>\<open>Uint32ToStr\<close> is read back unchanged by \<^verbatim>\<open>StrToUint32\<close>.\<close>

theorem StrToUint32_Uint32ToStr: "StrToUint32 (Uint32ToStr v) = Inr v"
proof -
  have "uint v < 2 ^ 64" using unsigned_less [of v, where 'a = int] by simp
  then show ?thesis by (simp add: StrToUint32_def Uint32ToStr_def ParseUint64_def)
qed

text \<open>
  C39: for every IPv4 address and mask length, \<^verbatim>\<open>Addr\<close> and \<^verbatim>\<open>MaskLen\<close> recover from the
  text \<open>a.b.c.d/n\<close> exactly the dotted address and the length.
\<close>

theorem prefix_text_roundtrip:
  "n \<le> 32 \<Longrightarrow> Addr (cidr_text [a, b, c, d] n) = dotted [a, b, c, d] \<and>
     MaskLen (cidr_text [a, b, c, d] n) = of_nat n"
  by (simp add: Addr_def MaskLen_def ParseCIDR_cidr_text ip_string_def v4_net_def mask_ones_def
      simpleMaskLength_CIDRMask)

theorem prefix_text_roundtrip_witness:
  "Addr (cidr_text [203, 0, 113, 7] 24) = dotted [203, 0, 113, 7] \<and>
   MaskLen (cidr_text [203, 0, 113, 7] 24) = 24"
  using prefix_text_roundtrip [of 24 203 0 113 7] by simp

text \<open>
  C38: \<^verbatim>\<open>IsFIP\<close> accepts a host prefix exactly when its address agrees with one of the
  configured aggregates on all of that aggregate's leading bits.
\<close>

theorem IsFIP_iff_common_prefix:
  assumes "k \<le> 32" "\<forall>(fs, n) \<in> set ps. length fs = 4 \<and> n \<le> 32"
  shows "IsFIP (cidr_text [a, b, c, d] k) (parsed_nets ps) \<longleftrightarrow>
           (\<exists>(fs, n) \<in> set ps. take n (addr_bits fs) = take n (addr_bits [a, b, c, d]))"
proof -
  have "Contains (v4_net fs n) (v4InV6Prefix @ [a, b, c, d]) \<longleftrightarrow>
         take n (addr_bits fs) = take n (addr_bits [a, b, c, d])" if "(fs, n) \<in> set ps" for fs n
  proof -
    from that assms have "length fs = 4" "n \<le> 32" by auto
    then obtain p q r s where "fs = [p, q, r, s]" by (auto simp: numeral_eq_Suc length_Suc_conv)
    with \<open>n \<le> 32\<close> show ?thesis by (simp add: Contains_v4_net)
  qed
  then show ?thesis
    using assms(1) by (force simp: IsFIP_def ParseCIDR_cidr_text any_contains_iff parsed_nets_def)
qed

theorem IsFIP_iff_common_prefix_witness:
  "IsFIP (cidr_text [172, 16, 1, 5] 32) (parsed_nets [([172, 16, 0, 0], 24), ([172, 16, 1, 0], 24)])"
proof -
  have "take 24 (addr_bits [172, 16, 1, 0]) = take 24 (addr_bits [172, 16, 1, 5])"
    by (simp add: addr_bits_def)
  then show ?thesis
    using IsFIP_iff_common_prefix [of 32 "[([172, 16, 0, 0], 24), ([172, 16, 1, 0], 24)]" 172 16 1 5]
    by simp
qed

text \<open>
  The local label of a VRF is 1000000 plus the last four decimal digits of its address
  written without dots.
\<close>

theorem MPLSLabel_value:
  assumes "n \<le> 32"
  shows "MPLSLabel (cidr_text [a, b, c, d] n) = Inr (1000000 + of_int (label_number [a, b, c, d] mod 10000))"
proof -
  obtain m where m: "parse_digits (digits_of_addr [a, b, c, d]) = Some m" "0 \<le> m" "m < 10 ^ 12"
    using digits_of_addr_parse by blast
  have "Atoi (digits_of_addr [a, b, c, d]) = Inr m"
    using m hd_digits_of_addr [of a b c d] digit_not_dot [of "hd (digits_of_addr [a, b, c, d])"]
    by (simp add: Atoi_def Let_def)
  moreover have "sgn m * (\<bar>m\<bar> mod 10000) = m mod 10000" using m by (cases "m = 0") (auto simp: sgn_if)
  then have "(word_of_int (sgn m * (\<bar>m\<bar> mod 10000)) :: u32) = word_of_int (m mod 10000)" by (simp only:)
  ultimately show ?thesis
    using assms m by (simp add: MPLSLabel_def ParseCIDR_cidr_text ip_string_def filter_dot_dotted label_number_def
        del: of_int_mult)
qed


theorem MPLSLabel_value_witness:
  "MPLSLabel (cidr_text [192, 0, 1, 2] 29) = Inr (1000000 + of_int (label_number [192, 0, 1, 2] mod 10000))"
  by (rule MPLSLabel_value) simp

text \<open>
  C40: whatever the text, a label that \<^verbatim>\<open>MPLSLabel\<close> returns fits the 20-bit label space and is
  none of the reserved labels 0 to 15.
\<close>

theorem MPLSLabel_legal:
  assumes "MPLSLabel s = Inr l"
  shows "16 \<le> unat l \<and> unat l < 2 ^ 20"
proof -
  obtain m :: int where m: "l = 1000000 + of_int (sgn m * (\<bar>m\<bar> mod 10000))"
    using assms by (auto simp: MPLSLabel_def split: sum.splits prod.splits)
  define k where "k = sgn m * (\<bar>m\<bar> mod 10000)"
  have k: "- 10000 < k" "k < 10000"
    unfolding k_def by (auto simp: sgn_if)
  have "l = of_int (1000000 + k)" by (simp add: m k_def)
  then have "uint l = (1000000 + k) mod 2 ^ 32" by (simp only: uint_word_of_int) simp
  also have "\<dots> = 1000000 + k" using k by (intro mod_pos_pos_trivial) auto
  finally have "int (unat l) = 1000000 + k" by simp
  with k have "16 \<le> unat l" "unat l < 1048576" by linarith+
  then show ?thesis by simp
qed

theorem MPLSLabel_legal_witness: "16 \<le> unat (1002012 :: u32) \<and> unat (1002012 :: u32) < 2 ^ 20"
proof (rule MPLSLabel_legal)
  show "MPLSLabel ''192.0.1.2/29'' = Inr 1002012" by code_simp
qed

text \<open>
  Labels are not unique: two different addresses whose digits run together to the same
  ending give two VRFs the same local label.
\<close>

theorem MPLSLabel_collision:
  "MPLSLabel ''10.0.11.1/24'' = Inr 1000111 \<and> MPLSLabel ''10.0.1.11/24'' = Inr 1000111"
  by code_simp

end
