(* ===== verification/Model.thy ===== *)
theory Model
  imports Netutils
begin

text \<open>
  \<^verbatim>\<open>internal/model\<close>: BGP and BFD peers, BGP and VPP routing tables, UDP tunnels and the VPP
  route with its parallel path slices. Field names carry a prefix per struct. The protobuf
  messages the code wraps into \<^verbatim>\<open>anypb.Any\<close> are the constructors of \<open>any\<close>; \<open>OtherAny\<close> is a
  message this program only passes on.
\<close>

section \<open>Messages of the GoBGP API\<close>

datatype Afi = AFI_UNKNOWN | AFI_IP
datatype Safi = SAFI_UNKNOWN | SAFI_UNICAST | SAFI_MPLS_VPN
datatype SessionState = PeerState_UNKNOWN | PeerState_ESTABLISHED | PeerState_other nat

datatype any =
    RouteDistinguisherIPAddress string u32
  | TwoOctetAsSpecificExtended bool u32 u32 u32
  | IPAddressPrefix string u32
  | OriginAttribute u32
  | NextHopAttribute string
  | LabeledVPNIPAddressPrefix "u32 list" "any option" string u32
  | MultiExitDiscAttribute u32
  | LocalPrefAttribute u32
  | EncapExtended u32
  | ExtendedCommunitiesAttribute "any list"
  | MpReachNLRIAttribute Afi Safi "any list" "string list"
  | AsPathAttribute "(u32 \<times> u32 list) list"
  | OtherAny string

section \<open>bgp_peer.go\<close>

abbreviation (input) TF :: int where "TF \<equiv> 0"
abbreviation (input) PHYNET :: int where "PHYNET \<equiv> 1"

record BFDPeer =
  bfd_Enabled :: bool
  bfd_PeerIP :: string
  bfd_PeerEstablished :: bool
  bfd_LocalIP :: string
  bfd_TxRate :: int
  bfd_RxMin :: int
  bfd_Multiplier :: int

record BGPPeer =
  bp_PeerType :: int
  bp_PeerASN :: u32
  bp_PeerAddress :: string
  bp_PeerPort :: u32
  bp_Md5Password :: string
  bp_EbgpMultiHop :: bool
  bp_EbgpMultiHopTTL :: u32
  bp_VRFName :: string
  bp_AFI :: Afi
  bp_SAFI :: Safi
  bp_KeepAliveTimer :: u64
  bp_HoldTimer :: u64
  bp_State :: SessionState
  bp_PrevState :: SessionState
  bp_LastActivity :: nat
  bp_BFDPeering :: "BFDPeer option"

text \<open>
  The constructor; \<open>now\<close> is what \<^verbatim>\<open>time.Now()\<close> returns. A peer type other than the two constants
  leaves the zero value of the struct.
\<close>

definition NewBGPPeer ::
  "nat \<Rightarrow> int \<Rightarrow> u32 \<Rightarrow> string \<Rightarrow> u32 \<Rightarrow> string \<Rightarrow> bool \<Rightarrow> u32 \<Rightarrow> string \<Rightarrow> u64 \<Rightarrow> u64 \<Rightarrow> BGPPeer" where
  "NewBGPPeer now peerType peerASN peerAddress peerPort md5Password ebgpMultiHop ebgpMultiHopTTL
      vrfName keepAliveTimer holdTimer =
     (if peerType = TF then
        \<lparr>bp_PeerType = peerType, bp_PeerASN = peerASN, bp_PeerAddress = peerAddress,
         bp_PeerPort = peerPort, bp_Md5Password = md5Password, bp_EbgpMultiHop = ebgpMultiHop,
         bp_EbgpMultiHopTTL = ebgpMultiHopTTL, bp_VRFName = vrfName, bp_AFI = AFI_IP,
         bp_SAFI = SAFI_MPLS_VPN, bp_KeepAliveTimer = keepAliveTimer, bp_HoldTimer = holdTimer,
         bp_State = PeerState_UNKNOWN, bp_PrevState = PeerState_UNKNOWN, bp_LastActivity = now,
         bp_BFDPeering = None\<rparr>
      else if peerType = PHYNET then
        \<lparr>bp_PeerType = peerType, bp_PeerASN = peerASN, bp_PeerAddress = peerAddress,
         bp_PeerPort = peerPort, bp_Md5Password = md5Password, bp_EbgpMultiHop = ebgpMultiHop,
         bp_EbgpMultiHopTTL = ebgpMultiHopTTL, bp_VRFName = vrfName, bp_AFI = AFI_IP,
         bp_SAFI = SAFI_UNICAST, bp_KeepAliveTimer = keepAliveTimer, bp_HoldTimer = holdTimer,
         bp_State = PeerState_UNKNOWN, bp_PrevState = PeerState_UNKNOWN, bp_LastActivity = now,
         bp_BFDPeering = None\<rparr>
      else
        \<lparr>bp_PeerType = 0, bp_PeerASN = 0, bp_PeerAddress = [], bp_PeerPort = 0,
         bp_Md5Password = [], bp_EbgpMultiHop = False, bp_EbgpMultiHopTTL = 0, bp_VRFName = [],
         bp_AFI = AFI_UNKNOWN, bp_SAFI = SAFI_UNKNOWN, bp_KeepAliveTimer = 0, bp_HoldTimer = 0,
         bp_State = PeerState_UNKNOWN, bp_PrevState = PeerState_UNKNOWN, bp_LastActivity = 0,
         bp_BFDPeering = None\<rparr>)"

definition NewBFDPeer :: "bool \<Rightarrow> string \<Rightarrow> string \<Rightarrow> int \<Rightarrow> int \<Rightarrow> int \<Rightarrow> BFDPeer" where
  "NewBFDPeer bfdEnabled bfdPeerIP bfdLocalIP bfdTxRate bfdRxMin bfdMultiplier =
     \<lparr>bfd_Enabled = bfdEnabled, bfd_PeerIP = bfdPeerIP, bfd_PeerEstablished = False,
      bfd_LocalIP = bfdLocalIP, bfd_TxRate = bfdTxRate, bfd_RxMin = bfdRxMin,
      bfd_Multiplier = bfdMultiplier\<rparr>"

section \<open>bgp_vrf.go\<close>

record BGPVRFTable =
  bv_Name :: string
  bv_ID :: u32
  bv_LocalASN :: u32
  bv_PeerASN :: u32
  bv_RD :: "any option"
  bv_ExportRT :: "any list"
  bv_ImportRT :: "any list"

definition NewBGPVRFTable ::
  "string \<Rightarrow> u32 \<Rightarrow> u32 \<Rightarrow> u32 \<Rightarrow> any option \<Rightarrow> any list \<Rightarrow> any list \<Rightarrow> BGPVRFTable" where
  "NewBGPVRFTable name vrfID localASN peerASN rd exportRT importRT =
     \<lparr>bv_Name = name, bv_ID = vrfID, bv_LocalASN = localASN, bv_PeerASN = peerASN, bv_RD = rd,
      bv_ExportRT = exportRT, bv_ImportRT = importRT\<rparr>"

definition RD :: "string \<Rightarrow> u32 \<Rightarrow> any" where
  "RD routerID vrfID = RouteDistinguisherIPAddress routerID vrfID"

definition RT :: "u32 \<Rightarrow> u32 \<Rightarrow> any" where
  "RT asn vrfID = TwoOctetAsSpecificExtended True 2 asn vrfID"

section \<open>vpp_vrf.go\<close>

record VPPVRFTable =
  vv_Name :: string
  vv_ID :: u32
  vv_MainInterfaceID :: u32
  vv_SubInterfaceID :: u32
  vv_VLAN :: u32
  vv_LocalAddr :: string
  vv_LocalAddrLen :: u32
  vv_NextHop :: string
  vv_MPLSLocalLabel :: u32
  vv_FIPPrefixes :: "string list"
  vv_FIPServed :: u32

abbreviation (input) MaxUint32 :: u32 where "MaxUint32 \<equiv> 4294967295"
abbreviation (input) UndefinedSubIf :: u32 where "UndefinedSubIf \<equiv> MaxUint32"
abbreviation (input) UndefinedMainIf :: u32 where "UndefinedMainIf \<equiv> MaxUint32"
abbreviation (input) UndefinedLabel :: u32 where "UndefinedLabel \<equiv> 0"

definition NewVPPVRFTable ::
  "string \<Rightarrow> u32 \<Rightarrow> u32 \<Rightarrow> u32 \<Rightarrow> u32 \<Rightarrow> string \<Rightarrow> u32 \<Rightarrow> string \<Rightarrow> u32 \<Rightarrow> string list \<Rightarrow> VPPVRFTable" where
  "NewVPPVRFTable name vrfID mainInterfaceID subInterfaceID vlan localAddr localAddrLen nextHop
      mplsLocalLabel fipPrefixes =
     \<lparr>vv_Name = name, vv_ID = vrfID, vv_MainInterfaceID = mainInterfaceID,
      vv_SubInterfaceID = subInterfaceID, vv_VLAN = vlan, vv_LocalAddr = localAddr,
      vv_LocalAddrLen = localAddrLen, vv_NextHop = nextHop, vv_MPLSLocalLabel = mplsLocalLabel,
      vv_FIPPrefixes = fipPrefixes, vv_FIPServed = 0\<rparr>"

section \<open>vpp_tunnel.go\<close>

record VPPUDPTunnel =
  tn_RoutingTableID :: u32
  tn_TunnelID :: u32
  tn_SrcIP :: string
  tn_DstIP :: string
  tn_SrcPort :: u16
  tn_DstPort :: u16
  tn_FIPServed :: u32

abbreviation (input) UndefinedTunnelID :: u32 where "UndefinedTunnelID \<equiv> MaxUint32"

text \<open>
  \<open>r\<close> is the random number drawn; \<^verbatim>\<open>rand.UintN(n)\<close> is its remainder modulo \<open>n\<close>.
\<close>

definition RandUDPTunnelSrcPort :: "nat \<Rightarrow> u16" where
  "RandUDPTunnelSrcPort r = of_nat (r mod (65535 - 49152 + 1) + 49152)"

definition NewVPPUDPTunnel :: "u32 \<Rightarrow> string \<Rightarrow> string \<Rightarrow> u16 \<Rightarrow> VPPUDPTunnel" where
  "NewVPPUDPTunnel tunnelID srcIP dstIP srcPort =
     \<lparr>tn_RoutingTableID = 0, tn_TunnelID = tunnelID, tn_SrcIP = srcIP, tn_DstIP = dstIP,
      tn_SrcPort = srcPort, tn_DstPort = 6635, tn_FIPServed = 0\<rparr>"

section \<open>vpp_route.go\<close>

record VPPIPRoute =
  rt_VRFID :: u32
  rt_MainInterfaceID :: u32
  rt_SubInterfaceID :: u32
  rt_Prefix :: string
  rt_NextHops :: "string list"
  rt_TunnelIDs :: "u32 list"
  rt_FIPMPLSLabels :: "u32 list"

definition NewVPPIPRoute ::
  "u32 \<Rightarrow> u32 \<Rightarrow> u32 \<Rightarrow> string \<Rightarrow> string list \<Rightarrow> u32 list \<Rightarrow> u32 list \<Rightarrow> VPPIPRoute" where
  "NewVPPIPRoute vrfID mainInterfaceID subInterfaceID prefix nextHops tunnelIDs fipMPLSLabels =
     \<lparr>rt_VRFID = vrfID, rt_MainInterfaceID = mainInterfaceID, rt_SubInterfaceID = subInterfaceID,
      rt_Prefix = prefix, rt_NextHops = nextHops, rt_TunnelIDs = tunnelIDs,
      rt_FIPMPLSLabels = fipMPLSLabels\<rparr>"

definition MPLSLabels :: "VPPIPRoute \<Rightarrow> string" where
  "MPLSLabels r = (if rt_FIPMPLSLabels r = [] then ''''
     else join '','' (map (\<lambda>l. itoa (unat l)) (rt_FIPMPLSLabels r)))"

text \<open>
  \<^verbatim>\<open>append(xs[:i], xs[i+1:]...)\<close> panics when \<open>i\<close> is not an index of \<open>xs\<close>.
\<close>

definition slice_out :: "nat \<Rightarrow> 'a list \<Rightarrow> 'a list go" where
  "slice_out i xs = (if i < length xs then Some (drop_at i xs) else panic)"

definition remove_path :: "nat \<Rightarrow> VPPIPRoute \<Rightarrow> VPPIPRoute go" where
  "remove_path i r = do {
     nhs \<leftarrow> slice_out i (rt_NextHops r);
     tids \<leftarrow> slice_out i (rt_TunnelIDs r);
     ls \<leftarrow> slice_out i (rt_FIPMPLSLabels r);
     Some (r\<lparr>rt_NextHops := nhs, rt_TunnelIDs := tids, rt_FIPMPLSLabels := ls\<rparr>)
   }"

text \<open>
  The loop \<^verbatim>\<open>for i := range r.NextHops\<close> of \<^verbatim>\<open>AddPath\<close>: Go evaluates the length once, before the
  first round, while the body shortens the slice.
\<close>

fun add_path_loop :: "string \<Rightarrow> nat list \<Rightarrow> VPPIPRoute \<Rightarrow> VPPIPRoute go" where
  "add_path_loop nextHop [] r = Some r"
| "add_path_loop nextHop (i # is) r = do {
     nh \<leftarrow> at (rt_NextHops r) i;
     r' \<leftarrow> (if nh = nextHop then remove_path i r else Some r);
     add_path_loop nextHop is r'
   }"

definition AddPath :: "VPPIPRoute \<Rightarrow> string \<Rightarrow> u32 \<Rightarrow> u32 \<Rightarrow> VPPIPRoute go" where
  "AddPath r nextHop tunnelID mplsLabel =
     (if nextHop = '''' \<or> tunnelID = 0 \<or> mplsLabel = 0 then Some r
      else do {
        r' \<leftarrow> (if rt_NextHops r \<noteq> [] then add_path_loop nextHop [0..<length (rt_NextHops r)] r
               else Some r);
        Some (r'\<lparr>rt_NextHops := rt_NextHops r' @ [nextHop],
                 rt_TunnelIDs := rt_TunnelIDs r' @ [tunnelID],
                 rt_FIPMPLSLabels := rt_FIPMPLSLabels r' @ [mplsLabel]\<rparr>)
      })"

fun del_path_loop :: "string \<Rightarrow> nat list \<Rightarrow> VPPIPRoute \<Rightarrow> VPPIPRoute go" where
  "del_path_loop nextHop [] r = Some r"
| "del_path_loop nextHop (i # is) r = do {
     nh \<leftarrow> at (rt_NextHops r) i;
     if nh = nextHop then remove_path i r else del_path_loop nextHop is r
   }"

definition DelPath :: "VPPIPRoute \<Rightarrow> string \<Rightarrow> VPPIPRoute go" where
  "DelPath r nextHop =
     (if length (rt_NextHops r) = 1 \<and> rt_NextHops r ! 0 = nextHop
      then Some (r\<lparr>rt_NextHops := [], rt_TunnelIDs := [], rt_FIPMPLSLabels := []\<rparr>)
      else del_path_loop nextHop [0..<length (rt_NextHops r)] r)"

text \<open>An equation to compute with, over the integers.\<close>

lemma RandUDPTunnelSrcPort_code [code]: "RandUDPTunnelSrcPort r = of_int (int r mod 16384 + 49152)"
proof -
  have "int r mod 16384 + 49152 = int (r mod (65535 - 49152 + 1) + 49152)" by (simp add: zmod_int)
  then show ?thesis by (simp only: RandUDPTunnelSrcPort_def of_int_of_nat_eq)
qed

section \<open>Vocabulary of the specifications\<close>

text \<open>
  A route is well formed when its three slices run in parallel and no next hop occurs twice. Its
  paths are then a set of (next hop, tunnel, label) triples, in order.
\<close>

definition wf_route :: "VPPIPRoute \<Rightarrow> bool" where
  "wf_route r \<longleftrightarrow> distinct (rt_NextHops r) \<and> length (rt_TunnelIDs r) = length (rt_NextHops r)
     \<and> length (rt_FIPMPLSLabels r) = length (rt_NextHops r)"

definition paths :: "VPPIPRoute \<Rightarrow> (string \<times> u32 \<times> u32) list" where
  "paths r = zip (rt_NextHops r) (zip (rt_TunnelIDs r) (rt_FIPMPLSLabels r))"

definition set_paths :: "VPPIPRoute \<Rightarrow> (string \<times> u32 \<times> u32) list \<Rightarrow> VPPIPRoute" where
  "set_paths r ps = r\<lparr>rt_NextHops := map fst ps, rt_TunnelIDs := map (fst \<circ> snd) ps,
     rt_FIPMPLSLabels := map (snd \<circ> snd) ps\<rparr>"

definition without :: "string \<Rightarrow> (string \<times> u32 \<times> u32) list \<Rightarrow> (string \<times> u32 \<times> u32) list" where
  "without nh ps = filter (\<lambda>p. fst p \<noteq> nh) ps"

section \<open>The path operations\<close>

lemma wf_route_set_paths: "distinct (map fst ps) \<Longrightarrow> wf_route (set_paths r ps)"
  by (simp add: wf_route_def set_paths_def)

lemma paths_set_paths [simp]: "paths (set_paths r ps) = ps"
  by (simp add: paths_def set_paths_def zip_map_fst_snd zip_map_map o_def) (induction ps; simp)

lemma set_paths_paths [simp]: "wf_route r \<Longrightarrow> set_paths r (paths r) = r"
  by (simp add: paths_def set_paths_def wf_route_def flip: map_map)

lemma set_paths_set_paths [simp]: "set_paths (set_paths r ps) qs = set_paths r qs"
  by (simp add: set_paths_def)

lemma map_fst_paths: "wf_route r \<Longrightarrow> map fst (paths r) = rt_NextHops r"
  by (simp add: paths_def wf_route_def)

lemma rt_NextHops_set_paths [simp]: "rt_NextHops (set_paths r ps) = map fst ps"
  by (simp add: set_paths_def)

lemma drop_at_map: "drop_at i (map f xs) = map f (drop_at i xs)"
  by (simp add: drop_at_def take_map drop_map)

lemma remove_path_set_paths:
  "i < length ps \<Longrightarrow> remove_path i (set_paths r ps) = Some (set_paths r (drop_at i ps))"
  by (simp add: remove_path_def slice_out_def set_paths_def drop_at_map)

lemma set_paths_frame [simp]:
  "rt_VRFID (set_paths r ps) = rt_VRFID r" "rt_Prefix (set_paths r ps) = rt_Prefix r"
  "rt_MainInterfaceID (set_paths r ps) = rt_MainInterfaceID r"
  "rt_SubInterfaceID (set_paths r ps) = rt_SubInterfaceID r"
  by (simp_all add: set_paths_def)

lemma add_path_loop_append:
  "add_path_loop nh (is @ js) r = Option.bind (add_path_loop nh is r) (add_path_loop nh js)"
proof (induction "is" arbitrary: r)
  case (Cons i "is")
  then show ?case
    by (cases "at (rt_NextHops r) i") (auto simp: Option.bind_assoc split: Option.bind_splits)
qed simp

lemma add_path_loop_skip:
  "\<forall>i \<in> set is. i < length ps \<and> fst (ps ! i) \<noteq> nh \<Longrightarrow>
     add_path_loop nh is (set_paths r ps) = Some (set_paths r ps)"
  by (induction "is") (auto simp: at_def)

lemma add_path_loop_out_of_range:
  "\<forall>i \<in> set is. i < length ps \<longrightarrow> fst (ps ! i) \<noteq> nh \<Longrightarrow> \<exists>i \<in> set is. length ps \<le> i \<Longrightarrow>
     add_path_loop nh is (set_paths r ps) = None"
  by (induction "is") (auto simp: at_def)

lemma nth_drop_at: "i < length xs \<Longrightarrow> j < length xs - 1 \<Longrightarrow>
    drop_at i xs ! j = (if j < i then xs ! j else xs ! Suc j)"
  by (auto simp: drop_at_def nth_append min_def)

lemma without_absent: "nh \<notin> fst ` set ps \<Longrightarrow> without nh ps = ps"
  unfolding without_def by (rule filter_True) force

lemma without_append: "without nh (ps @ qs) = without nh ps @ without nh qs"
  by (simp add: without_def)

lemma without_Cons: "without nh (p # ps) = (if fst p = nh then without nh ps else p # without nh ps)"
  by (simp add: without_def)

lemma without_eq_drop_at:
  assumes "distinct (map fst ps)" "k < length ps"
  shows "without (fst (ps ! k)) ps = drop_at k ps"
proof -
  have split: "ps = take k ps @ ps ! k # drop (Suc k) ps"
    using assms(2) by (rule id_take_nth_drop)
  have "distinct (map fst (take k ps @ ps ! k # drop (Suc k) ps))" using assms(1) split by simp
  then have "fst (ps ! k) \<notin> fst ` set (take k ps)" "fst (ps ! k) \<notin> fst ` set (drop (Suc k) ps)"
    by auto
  then have "without (fst (ps ! k)) (take k ps @ ps ! k # drop (Suc k) ps) = take k ps @ drop (Suc k) ps"
    by (simp add: without_append without_Cons without_absent)
  then show ?thesis using split by (simp add: drop_at_def)
qed

lemma add_path_loop_found:
  assumes ps: "distinct (map fst ps)" and k: "k < length ps" "fst (ps ! k) = nh"
  shows "add_path_loop nh [0..<length ps] (set_paths r ps) =
           (if k = length ps - 1 then Some (set_paths r (without nh ps)) else None)"
proof -
  have ne: "fst (ps ! i) \<noteq> nh" if "i < length ps" "i \<noteq> k" for i
    using that k ps by (auto simp: distinct_conv_nth)
  have idx: "[0..<length ps] = [0..<k] @ k # [Suc k..<length ps]"
    using k(1) by (metis less_imp_le_nat upt_add_eq_append upt_conv_Cons le_add_diff_inverse zero_le)
  have first: "add_path_loop nh [0..<k] (set_paths r ps) = Some (set_paths r ps)"
    using k(1) ne by (intro add_path_loop_skip) auto
  have step: "add_path_loop nh (k # [Suc k..<length ps]) (set_paths r ps) =
      add_path_loop nh [Suc k..<length ps] (set_paths r (drop_at k ps))"
    using k by (simp add: at_def remove_path_set_paths)
  have rest: "fst (drop_at k ps ! j) \<noteq> nh" if "j < length ps - 1" for j
    using that k(1) ne by (simp add: nth_drop_at)
  show ?thesis
  proof (cases "k = length ps - 1")
    case True
    then have "[Suc k..<length ps] = []" using k(1) by simp
    then show ?thesis
      using True without_eq_drop_at [OF ps k(1)] k(2) first step
      by (simp add: idx add_path_loop_append del: upt_Suc)
  next
    case False
    have "add_path_loop nh [Suc k..<length ps] (set_paths r (drop_at k ps)) = None"
    proof (rule add_path_loop_out_of_range)
      show "\<forall>i\<in>set [Suc k..<length ps]. i < length (drop_at k ps) \<longrightarrow> fst (drop_at k ps ! i) \<noteq> nh"
        using rest k(1) by (simp add: length_drop_at)
      show "\<exists>i\<in>set [Suc k..<length ps]. length (drop_at k ps) \<le> i"
        using False k(1) by (intro bexI [of _ "length ps - 1"]) (auto simp: length_drop_at)
    qed
    then show ?thesis
      using False first step by (simp add: idx add_path_loop_append del: upt_Suc)
  qed
qed

lemma del_path_loop_append_skip:
  "\<forall>i \<in> set is. i < length ps \<and> fst (ps ! i) \<noteq> nh \<Longrightarrow>
     del_path_loop nh (is @ js) (set_paths r ps) = del_path_loop nh js (set_paths r ps)"
  by (induction "is") (auto simp: at_def)

lemma AddPath_set_paths:
  assumes "distinct (map fst ps)" "nh \<noteq> ''''" "t \<noteq> 0" "l \<noteq> 0"
  shows "AddPath (set_paths r ps) nh t l =
     (if nh \<notin> fst ` set ps then Some (set_paths r (ps @ [(nh, t, l)]))
      else if fst (last ps) = nh then Some (set_paths r (without nh ps @ [(nh, t, l)]))
      else None)"
proof (cases "nh \<in> fst ` set ps")
  case False
  then have "add_path_loop nh [0..<length ps] (set_paths r ps) = Some (set_paths r ps)"
    by (intro add_path_loop_skip) auto
  with False assms show ?thesis by (simp add: AddPath_def set_paths_def)
next
  case True
  then obtain k where k: "k < length ps" "fst (ps ! k) = nh" by (auto simp: in_set_conv_nth)
  have "fst (last ps) = nh \<longleftrightarrow> k = length ps - 1"
  proof
    assume "fst (last ps) = nh"
    moreover have "ps \<noteq> []" using k by auto
    ultimately have "map fst ps ! (length ps - 1) = map fst ps ! k"
      using k by (simp add: last_conv_nth)
    then show "k = length ps - 1"
      using assms(1) k(1) by (subst (asm) nth_eq_iff_index_eq) auto
  next
    assume "k = length ps - 1"
    then show "fst (last ps) = nh" using k by (cases ps) (auto simp: last_conv_nth)
  qed
  with True k assms add_path_loop_found [OF assms(1) k] show ?thesis
    by (auto simp: AddPath_def) (simp_all add: set_paths_def)
qed

lemma DelPath_set_paths:
  assumes "distinct (map fst ps)"
  shows "DelPath (set_paths r ps) nh = Some (set_paths r (without nh ps))"
proof (cases "nh \<in> fst ` set ps")
  case False
  then have nf: "\<forall>i \<in> set [0..<length ps]. i < length ps \<and> fst (ps ! i) \<noteq> nh" by auto
  have "without nh ps = ps" using False by (auto simp: without_def filter_id_conv)
  moreover have "\<not> (length ps = 1 \<and> fst (ps ! 0) = nh)" using nf by auto
  ultimately show ?thesis
    using del_path_loop_append_skip [OF nf, of "[]" r] by (auto simp: DelPath_def)
next
  case True
  then obtain k where k: "k < length ps" "fst (ps ! k) = nh" by (auto simp: in_set_conv_nth)
  have ne: "fst (ps ! i) \<noteq> nh" if "i < length ps" "i \<noteq> k" for i
    using that k assms by (auto simp: distinct_conv_nth)
  have idx: "[0..<length ps] = [0..<k] @ k # [Suc k..<length ps]"
    using k(1) by (metis less_imp_le_nat upt_add_eq_append upt_conv_Cons le_add_diff_inverse zero_le)
  have "del_path_loop nh [0..<length ps] (set_paths r ps) = remove_path k (set_paths r ps)"
    unfolding idx using k ne by (subst del_path_loop_append_skip) (auto simp: at_def)
  then have loop: "del_path_loop nh [0..<length ps] (set_paths r ps) = Some (set_paths r (without nh ps))"
    using k without_eq_drop_at [OF assms k(1)] by (simp add: remove_path_set_paths)
  show ?thesis
  proof (cases "length ps = 1")
    case True
    then have "k = 0" using k by simp
    with True k obtain x where "ps = [x]" "fst x = nh" by (auto simp: length_Suc_conv)
    then show ?thesis by (simp add: DelPath_def without_def) (simp add: set_paths_def)
  next
    case False
    with loop show ?thesis by (simp add: DelPath_def)
  qed
qed

lemma wf_route_cases:
  assumes "wf_route r"
  obtains ps where "r = set_paths r ps" "distinct (map fst ps)" "paths r = ps"
  using assms set_paths_paths [OF assms] map_fst_paths [OF assms] by (metis wf_route_def)

section \<open>Properties\<close>



text \<open>
  \<^verbatim>\<open>DelPath\<close> never panics on a well-formed route: it removes exactly the path of the given
  next hop, keeps the order of the others, and the result is well formed.
\<close>

theorem DelPath_behaviour:
  assumes "wf_route r"
  shows "\<exists>r'. DelPath r nh = Some r' \<and> wf_route r' \<and> paths r' = without nh (paths r) \<and>
     rt_VRFID r' = rt_VRFID r \<and> rt_Prefix r' = rt_Prefix r"
proof -
  obtain ps where ps: "r = set_paths r ps" "distinct (map fst ps)" "paths r = ps"
    using assms by (rule wf_route_cases)
  have "distinct (map fst (without nh ps))"
    using ps(2) by (simp add: without_def distinct_map_filter)
  then show ?thesis
    using DelPath_set_paths [OF ps(2), of r nh] ps
    by (auto intro!: exI [of _ "set_paths r (without nh ps)"] wf_route_set_paths)
qed

theorem DelPath_behaviour_witness:
  "\<exists>r'. DelPath (NewVPPIPRoute 1 1 2 ''10.0.0.1/32'' [''a'', ''b''] [1, 2] [100, 200]) ''a'' = Some r' \<and>
     paths r' = [(''b'', 2, 200)]"
proof -
  let ?r = "NewVPPIPRoute 1 1 2 ''10.0.0.1/32'' [''a'', ''b''] [1, 2] [100, 200]"
  have "wf_route ?r" by (simp add: wf_route_def NewVPPIPRoute_def)
  then show ?thesis
    using DelPath_behaviour [of ?r "''a''"] by (auto simp: NewVPPIPRoute_def paths_def without_def)
qed

text \<open>
  The source port of a tunnel always lies in the dynamic range 49152 to 65535 of RFC 7510,
  and every port of the range can be drawn.
\<close>

theorem RandUDPTunnelSrcPort_range:
  "49152 \<le> unat (RandUDPTunnelSrcPort r) \<and> unat (RandUDPTunnelSrcPort r) \<le> 65535 \<and>
   (49152 \<le> p \<and> p \<le> 65535 \<longrightarrow> (\<exists>r. unat (RandUDPTunnelSrcPort r) = p))"
proof -
  have val: "unat (RandUDPTunnelSrcPort r) = r mod 16384 + 49152" for r
  proof -
    have "r mod 16384 + 49152 < 65536" by simp
    moreover have "RandUDPTunnelSrcPort r = of_nat (r mod 16384 + 49152)"
      unfolding RandUDPTunnelSrcPort_def by simp
    ultimately show ?thesis by (simp only: unat_of_nat) simp
  qed
  have "\<exists>r. unat (RandUDPTunnelSrcPort r) = p" if "49152 \<le> p" "p \<le> 65535"
    using that by (intro exI [of _ "p - 49152"]) (simp add: val)
  moreover have "r mod 16384 + 49152 \<le> 65535"
    using mod_less_divisor [of 16384 r] by linarith
  ultimately show ?thesis by (simp add: val)
qed

theorem RandUDPTunnelSrcPort_range_witness:
  "49152 \<le> unat (RandUDPTunnelSrcPort 5) \<and> (\<exists>r. unat (RandUDPTunnelSrcPort r) = 50000)"
  using RandUDPTunnelSrcPort_range [of 5 50000] by simp

end
