(* ===== verification/Memdb.thy ===== *)
theory Memdb
  imports Model "HOL-Library.AList"
begin

text \<open>
  The in-memory database the storages sit on is \<^verbatim>\<open>hashicorp/go-memdb\<close>, which is not part of the
  repository: it is a record \<open>M\<close> of operations, an argument of every storage operation, and
  \<open>memdb_models M C\<close> is the documented behaviour the storages rely on, with \<open>C\<close> the rows a database
  holds. A table stores pointers: the objects live in a heap, so a change through a pointer is seen
  by every holder of it, whatever the transaction did. The library here turns this into the view of
  a table: the object each key leads to.
\<close>

section \<open>Keys\<close>

datatype key = KStr string | KUint u32

instantiation key :: linorder
begin

fun less_eq_key :: "key \<Rightarrow> key \<Rightarrow> bool" where
  "less_eq_key (KStr s) (KStr t) \<longleftrightarrow> s \<le> t"
| "less_eq_key (KStr s) (KUint n) \<longleftrightarrow> True"
| "less_eq_key (KUint m) (KStr t) \<longleftrightarrow> False"
| "less_eq_key (KUint m) (KUint n) \<longleftrightarrow> m \<le> n"

definition less_key :: "key \<Rightarrow> key \<Rightarrow> bool" where
  "less_key k l \<longleftrightarrow> k \<le> l \<and> \<not> l \<le> k"

instance
proof
  fix x y z :: key
  show "x < y \<longleftrightarrow> x \<le> y \<and> \<not> y \<le> x" by (rule less_key_def)
  show "x \<le> x" by (cases x) auto
  show "x \<le> y \<Longrightarrow> y \<le> z \<Longrightarrow> x \<le> z" by (cases x; cases y; cases z) auto
  show "x \<le> y \<Longrightarrow> y \<le> x \<Longrightarrow> x = y" by (cases x; cases y) auto
  show "x \<le> y \<or> y \<le> x" by (cases x; cases y) auto
qed

end

section \<open>The database interface\<close>

type_synonym addr = nat
type_synonym keys = "(string \<times> key) list"

text \<open>
  \<open>mdb_insert w ks a\<close>: \<^verbatim>\<open>txn.Insert\<close> of the object at address \<open>a\<close>, whose indexed fields are
  \<open>ks\<close>, in a write (\<open>w\<close>) or read-only transaction; \<open>mdb_first\<close>: \<^verbatim>\<open>txn.First\<close>; \<open>mdb_delete\<close>:
  \<^verbatim>\<open>txn.DeleteAll\<close> with a key and its number of deleted rows; \<open>mdb_clear\<close> and \<open>mdb_all\<close>:
  \<^verbatim>\<open>DeleteAll\<close> and \<^verbatim>\<open>Get\<close> with the index's \<^verbatim>\<open>_prefix\<close> form and the empty prefix.
\<close>

record 'd memdb =
  mdb_new :: "'d"
  mdb_insert :: "bool \<Rightarrow> keys \<Rightarrow> addr \<Rightarrow> 'd \<Rightarrow> err option \<times> 'd"
  mdb_first :: "string \<Rightarrow> key \<Rightarrow> 'd \<Rightarrow> err + addr option"
  mdb_delete :: "string \<Rightarrow> key \<Rightarrow> 'd \<Rightarrow> (err + nat) \<times> 'd"
  mdb_clear :: "string \<Rightarrow> 'd \<Rightarrow> (err + nat) \<times> 'd"
  mdb_all :: "string \<Rightarrow> 'd \<Rightarrow> err + addr list"

text \<open>A string index refuses objects whose field is empty.\<close>

definition keys_present :: "keys \<Rightarrow> bool" where
  "keys_present ks \<longleftrightarrow> (\<forall>k \<in> snd ` set ks. k \<noteq> KStr '''')"

definition row_key :: "string \<Rightarrow> keys \<times> addr \<Rightarrow> key" where
  "row_key ix r = the (map_of (fst r) ix)"

definition indexed_by :: "string \<Rightarrow> (keys \<times> addr) set \<Rightarrow> bool" where
  "indexed_by ix rows \<longleftrightarrow> (\<forall>r \<in> rows. map_of (fst r) ix \<noteq> None) \<and> inj_on (row_key ix) rows"

definition memdb_models :: "'d memdb \<Rightarrow> ('d \<Rightarrow> key \<rightharpoonup> keys \<times> addr) \<Rightarrow> bool" where
  "memdb_models M C \<longleftrightarrow>
     C (mdb_new M) = Map.empty \<and>
     (\<forall>ks a k d. map_of ks ''id'' = Some k \<longrightarrow> keys_present ks \<longrightarrow>
        fst (mdb_insert M True ks a d) = None \<and>
        C (snd (mdb_insert M True ks a d)) = (C d)(k \<mapsto> (ks, a))) \<and>
     (\<forall>ks a d. \<not> keys_present ks \<longrightarrow>
        fst (mdb_insert M True ks a d) \<noteq> None \<and> snd (mdb_insert M True ks a d) = d) \<and>
     (\<forall>ks a d. fst (mdb_insert M False ks a d) \<noteq> None \<and> snd (mdb_insert M False ks a d) = d) \<and>
     (\<forall>k d. mdb_first M ''id'' k d = Inr (map_option snd (C d k))) \<and>
     (\<forall>k d. fst (mdb_delete M ''id'' k d) = Inr (if C d k = None then 0 else 1) \<and>
        C (snd (mdb_delete M ''id'' k d)) = (C d)(k := None)) \<and>
     (\<forall>ix d. (\<exists>n. fst (mdb_clear M ix d) = Inr n) \<and> C (snd (mdb_clear M ix d)) = Map.empty) \<and>
     (\<forall>ix d. indexed_by ix (ran (C d)) \<longrightarrow>
        (\<exists>rows. mdb_all M ix d = Inr (map snd rows) \<and> set rows = ran (C d) \<and>
           sorted_wrt (<) (map (row_key ix) rows)))"

section \<open>Tables of pointers\<close>

record ('d, 'a) table =
  tb_db :: "'d"
  tb_heap :: "addr \<rightharpoonup> 'a"
  tb_next :: addr

definition tbl_new :: "'d memdb \<Rightarrow> ('d, 'a) table" where
  "tbl_new M = \<lparr>tb_db = mdb_new M, tb_heap = Map.empty, tb_next = 0\<rparr>"

text \<open>The pointer stored under an id: an error or no row are both \<^verbatim>\<open>nil\<close> for the callers.\<close>

definition tbl_get :: "'d memdb \<Rightarrow> key \<Rightarrow> ('d, 'a) table \<Rightarrow> addr option" where
  "tbl_get M k t = (case mdb_first M ''id'' k (tb_db t) of Inl _ \<Rightarrow> None | Inr p \<Rightarrow> p)"

definition tbl_view :: "'d memdb \<Rightarrow> ('d, 'a) table \<Rightarrow> key \<rightharpoonup> 'a" where
  "tbl_view M t k = Option.bind (tbl_get M k t) (tb_heap t)"

text \<open>Insertion of a freshly allocated object.\<close>

definition tbl_add :: "'d memdb \<Rightarrow> ('a \<Rightarrow> keys) \<Rightarrow> 'a \<Rightarrow> ('d, 'a) table \<Rightarrow> err option \<times> ('d, 'a) table" where
  "tbl_add M ixs x t =
     (let a = tb_next t; r = mdb_insert M True (ixs x) a (tb_db t)
      in (fst r, t\<lparr>tb_db := snd r, tb_heap := (tb_heap t)(a \<mapsto> x), tb_next := Suc a\<rparr>))"

text \<open>A change through a pointer.\<close>

definition tbl_poke :: "addr \<Rightarrow> ('a \<Rightarrow> 'a) \<Rightarrow> ('d, 'a) table \<Rightarrow> ('d, 'a) table" where
  "tbl_poke a f t = t\<lparr>tb_heap := (tb_heap t)(a := map_option f (tb_heap t a))\<rparr>"

text \<open>\<^verbatim>\<open>txn.Insert\<close> of an object that is already in the table.\<close>

definition tbl_reinsert ::
  "'d memdb \<Rightarrow> bool \<Rightarrow> ('a \<Rightarrow> keys) \<Rightarrow> addr \<Rightarrow> ('d, 'a) table \<Rightarrow> err option \<times> ('d, 'a) table" where
  "tbl_reinsert M w ixs a t = (case tb_heap t a of
      None \<Rightarrow> (None, t)
    | Some x \<Rightarrow> (let r = mdb_insert M w (ixs x) a (tb_db t) in (fst r, t\<lparr>tb_db := snd r\<rparr>)))"

text \<open>
  The read-modify-write sequence of the storages: look the pointer up, change the object through
  it, insert it again. \<open>None\<close> when there is no such row, else the error of the insertion.
\<close>

definition tbl_modify :: "'d memdb \<Rightarrow> bool \<Rightarrow> ('a \<Rightarrow> keys) \<Rightarrow> key \<Rightarrow> ('a \<Rightarrow> 'a) \<Rightarrow> ('d, 'a) table
    \<Rightarrow> err option option \<times> ('d, 'a) table" where
  "tbl_modify M w ixs k f t = (case tbl_get M k t of
      None \<Rightarrow> (None, t)
    | Some a \<Rightarrow> (let r = tbl_reinsert M w ixs a (tbl_poke a f t) in (Some (fst r), snd r)))"

definition tbl_delete :: "'d memdb \<Rightarrow> key \<Rightarrow> ('d, 'a) table \<Rightarrow> (err + nat) \<times> ('d, 'a) table" where
  "tbl_delete M k t = (let r = mdb_delete M ''id'' k (tb_db t) in (fst r, t\<lparr>tb_db := snd r\<rparr>))"

definition tbl_clear :: "'d memdb \<Rightarrow> string \<Rightarrow> ('d, 'a) table \<Rightarrow> err option \<times> ('d, 'a) table" where
  "tbl_clear M ix t = (let r = mdb_clear M ix (tb_db t)
     in ((case fst r of Inl e \<Rightarrow> Some e | Inr _ \<Rightarrow> None), t\<lparr>tb_db := snd r\<rparr>))"

text \<open>The objects of a table in index order; an error or an empty table is the nil slice.\<close>

definition tbl_all :: "'d memdb \<Rightarrow> string \<Rightarrow> ('d, 'a) table \<Rightarrow> 'a list" where
  "tbl_all M ix t = (case mdb_all M ix (tb_db t) of
      Inl _ \<Rightarrow> []
    | Inr as \<Rightarrow> List.map_filter (tb_heap t) as)"

definition tbl_wf :: "('d \<Rightarrow> key \<rightharpoonup> keys \<times> addr) \<Rightarrow> ('a \<Rightarrow> keys) \<Rightarrow> ('d, 'a) table \<Rightarrow> bool" where
  "tbl_wf C ixs t \<longleftrightarrow>
     (\<forall>k ks a. C (tb_db t) k = Some (ks, a) \<longrightarrow>
        a < tb_next t \<and> map_of ks ''id'' = Some k \<and> keys_present ks \<and>
        (\<exists>x. tb_heap t a = Some x \<and> ixs x = ks))"

section \<open>A database\<close>

text \<open>
  An association list from the primary key to the row: a database that behaves as documented, on
  which the storages can be run.
\<close>

definition alist_all :: "string \<Rightarrow> (key \<times> keys \<times> addr) list \<Rightarrow> (keys \<times> addr) list" where
  "alist_all ix d = sort_key (row_key ix) (remdups (map snd (AList.clearjunk d)))"

definition alist_insert :: "bool \<Rightarrow> keys \<Rightarrow> addr \<Rightarrow> (key \<times> keys \<times> addr) list
    \<Rightarrow> err option \<times> (key \<times> keys \<times> addr) list" where
  "alist_insert w ks a d =
     (if \<not> w then (Some (ExtErr ''cannot insert in read-only transaction''), d)
      else if \<not> keys_present ks then (Some (ExtErr ''missing value for index''), d)
      else case map_of ks ''id'' of
          None \<Rightarrow> (Some (ExtErr ''missing primary index''), d)
        | Some k \<Rightarrow> (None, (k, ks, a) # AList.delete k d))"

definition alist_memdb :: "(key \<times> keys \<times> addr) list memdb" where
  "alist_memdb = \<lparr>mdb_new = [], mdb_insert = alist_insert,
     mdb_first = (\<lambda>ix k d. Inr (map_option snd (map_of d k))),
     mdb_delete = (\<lambda>ix k d. (Inr (if map_of d k = None then 0 else 1), AList.delete k d)),
     mdb_clear = (\<lambda>ix d. (Inr (length d), [])),
     mdb_all = (\<lambda>ix d. Inr (map snd (alist_all ix d)))\<rparr>"

section \<open>What the operations do to the view\<close>

lemma memdb_newD: "memdb_models M C \<Longrightarrow> C (mdb_new M) = Map.empty"
  by (simp add: memdb_models_def)

lemma memdb_insertD:
  "memdb_models M C \<Longrightarrow> map_of ks ''id'' = Some k \<Longrightarrow> keys_present ks \<Longrightarrow>
     fst (mdb_insert M True ks a d) = None \<and> C (snd (mdb_insert M True ks a d)) = (C d)(k \<mapsto> (ks, a))"
  unfolding memdb_models_def by blast

lemma memdb_insert_missingD:
  "memdb_models M C \<Longrightarrow> \<not> keys_present ks \<Longrightarrow>
     fst (mdb_insert M True ks a d) \<noteq> None \<and> snd (mdb_insert M True ks a d) = d"
  unfolding memdb_models_def by blast

lemma memdb_insert_roD:
  "memdb_models M C \<Longrightarrow> fst (mdb_insert M False ks a d) \<noteq> None \<and> snd (mdb_insert M False ks a d) = d"
  unfolding memdb_models_def by blast

lemma memdb_firstD: "memdb_models M C \<Longrightarrow> mdb_first M ''id'' k d = Inr (map_option snd (C d k))"
  unfolding memdb_models_def by blast

lemma memdb_deleteD:
  "memdb_models M C \<Longrightarrow> fst (mdb_delete M ''id'' k d) = Inr (if C d k = None then 0 else 1) \<and>
     C (snd (mdb_delete M ''id'' k d)) = (C d)(k := None)"
  unfolding memdb_models_def by blast

lemma memdb_clearD:
  "memdb_models M C \<Longrightarrow> (\<exists>n. fst (mdb_clear M ix d) = Inr n) \<and> C (snd (mdb_clear M ix d)) = Map.empty"
  unfolding memdb_models_def by blast

lemma memdb_allD:
  "memdb_models M C \<Longrightarrow> indexed_by ix (ran (C d)) \<Longrightarrow>
     \<exists>rows. mdb_all M ix d = Inr (map snd rows) \<and> set rows = ran (C d) \<and>
       sorted_wrt (<) (map (row_key ix) rows)"
  unfolding memdb_models_def by blast

lemma tbl_get_eq: "memdb_models M C \<Longrightarrow> tbl_get M k t = map_option snd (C (tb_db t) k)"
  by (simp add: tbl_get_def memdb_firstD)

lemma tbl_wf_row:
  assumes "tbl_wf C ixs t" "C (tb_db t) k = Some r"
  obtains x a where "r = (ixs x, a)" "a < tb_next t" "tb_heap t a = Some x"
    "map_of (ixs x) ''id'' = Some k" "keys_present (ixs x)"
proof -
  obtain ks a where r: "r = (ks, a)" by (cases r)
  with assms have "a < tb_next t \<and> map_of ks ''id'' = Some k \<and> keys_present ks \<and>
      (\<exists>x. tb_heap t a = Some x \<and> ixs x = ks)"
    unfolding tbl_wf_def by blast
  with r that show ?thesis by blast
qed

lemma tbl_view_Some:
  assumes "memdb_models M C" "tbl_wf C ixs t" "tbl_view M t k = Some x"
  obtains a where "C (tb_db t) k = Some (ixs x, a)" "a < tb_next t" "tb_heap t a = Some x"
    "map_of (ixs x) ''id'' = Some k" "keys_present (ixs x)"
proof -
  obtain r where r: "C (tb_db t) k = Some r" "tb_heap t (snd r) = Some x"
    using assms(1,3) by (auto simp: tbl_view_def tbl_get_eq split: Option.bind_splits)
  obtain y a where "r = (ixs y, a)" "a < tb_next t" "tb_heap t a = Some y"
      "map_of (ixs y) ''id'' = Some k" "keys_present (ixs y)"
    using tbl_wf_row [OF assms(2) r(1)] by metis
  with r that show ?thesis by auto
qed

lemma tbl_view_None:
  assumes "memdb_models M C" "tbl_wf C ixs t"
  shows "tbl_view M t k = None \<longleftrightarrow> C (tb_db t) k = None"
    and "tbl_get M k t = None \<longleftrightarrow> tbl_view M t k = None"
proof -
  show 1: "tbl_view M t k = None \<longleftrightarrow> C (tb_db t) k = None"
  proof
    assume v: "tbl_view M t k = None"
    show "C (tb_db t) k = None"
    proof (rule ccontr)
      assume "C (tb_db t) k \<noteq> None"
      then obtain r where r: "C (tb_db t) k = Some r" by blast
      obtain y a where "r = (ixs y, a)" "tb_heap t a = Some y"
        using tbl_wf_row [OF assms(2) r] by metis
      then show False using v r assms(1) by (simp add: tbl_view_def tbl_get_eq)
    qed
  qed (simp add: tbl_view_def tbl_get_eq [OF assms(1)])
  show "tbl_get M k t = None \<longleftrightarrow> tbl_view M t k = None"
    using 1 by (simp add: tbl_get_eq [OF assms(1)])
qed

lemma tbl_row:
  assumes M: "memdb_models M C" and wf: "tbl_wf C ixs t" and g: "tbl_get M k t = Some a"
    and v: "tbl_view M t k = Some x"
  shows "C (tb_db t) k = Some (ixs x, a)" "tb_heap t a = Some x" "keys_present (ixs x)"
    "map_of (ixs x) ''id'' = Some k"
proof -
  obtain b where b: "C (tb_db t) k = Some (ixs x, b)" "tb_heap t b = Some x"
      "map_of (ixs x) ''id'' = Some k" "keys_present (ixs x)"
    by (rule tbl_view_Some [OF M wf v])
  then have "b = a" using g by (simp add: tbl_get_eq [OF M])
  with b show "C (tb_db t) k = Some (ixs x, a)" "tb_heap t a = Some x" "keys_present (ixs x)"
    "map_of (ixs x) ''id'' = Some k" by simp_all
qed

section \<open>Tables keyed by a field\<close>

text \<open>
  The contract of a storage's schema: the ''id'' index is a field of the object. Everything a
  storage operation does to the view of the table follows from it.
\<close>

locale keyed_table =
  fixes ixs :: "'a \<Rightarrow> keys" and idk :: "'a \<Rightarrow> key"
  assumes id_key: "map_of (ixs x) ''id'' = Some (idk x)"
begin

lemma view_key:
  assumes "memdb_models M C" "tbl_wf C ixs t" "tbl_view M t k = Some x"
  shows "idk x = k"
  by (rule tbl_view_Some [OF assms]) (simp add: id_key)

lemma view_present:
  assumes "memdb_models M C" "tbl_wf C ixs t" "tbl_view M t k = Some x"
  shows "keys_present (ixs x)"
  by (rule tbl_view_Some [OF assms])

lemma view_new: "memdb_models M C \<Longrightarrow> tbl_view M (tbl_new M) = Map.empty"
  by (simp add: tbl_view_def tbl_get_eq tbl_new_def memdb_newD fun_eq_iff)

lemma wf_new: "memdb_models M C \<Longrightarrow> tbl_wf C ixs (tbl_new M)"
  by (simp add: tbl_wf_def tbl_new_def memdb_newD)

lemma add_ok:
  assumes M: "memdb_models M C" and wf: "tbl_wf C ixs t" and p: "keys_present (ixs x)"
  shows "fst (tbl_add M ixs x t) = None"
    and "tbl_view M (snd (tbl_add M ixs x t)) = (tbl_view M t)(idk x \<mapsto> x)"
    and "tbl_wf C ixs (snd (tbl_add M ixs x t))"
proof -
  note ins = memdb_insertD [OF M id_key p, of "tb_next t" "tb_db t"]
  show "fst (tbl_add M ixs x t) = None" using ins by (simp add: tbl_add_def Let_def)
  have below: "a < tb_next t" if "C (tb_db t) k = Some (ks, a)" for k ks a
    using that wf unfolding tbl_wf_def by blast
  show "tbl_view M (snd (tbl_add M ixs x t)) = (tbl_view M t)(idk x \<mapsto> x)"
  proof
    fix k
    show "tbl_view M (snd (tbl_add M ixs x t)) k = ((tbl_view M t)(idk x \<mapsto> x)) k"
      using ins below [of k]
      by (cases "C (tb_db t) k") (auto simp: tbl_view_def tbl_get_eq [OF M] tbl_add_def Let_def)
  qed
  show "tbl_wf C ixs (snd (tbl_add M ixs x t))"
    unfolding tbl_wf_def
  proof (intro allI impI)
    fix k ks a
    assume row: "C (tb_db (snd (tbl_add M ixs x t))) k = Some (ks, a)"
    show "a < tb_next (snd (tbl_add M ixs x t)) \<and> map_of ks ''id'' = Some k \<and> keys_present ks \<and>
        (\<exists>y. tb_heap (snd (tbl_add M ixs x t)) a = Some y \<and> ixs y = ks)"
    proof (cases "k = idk x")
      case True
      then show ?thesis using row ins id_key p by (auto simp: tbl_add_def Let_def)
    next
      case False
      then have "C (tb_db t) k = Some (ks, a)" using row ins by (simp add: tbl_add_def Let_def)
      then have "a < tb_next t \<and> map_of ks ''id'' = Some k \<and> keys_present ks \<and>
          (\<exists>y. tb_heap t a = Some y \<and> ixs y = ks)"
        using wf unfolding tbl_wf_def by blast
      then show ?thesis by (auto simp: tbl_add_def Let_def)
    qed
  qed
qed

lemma view_heap:
  "tb_db t' = tb_db t \<Longrightarrow> memdb_models M C \<Longrightarrow>
     tbl_view M t' k = (case C (tb_db t) k of None \<Rightarrow> None | Some r \<Rightarrow> tb_heap t' (snd r))"
  by (simp add: tbl_view_def tbl_get_eq split: option.split)

lemma add_missing:
  assumes M: "memdb_models M C" and wf: "tbl_wf C ixs t" and p: "\<not> keys_present (ixs x)"
  shows "fst (tbl_add M ixs x t) \<noteq> None"
    and "tbl_view M (snd (tbl_add M ixs x t)) = tbl_view M t"
    and "tbl_wf C ixs (snd (tbl_add M ixs x t))"
proof -
  note ins = memdb_insert_missingD [OF M p, of "tb_next t" "tb_db t"]
  show "fst (tbl_add M ixs x t) \<noteq> None" using ins by (simp add: tbl_add_def Let_def)
  have below: "a < tb_next t" if "C (tb_db t) k = Some (ks, a)" for k ks a
    using that wf unfolding tbl_wf_def by blast
  show "tbl_view M (snd (tbl_add M ixs x t)) = tbl_view M t"
  proof
    fix k
    show "tbl_view M (snd (tbl_add M ixs x t)) k = tbl_view M t k"
      using ins below [of k]
      by (cases "C (tb_db t) k") (auto simp: tbl_view_def tbl_get_eq [OF M] tbl_add_def Let_def)
  qed
  show "tbl_wf C ixs (snd (tbl_add M ixs x t))"
    unfolding tbl_wf_def
  proof (intro allI impI)
    fix k ks a
    assume row: "C (tb_db (snd (tbl_add M ixs x t))) k = Some (ks, a)"
    then have "C (tb_db t) k = Some (ks, a)" using ins by (simp add: tbl_add_def Let_def)
    then have "a < tb_next t \<and> map_of ks ''id'' = Some k \<and> keys_present ks \<and>
        (\<exists>y. tb_heap t a = Some y \<and> ixs y = ks)"
      using wf unfolding tbl_wf_def by blast
    then show "a < tb_next (snd (tbl_add M ixs x t)) \<and> map_of ks ''id'' = Some k \<and> keys_present ks \<and>
        (\<exists>y. tb_heap (snd (tbl_add M ixs x t)) a = Some y \<and> ixs y = ks)"
      by (auto simp: tbl_add_def Let_def)
  qed
qed

lemma modify_none:
  assumes "memdb_models M C" "tbl_wf C ixs t" "tbl_view M t k = None"
  shows "tbl_modify M w ixs k f t = (None, t)"
  using tbl_view_None(2) [OF assms(1,2), of k] assms(3) by (auto simp: tbl_modify_def)

lemma poke_ok:
  assumes M: "memdb_models M C" and wf: "tbl_wf C ixs t" and g: "tbl_get M k t = Some a"
    and v: "tbl_view M t k = Some x" and same: "ixs (f x) = ixs x"
  shows "tbl_view M (tbl_poke a f t) = (tbl_view M t)(k \<mapsto> f x)"
    and "tbl_wf C ixs (tbl_poke a f t)"
    and "tb_heap (tbl_poke a f t) a = Some (f x)"
proof -
  note row = tbl_row [OF M wf g v]
  show h: "tb_heap (tbl_poke a f t) a = Some (f x)" using row(2) by (simp add: tbl_poke_def)
  have other: "b \<noteq> a" if "C (tb_db t) l = Some (ks, b)" "l \<noteq> k" for l ks b
  proof
    assume "b = a"
    moreover have "map_of ks ''id'' = Some l" "\<exists>y. tb_heap t b = Some y \<and> ixs y = ks"
      using that(1) wf unfolding tbl_wf_def by blast+
    moreover have "map_of (ixs x) ''id'' = Some k"
      using row(1) wf unfolding tbl_wf_def by blast
    ultimately show False using row(2) that(2) by auto
  qed
  show "tbl_view M (tbl_poke a f t) = (tbl_view M t)(k \<mapsto> f x)"
  proof
    fix l
    show "tbl_view M (tbl_poke a f t) l = ((tbl_view M t)(k \<mapsto> f x)) l"
    proof (cases "l = k")
      case True
      then show ?thesis using row by (simp add: tbl_view_def tbl_get_eq [OF M] tbl_poke_def)
    next
      case False
      then show ?thesis using other [of l]
        by (cases "C (tb_db t) l") (auto simp: tbl_view_def tbl_get_eq [OF M] tbl_poke_def)
    qed
  qed
  show "tbl_wf C ixs (tbl_poke a f t)"
    unfolding tbl_wf_def
  proof (intro allI impI)
    fix l ks b
    assume "C (tb_db (tbl_poke a f t)) l = Some (ks, b)"
    then have "C (tb_db t) l = Some (ks, b)" by (simp add: tbl_poke_def)
    then have "b < tb_next t \<and> map_of ks ''id'' = Some l \<and> keys_present ks \<and>
        (\<exists>y. tb_heap t b = Some y \<and> ixs y = ks)"
      using wf unfolding tbl_wf_def by blast
    then show "b < tb_next (tbl_poke a f t) \<and> map_of ks ''id'' = Some l \<and> keys_present ks \<and>
        (\<exists>y. tb_heap (tbl_poke a f t) b = Some y \<and> ixs y = ks)"
      using row(2) same by (auto simp: tbl_poke_def)
  qed
qed

lemma reinsert_ok:
  assumes M: "memdb_models M C" and wf: "tbl_wf C ixs t" and g: "tbl_get M k t = Some a"
    and v: "tbl_view M t k = Some x"
  shows "tbl_view M (snd (tbl_reinsert M w ixs a t)) = tbl_view M t"
    and "tbl_wf C ixs (snd (tbl_reinsert M w ixs a t))"
    and "fst (tbl_reinsert M w ixs a t) = None \<longleftrightarrow> w"
proof -
  note row = tbl_row [OF M wf g v]
  have same: "C (tb_db (snd (tbl_reinsert M w ixs a t))) = C (tb_db t)
      \<and> (fst (tbl_reinsert M w ixs a t) = None \<longleftrightarrow> w)"
  proof (cases w)
    case True
    then show ?thesis using memdb_insertD [OF M row(4,3)] row
      by (auto simp: tbl_reinsert_def Let_def fun_eq_iff)
  next
    case False
    then show ?thesis using memdb_insert_roD [OF M] row by (simp add: tbl_reinsert_def Let_def)
  qed
  then show "fst (tbl_reinsert M w ixs a t) = None \<longleftrightarrow> w" by simp
  have frame: "tb_heap (snd (tbl_reinsert M w ixs a t)) = tb_heap t"
      "tb_next (snd (tbl_reinsert M w ixs a t)) = tb_next t"
    using row by (simp_all add: tbl_reinsert_def Let_def)
  show "tbl_view M (snd (tbl_reinsert M w ixs a t)) = tbl_view M t"
    by (rule ext) (simp only: tbl_view_def tbl_get_eq [OF M] same frame)
  show "tbl_wf C ixs (snd (tbl_reinsert M w ixs a t))"
    using wf same frame by (simp add: tbl_wf_def)
qed

lemma modify_ok:
  assumes M: "memdb_models M C" and wf: "tbl_wf C ixs t"
    and v: "tbl_view M t k = Some x" and same: "ixs (f x) = ixs x"
  shows "tbl_view M (snd (tbl_modify M w ixs k f t)) = (tbl_view M t)(k \<mapsto> f x)"
    and "tbl_wf C ixs (snd (tbl_modify M w ixs k f t))"
    and "\<exists>r. fst (tbl_modify M w ixs k f t) = Some r \<and> (r = None \<longleftrightarrow> w)"
proof -
  obtain a where g: "tbl_get M k t = Some a"
    using tbl_view_None(2) [OF M wf, of k] v by (cases "tbl_get M k t") auto
  note p = poke_ok [of M C t k a x f, OF M wf g v same]
  have g': "tbl_get M k (tbl_poke a f t) = Some a"
    using g by (simp add: tbl_get_eq [OF M] tbl_poke_def)
  have v': "tbl_view M (tbl_poke a f t) k = Some (f x)" using p(1) by simp
  note r = reinsert_ok [OF M p(2) g' v', of w]
  show "tbl_view M (snd (tbl_modify M w ixs k f t)) = (tbl_view M t)(k \<mapsto> f x)"
    using r(1) p(1) g by (simp add: tbl_modify_def Let_def)
  show "tbl_wf C ixs (snd (tbl_modify M w ixs k f t))"
    using r(2) g by (simp add: tbl_modify_def Let_def)
  show "\<exists>r. fst (tbl_modify M w ixs k f t) = Some r \<and> (r = None \<longleftrightarrow> w)"
    using r(3) g by (simp add: tbl_modify_def Let_def)
qed

lemma delete_ok:
  assumes M: "memdb_models M C" and wf: "tbl_wf C ixs t"
  shows "tbl_view M (snd (tbl_delete M k t)) = (tbl_view M t)(k := None)"
    and "tbl_wf C ixs (snd (tbl_delete M k t))"
    and "fst (tbl_delete M k t) = Inr (if tbl_view M t k = None then 0 else 1)"
proof -
  note d = memdb_deleteD [OF M, of k "tb_db t"]
  show "tbl_view M (snd (tbl_delete M k t)) = (tbl_view M t)(k := None)"
    using d by (auto simp: tbl_view_def tbl_get_eq [OF M] tbl_delete_def Let_def fun_eq_iff)
  show "tbl_wf C ixs (snd (tbl_delete M k t))"
    using d wf by (auto simp: tbl_wf_def tbl_delete_def Let_def split: if_splits)
  show "fst (tbl_delete M k t) = Inr (if tbl_view M t k = None then 0 else 1)"
    using d tbl_view_None(1) [OF M wf] by (simp add: tbl_delete_def Let_def)
qed

lemma clear_ok:
  assumes M: "memdb_models M C"
  shows "tbl_view M (snd (tbl_clear M ix t)) = Map.empty"
    and "tbl_wf C ixs (snd (tbl_clear M ix t))"
    and "fst (tbl_clear M ix t) = None"
  using memdb_clearD [OF M, of ix "tb_db t"]
  by (auto simp: tbl_view_def tbl_get_eq [OF M] tbl_clear_def Let_def fun_eq_iff tbl_wf_def)

lemma row_object:
  assumes M: "memdb_models M C" and wf: "tbl_wf C ixs t"
    and ix: "\<forall>x \<in> ran (tbl_view M t). map_of (ixs x) ix = Some (f x)" and r: "r \<in> ran (C (tb_db t))"
  obtains x where "x \<in> ran (tbl_view M t)" "tb_heap t (snd r) = Some x" "fst r = ixs x" "row_key ix r = f x"
    "C (tb_db t) (idk x) = Some r"
proof -
  obtain k where k: "C (tb_db t) k = Some r" using r by (auto simp: ran_def)
  obtain x a where x: "r = (ixs x, a)" "tb_heap t a = Some x" "map_of (ixs x) ''id'' = Some k"
    using tbl_wf_row [OF wf k] by metis
  then have "tbl_view M t k = Some x" using k by (simp add: tbl_view_def tbl_get_eq [OF M])
  then have "x \<in> ran (tbl_view M t)" by (rule ranI)
  then show ?thesis using that x k ix id_key [of x] by (auto simp: row_key_def)
qed

lemma rows_indexed:
  assumes M: "memdb_models M C" and wf: "tbl_wf C ixs t"
    and ix: "\<forall>x \<in> ran (tbl_view M t). map_of (ixs x) ix = Some (f x)"
    and inj: "inj_on f (ran (tbl_view M t))"
  shows "indexed_by ix (ran (C (tb_db t)))"
proof -
  note row = row_object [OF M wf ix]
  have "map_of (fst r) ix \<noteq> None" if r: "r \<in> ran (C (tb_db t))" for r
  proof -
    obtain x where "x \<in> ran (tbl_view M t)" "fst r = ixs x" by (rule row [OF r])
    then show ?thesis using ix by simp
  qed
  moreover have "r = s" if r: "r \<in> ran (C (tb_db t))" and s: "s \<in> ran (C (tb_db t))" and eq: "row_key ix r = row_key ix s" for r s
  proof -
    obtain x where x: "x \<in> ran (tbl_view M t)" "row_key ix r = f x" "C (tb_db t) (idk x) = Some r" by (rule row [OF r])
    obtain y where y: "y \<in> ran (tbl_view M t)" "row_key ix s = f y" "C (tb_db t) (idk y) = Some s" by (rule row [OF s])
    have "x = y" using inj_onD [OF inj] x y eq by simp
    then show "r = s" using x y by simp
  qed
  ultimately show ?thesis by (auto simp: indexed_by_def inj_on_def)
qed

lemma row_objects:
  assumes M: "memdb_models M C" and wf: "tbl_wf C ixs t"
  shows "(\<lambda>r. the (tb_heap t (snd r))) ` ran (C (tb_db t)) = ran (tbl_view M t)"
proof (intro equalityI subsetI)
  fix x assume "x \<in> (\<lambda>r. the (tb_heap t (snd r))) ` ran (C (tb_db t))"
  then obtain k r where k: "C (tb_db t) k = Some r" and x: "x = the (tb_heap t (snd r))" by (auto simp: ran_def)
  obtain y a where "r = (ixs y, a)" "tb_heap t a = Some y" using tbl_wf_row [OF wf k] by metis
  then show "x \<in> ran (tbl_view M t)" using k x by (auto simp: tbl_view_def tbl_get_eq [OF M] intro: ranI [of _ k])
next
  fix x assume "x \<in> ran (tbl_view M t)"
  then obtain k where k: "tbl_view M t k = Some x" by (auto simp: ran_def)
  obtain a where "C (tb_db t) k = Some (ixs x, a)" "tb_heap t a = Some x"
    by (rule tbl_view_Some [OF M wf k])
  then show "x \<in> (\<lambda>r. the (tb_heap t (snd r))) ` ran (C (tb_db t))"
    by (intro image_eqI [of _ _ "(ixs x, a)"]) (auto intro: ranI)
qed

lemma all_ok:
  assumes M: "memdb_models M C" and wf: "tbl_wf C ixs t"
    and ix: "\<forall>x \<in> ran (tbl_view M t). map_of (ixs x) ix = Some (f x)"
    and inj: "inj_on f (ran (tbl_view M t))"
  shows "set (tbl_all M ix t) = ran (tbl_view M t)"
    and "sorted_wrt (<) (map f (tbl_all M ix t))"
proof -
  obtain rows where rows: "mdb_all M ix (tb_db t) = Inr (map snd rows)"
      "set rows = ran (C (tb_db t))" "sorted_wrt (<) (map (row_key ix) rows)"
    using memdb_allD [OF M rows_indexed [OF M wf ix inj]] by blast
  have obj: "\<exists>x. tb_heap t (snd r) = Some x \<and> row_key ix r = f x" if "r \<in> set rows" for r
    using that rows(2) row_object [OF M wf ix, of r] by metis
  have "List.map_filter (tb_heap t) (map snd rs) = map (\<lambda>r. the (tb_heap t (snd r))) rs" if "set rs \<subseteq> set rows" for rs
    using that
  proof (induction rs)
    case (Cons r rs)
    then obtain x where "tb_heap t (snd r) = Some x" using obj [of r] by auto
    with Cons show ?case by (simp add: List.map_filter_simps)
  qed (simp add: List.map_filter_simps)
  then have all: "tbl_all M ix t = map (\<lambda>r. the (tb_heap t (snd r))) rows"
    using rows(1) by (simp add: tbl_all_def)
  show "set (tbl_all M ix t) = ran (tbl_view M t)" using row_objects [OF M wf] rows(2) by (simp add: all)
  have "f (the (tb_heap t (snd r))) = row_key ix r" if "r \<in> set rows" for r using obj [OF that] by auto
  then have "map f (tbl_all M ix t) = map (row_key ix) rows" by (simp add: all)
  then show "sorted_wrt (<) (map f (tbl_all M ix t))" using rows(3) by simp
qed

lemma inj_idk:
  assumes "memdb_models M C" "tbl_wf C ixs t"
  shows "inj_on idk (ran (tbl_view M t))"
proof (rule inj_onI)
  fix x y assume "x \<in> ran (tbl_view M t)" "y \<in> ran (tbl_view M t)" and eq: "idk x = idk y"
  then obtain k l where "tbl_view M t k = Some x" "tbl_view M t l = Some y" by (auto simp: ran_def)
  then show "x = y" using view_key [OF assms, of k x] view_key [OF assms, of l y] eq by simp
qed

lemma all_id:
  assumes "memdb_models M C" "tbl_wf C ixs t"
  shows "set (tbl_all M ''id'' t) = ran (tbl_view M t)"
    and "sorted_wrt (<) (map idk (tbl_all M ''id'' t))"
  using all_ok [OF assms _ inj_idk [OF assms]] id_key by simp_all

end

section \<open>The association list is such a database\<close>

lemma ran_map_of_clearjunk: "ran (map_of d) = snd ` set (AList.clearjunk d)"
proof -
  have "ran (map_of d) = ran (map_of (AList.clearjunk d))" by (simp add: map_of_clearjunk)
  also have "\<dots> = snd ` set (AList.clearjunk d)" by (rule ran_distinct) (rule distinct_clearjunk)
  finally show ?thesis .
qed

lemma alist_all_ok:
  assumes "indexed_by ix (ran (map_of d))"
  shows "set (alist_all ix d) = ran (map_of d)" "sorted_wrt (<) (map (row_key ix) (alist_all ix d))"
proof -
  have inj: "inj_on (row_key ix) (ran (map_of d))" using assms by (simp add: indexed_by_def)
  show s: "set (alist_all ix d) = ran (map_of d)"
    by (simp add: alist_all_def ran_map_of_clearjunk)
  have "distinct (alist_all ix d)" by (simp add: alist_all_def)
  then have "distinct (map (row_key ix) (alist_all ix d))" using inj s by (simp add: distinct_map)
  moreover have "sorted (map (row_key ix) (alist_all ix d))" by (simp add: alist_all_def)
  ultimately show "sorted_wrt (<) (map (row_key ix) (alist_all ix d))"
    by (simp add: strict_sorted_iff)
qed

lemma alist_memdb_simps [simp]:
  "mdb_new alist_memdb = []" "mdb_insert alist_memdb = alist_insert"
  "mdb_first alist_memdb ix k d = Inr (map_option snd (map_of d k))"
  "mdb_delete alist_memdb ix k d = (Inr (if map_of d k = None then 0 else 1), AList.delete k d)"
  "mdb_clear alist_memdb ix d = (Inr (length d), [])"
  "mdb_all alist_memdb ix d = Inr (map snd (alist_all ix d))"
  by (simp_all add: alist_memdb_def)

lemma alist_memdb_models: "memdb_models alist_memdb map_of"
proof -
  have ins: "fst (alist_insert True ks a d) = None \<and>
      map_of (snd (alist_insert True ks a d)) = (map_of d)(k \<mapsto> (ks, a))"
    if "map_of ks ''id'' = Some k" "keys_present ks" for ks a k d
    using that by (simp add: alist_insert_def delete_conv' fun_eq_iff)
  have missing: "fst (alist_insert True ks a d) \<noteq> None \<and> snd (alist_insert True ks a d) = d"
    if "\<not> keys_present ks" for ks a d
    using that by (simp add: alist_insert_def)
  have ro: "fst (alist_insert False ks a d) \<noteq> None \<and> snd (alist_insert False ks a d) = d" for ks a d
    by (simp add: alist_insert_def)
  have all: "\<exists>rows. map snd (alist_all ix d) = map snd rows \<and> set rows = ran (map_of d) \<and>
      sorted_wrt (<) (map (row_key ix) rows)" if "indexed_by ix (ran (map_of d))" for ix d
    using alist_all_ok [OF that] by blast
  show ?thesis
    unfolding memdb_models_def
    by (intro conjI allI impI) (use ins missing ro all in \<open>simp_all add: delete_conv'\<close>)
qed

end
