(* ===== verification/Imdb.thy ===== *)
theory Imdb
  imports Memdb
begin

text \<open>
  \<^verbatim>\<open>internal/repository/imdb\<close>: the five storages and the struct that embeds them. Every operation
  takes the database \<open>M\<close> and the table of its storage. A getter returns the object its pointer
  leads to (\<open>None\<close> for \<^verbatim>\<open>nil\<close>); the operations that change an object through the stored pointer use
  \<open>tbl_modify\<close>, with the kind of transaction the code opens.
\<close>

section \<open>bgp_peer.go\<close>

definition peer_keys :: "BGPPeer \<Rightarrow> keys" where
  "peer_keys p = [(''id'', KStr (bp_PeerAddress p))]"

definition NewBGPPeerStorage :: "'d memdb \<Rightarrow> ('d, BGPPeer) table" where
  "NewBGPPeerStorage M = tbl_new M"

definition AddBGPPeer :: "'d memdb \<Rightarrow> BGPPeer \<Rightarrow> ('d, BGPPeer) table \<Rightarrow> err option \<times> ('d, BGPPeer) table" where
  "AddBGPPeer M p t = tbl_add M peer_keys p t"

definition DelBGPPeers :: "'d memdb \<Rightarrow> ('d, BGPPeer) table \<Rightarrow> err option \<times> ('d, BGPPeer) table" where
  "DelBGPPeers M t = tbl_clear M ''id'' t"

definition GetBGPPeer :: "'d memdb \<Rightarrow> ('d, BGPPeer) table \<Rightarrow> string \<Rightarrow> BGPPeer option" where
  "GetBGPPeer M t peerIP = tbl_view M t (KStr peerIP)"

definition GetBGPPeers :: "'d memdb \<Rightarrow> ('d, BGPPeer) table \<Rightarrow> BGPPeer list" where
  "GetBGPPeers M t = tbl_all M ''id'' t"

definition IsConfiguredBGPPeer :: "'d memdb \<Rightarrow> ('d, BGPPeer) table \<Rightarrow> string \<Rightarrow> bool" where
  "IsConfiguredBGPPeer M t peerIP \<longleftrightarrow> tbl_view M t (KStr peerIP) \<noteq> None"

definition CreateBGPPeerToTypeMap :: "'d memdb \<Rightarrow> ('d, BGPPeer) table \<Rightarrow> err + (string \<rightharpoonup> int)" where
  "CreateBGPPeerToTypeMap M t =
     (let peers = tbl_all M ''id'' t
      in if peers = [] then Inl ErrNoBGPPeersFoundInStorage
         else Inr (foldl (\<lambda>result p. result(bp_PeerAddress p \<mapsto> bp_PeerType p)) Map.empty peers))"

definition IsTF :: "'d memdb \<Rightarrow> ('d, BGPPeer) table \<Rightarrow> string \<Rightarrow> bool" where
  "IsTF M t peerIP = (case tbl_view M t (KStr peerIP) of None \<Rightarrow> False | Some p \<Rightarrow> bp_PeerType p = TF)"

definition IsPHYNET :: "'d memdb \<Rightarrow> ('d, BGPPeer) table \<Rightarrow> string \<Rightarrow> bool" where
  "IsPHYNET M t peerIP =
     (case tbl_view M t (KStr peerIP) of None \<Rightarrow> False | Some p \<Rightarrow> bp_PeerType p = PHYNET)"

definition UpdateBGPPeerState :: "'d memdb \<Rightarrow> string \<Rightarrow> SessionState \<Rightarrow> SessionState
    \<Rightarrow> ('d, BGPPeer) table \<Rightarrow> err option \<times> ('d, BGPPeer) table" where
  "UpdateBGPPeerState M peerIP prevState currentState t =
     (case tbl_modify M True peer_keys (KStr peerIP)
            (\<lambda>p. p\<lparr>bp_PrevState := prevState, bp_State := currentState\<rparr>) t of
        (None, t') \<Rightarrow> (Some ErrNoBGPPeerFoundInStorage, t')
      | (Some e, t') \<Rightarrow> (e, t'))"

text \<open>\<^verbatim>\<open>peer.BFDPeering.BFDPeerEstablished = b\<close> panics for a peer without BFD settings.\<close>

definition UpdateBFDPeerState :: "'d memdb \<Rightarrow> string \<Rightarrow> bool \<Rightarrow> ('d, BGPPeer) table
    \<Rightarrow> ('d, BGPPeer) table go" where
  "UpdateBFDPeerState M peerIP isBFDEstablished t =
     (case tbl_view M t (KStr peerIP) of
        None \<Rightarrow> Some t
      | Some p \<Rightarrow> (case bp_BFDPeering p of
          None \<Rightarrow> panic
        | Some b \<Rightarrow> Some (snd (tbl_modify M True peer_keys (KStr peerIP)
            (\<lambda>p. p\<lparr>bp_BFDPeering := Some (b\<lparr>bfd_PeerEstablished := isBFDEstablished\<rparr>)\<rparr>) t))))"

section \<open>bgp_vrf.go\<close>

definition bvrf_keys :: "BGPVRFTable \<Rightarrow> keys" where
  "bvrf_keys v = [(''id'', KUint (bv_ID v)), (''name'', KStr (bv_Name v))]"

definition NewBGPVRFStorage :: "'d memdb \<Rightarrow> ('d, BGPVRFTable) table" where
  "NewBGPVRFStorage M = tbl_new M"

definition BGP_AddVRF :: "'d memdb \<Rightarrow> BGPVRFTable \<Rightarrow> ('d, BGPVRFTable) table
    \<Rightarrow> err option \<times> ('d, BGPVRFTable) table" where
  "BGP_AddVRF M v t = tbl_add M bvrf_keys v t"

definition BGP_DelVRFs :: "'d memdb \<Rightarrow> ('d, BGPVRFTable) table \<Rightarrow> err option \<times> ('d, BGPVRFTable) table" where
  "BGP_DelVRFs M t = tbl_clear M ''name'' t"

definition BGP_GetVRF :: "'d memdb \<Rightarrow> ('d, BGPVRFTable) table \<Rightarrow> u32 \<Rightarrow> BGPVRFTable option" where
  "BGP_GetVRF M t vrfID = tbl_view M t (KUint vrfID)"

definition BGP_GetVRFs :: "'d memdb \<Rightarrow> ('d, BGPVRFTable) table \<Rightarrow> BGPVRFTable list" where
  "BGP_GetVRFs M t = tbl_all M ''name'' t"

section \<open>vpp_vrf.go\<close>

definition vvrf_keys :: "VPPVRFTable \<Rightarrow> keys" where
  "vvrf_keys v = [(''id'', KUint (vv_ID v)), (''name'', KStr (vv_Name v))]"

definition NewVPPVRFStorage :: "'d memdb \<Rightarrow> ('d, VPPVRFTable) table" where
  "NewVPPVRFStorage M = tbl_new M"

definition VPP_AddVRF :: "'d memdb \<Rightarrow> VPPVRFTable \<Rightarrow> ('d, VPPVRFTable) table
    \<Rightarrow> err option \<times> ('d, VPPVRFTable) table" where
  "VPP_AddVRF M v t = tbl_add M vvrf_keys v t"

definition VPP_DelVRFs :: "'d memdb \<Rightarrow> ('d, VPPVRFTable) table \<Rightarrow> err option \<times> ('d, VPPVRFTable) table" where
  "VPP_DelVRFs M t = tbl_clear M ''name'' t"

definition VPP_GetVRF :: "'d memdb \<Rightarrow> ('d, VPPVRFTable) table \<Rightarrow> u32 \<Rightarrow> VPPVRFTable option" where
  "VPP_GetVRF M t vrfID = tbl_view M t (KUint vrfID)"

definition VPP_GetVRFs :: "'d memdb \<Rightarrow> ('d, VPPVRFTable) table \<Rightarrow> VPPVRFTable list" where
  "VPP_GetVRFs M t = tbl_all M ''name'' t"

text \<open>
  The two counter operations open a read-only transaction: their \<^verbatim>\<open>Insert\<close> fails, its error is
  dropped, and the counter still changes because the stored object is changed through its pointer.
\<close>

definition VRF_IncFIPServed :: "'d memdb \<Rightarrow> u32 \<Rightarrow> ('d, VPPVRFTable) table \<Rightarrow> ('d, VPPVRFTable) table" where
  "VRF_IncFIPServed M vrfID t =
     snd (tbl_modify M False vvrf_keys (KUint vrfID) (\<lambda>v. v\<lparr>vv_FIPServed := vv_FIPServed v + 1\<rparr>) t)"

definition VRF_DecFIPServed :: "'d memdb \<Rightarrow> u32 \<Rightarrow> ('d, VPPVRFTable) table \<Rightarrow> ('d, VPPVRFTable) table" where
  "VRF_DecFIPServed M vrfID t =
     (case tbl_view M t (KUint vrfID) of
        None \<Rightarrow> t
      | Some v \<Rightarrow>
          if vv_FIPServed v = 0 then t
          else snd (tbl_modify M False vvrf_keys (KUint vrfID)
                 (\<lambda>v. v\<lparr>vv_FIPServed := vv_FIPServed v - 1\<rparr>) t))"

definition VRF_GetFIPServed :: "'d memdb \<Rightarrow> ('d, VPPVRFTable) table \<Rightarrow> u32 \<Rightarrow> u32" where
  "VRF_GetFIPServed M t vrfID =
     (case tbl_view M t (KUint vrfID) of None \<Rightarrow> 0 | Some v \<Rightarrow> vv_FIPServed v)"

definition IsVRFExist :: "'d memdb \<Rightarrow> ('d, VPPVRFTable) table \<Rightarrow> u32 \<Rightarrow> bool" where
  "IsVRFExist M t vrfID \<longleftrightarrow> tbl_view M t (KUint vrfID) \<noteq> None"

definition CreateVRFIDToNextHopMap :: "'d memdb \<Rightarrow> ('d, VPPVRFTable) table \<Rightarrow> err + (u32 \<rightharpoonup> string)" where
  "CreateVRFIDToNextHopMap M t =
     (case mdb_all M ''name'' (tb_db t) of
        Inl e \<Rightarrow> Inl e
      | Inr as \<Rightarrow>
          (let vrfs = List.map_filter (tb_heap t) as
           in if vrfs = [] then Inl ErrNoVPPVRFsFoundInStorage
              else Inr (foldl (\<lambda>result v. result(vv_ID v \<mapsto> vv_NextHop v)) Map.empty vrfs)))"

section \<open>fip_route.go\<close>

definition fip_keys :: "VPPIPRoute \<Rightarrow> keys" where
  "fip_keys r = [(''id'', KStr (rt_Prefix r))]"

definition NewVPPFIPRouteStorage :: "'d memdb \<Rightarrow> ('d, VPPIPRoute) table" where
  "NewVPPFIPRouteStorage M = tbl_new M"

definition AddFIPRoute :: "'d memdb \<Rightarrow> VPPIPRoute \<Rightarrow> ('d, VPPIPRoute) table
    \<Rightarrow> err option \<times> ('d, VPPIPRoute) table" where
  "AddFIPRoute M r t = tbl_add M fip_keys r t"

definition DelFIPRoute :: "'d memdb \<Rightarrow> string \<Rightarrow> ('d, VPPIPRoute) table
    \<Rightarrow> err option \<times> ('d, VPPIPRoute) table" where
  "DelFIPRoute M fipPrefix t =
     (case tbl_delete M (KStr fipPrefix) t of
        (Inl e, t') \<Rightarrow> (Some e, t')
      | (Inr deleted, t') \<Rightarrow> ((if deleted = 0 then Some ErrNoVPPFIPFoundInStorage else None), t'))"

definition DelFIPRoutes :: "'d memdb \<Rightarrow> ('d, VPPIPRoute) table \<Rightarrow> err option \<times> ('d, VPPIPRoute) table" where
  "DelFIPRoutes M t = tbl_clear M ''id'' t"

definition GetFIPRoute :: "'d memdb \<Rightarrow> ('d, VPPIPRoute) table \<Rightarrow> string \<Rightarrow> VPPIPRoute option" where
  "GetFIPRoute M t fipPrefix = tbl_view M t (KStr fipPrefix)"

definition GetFIPRoutes :: "'d memdb \<Rightarrow> ('d, VPPIPRoute) table \<Rightarrow> VPPIPRoute list" where
  "GetFIPRoutes M t = tbl_all M ''id'' t"

definition IsFIPPrefixExist :: "'d memdb \<Rightarrow> ('d, VPPIPRoute) table \<Rightarrow> string \<Rightarrow> bool" where
  "IsFIPPrefixExist M t fipPrefix \<longleftrightarrow> tbl_view M t (KStr fipPrefix) \<noteq> None"

text \<open>
  The scan over the next hops reads the label slice at the index of a matching next hop only, and
  panics if that slice is shorter.
\<close>

fun nh_label_scan :: "string list \<Rightarrow> u32 list \<Rightarrow> string \<Rightarrow> u32 \<Rightarrow> bool go" where
  "nh_label_scan [] ls nextHop mplsLabel = Some False"
| "nh_label_scan (n # ns) ls nextHop mplsLabel =
     (if n = nextHop
      then (case ls of [] \<Rightarrow> panic
            | l # ls' \<Rightarrow> if l = mplsLabel then Some True else nh_label_scan ns ls' nextHop mplsLabel)
      else nh_label_scan ns (drop 1 ls) nextHop mplsLabel)"

definition IsFIPWithNHAndLabelExist ::
  "'d memdb \<Rightarrow> ('d, VPPIPRoute) table \<Rightarrow> string \<Rightarrow> string \<Rightarrow> u32 \<Rightarrow> bool go" where
  "IsFIPWithNHAndLabelExist M t fipPrefix nextHop mplsLabel =
     (case tbl_view M t (KStr fipPrefix) of
        None \<Rightarrow> Some False
      | Some r \<Rightarrow>
          if rt_FIPMPLSLabels r = [] then Some False
          else nh_label_scan (rt_NextHops r) (rt_FIPMPLSLabels r) nextHop mplsLabel)"

section \<open>udp_tunnel.go\<close>

definition tun_keys :: "VPPUDPTunnel \<Rightarrow> keys" where
  "tun_keys u = [(''id'', KStr (tn_DstIP u))]"

definition NewVPPUDPTunnelStorage :: "'d memdb \<Rightarrow> ('d, VPPUDPTunnel) table" where
  "NewVPPUDPTunnelStorage M = tbl_new M"

definition AddUDPTunnel :: "'d memdb \<Rightarrow> VPPUDPTunnel \<Rightarrow> ('d, VPPUDPTunnel) table
    \<Rightarrow> err option \<times> ('d, VPPUDPTunnel) table" where
  "AddUDPTunnel M u t = tbl_add M tun_keys u t"

definition DelUDPTunnel :: "'d memdb \<Rightarrow> string \<Rightarrow> ('d, VPPUDPTunnel) table
    \<Rightarrow> err option \<times> ('d, VPPUDPTunnel) table" where
  "DelUDPTunnel M dstIP t =
     (case tbl_delete M (KStr dstIP) t of
        (Inl e, t') \<Rightarrow> (Some e, t')
      | (Inr deleted, t') \<Rightarrow> ((if deleted = 0 then Some ErrNoVPPUDPTunnelFoundInStorage else None), t'))"

definition DelUDPTunnels :: "'d memdb \<Rightarrow> ('d, VPPUDPTunnel) table \<Rightarrow> err option \<times> ('d, VPPUDPTunnel) table" where
  "DelUDPTunnels M t = tbl_clear M ''id'' t"

definition GetUDPTunnel :: "'d memdb \<Rightarrow> ('d, VPPUDPTunnel) table \<Rightarrow> string \<Rightarrow> VPPUDPTunnel option" where
  "GetUDPTunnel M t dstIP = tbl_view M t (KStr dstIP)"

definition GetUDPTunnels :: "'d memdb \<Rightarrow> ('d, VPPUDPTunnel) table \<Rightarrow> VPPUDPTunnel list" where
  "GetUDPTunnels M t = tbl_all M ''id'' t"

definition Tunnel_IncFIPServed :: "'d memdb \<Rightarrow> string \<Rightarrow> ('d, VPPUDPTunnel) table
    \<Rightarrow> ('d, VPPUDPTunnel) table" where
  "Tunnel_IncFIPServed M dstIP t =
     snd (tbl_modify M True tun_keys (KStr dstIP) (\<lambda>u. u\<lparr>tn_FIPServed := tn_FIPServed u + 1\<rparr>) t)"

definition Tunnel_DecFIPServed :: "'d memdb \<Rightarrow> string \<Rightarrow> ('d, VPPUDPTunnel) table
    \<Rightarrow> ('d, VPPUDPTunnel) table" where
  "Tunnel_DecFIPServed M dstIP t =
     (case tbl_view M t (KStr dstIP) of
        None \<Rightarrow> t
      | Some u \<Rightarrow>
          if tn_FIPServed u = 0 then t
          else snd (tbl_modify M True tun_keys (KStr dstIP)
                 (\<lambda>u. u\<lparr>tn_FIPServed := tn_FIPServed u - 1\<rparr>) t))"

definition Tunnel_GetFIPServed :: "'d memdb \<Rightarrow> ('d, VPPUDPTunnel) table \<Rightarrow> string \<Rightarrow> u32" where
  "Tunnel_GetFIPServed M t dstIP =
     (case tbl_view M t (KStr dstIP) of None \<Rightarrow> 0 | Some u \<Rightarrow> tn_FIPServed u)"

definition IsUDPTunnelExist :: "'d memdb \<Rightarrow> ('d, VPPUDPTunnel) table \<Rightarrow> string \<Rightarrow> bool" where
  "IsUDPTunnelExist M t dstIP \<longleftrightarrow> tbl_view M t (KStr dstIP) \<noteq> None"

section \<open>imdb.go\<close>

record 'd storage =
  st_peers :: "('d, BGPPeer) table"
  st_bvrfs :: "('d, BGPVRFTable) table"
  st_vvrfs :: "('d, VPPVRFTable) table"
  st_fips :: "('d, VPPIPRoute) table"
  st_tuns :: "('d, VPPUDPTunnel) table"

definition NewStorage :: "'d memdb \<Rightarrow> 'd storage" where
  "NewStorage M = \<lparr>st_peers = NewBGPPeerStorage M, st_bvrfs = NewBGPVRFStorage M,
     st_vvrfs = NewVPPVRFStorage M, st_fips = NewVPPFIPRouteStorage M,
     st_tuns = NewVPPUDPTunnelStorage M\<rparr>"

section \<open>The tables as maps\<close>

interpretation peers: keyed_table peer_keys "\<lambda>p. KStr (bp_PeerAddress p)"
  by unfold_locales (simp add: peer_keys_def)

interpretation bvrfs: keyed_table bvrf_keys "\<lambda>v. KUint (bv_ID v)"
  by unfold_locales (simp add: bvrf_keys_def)

interpretation vvrfs: keyed_table vvrf_keys "\<lambda>v. KUint (vv_ID v)"
  by unfold_locales (simp add: vvrf_keys_def)

interpretation fips: keyed_table fip_keys "\<lambda>r. KStr (rt_Prefix r)"
  by unfold_locales (simp add: fip_keys_def)

interpretation tuns: keyed_table tun_keys "\<lambda>u. KStr (tn_DstIP u)"
  by unfold_locales (simp add: tun_keys_def)

text \<open>What a storage holds, by key. This is the abstract state of the services.\<close>

definition peer_view :: "'d memdb \<Rightarrow> ('d, BGPPeer) table \<Rightarrow> string \<rightharpoonup> BGPPeer" where
  "peer_view M t k = tbl_view M t (KStr k)"

definition bvrf_view :: "'d memdb \<Rightarrow> ('d, BGPVRFTable) table \<Rightarrow> u32 \<rightharpoonup> BGPVRFTable" where
  "bvrf_view M t k = tbl_view M t (KUint k)"

definition vvrf_view :: "'d memdb \<Rightarrow> ('d, VPPVRFTable) table \<Rightarrow> u32 \<rightharpoonup> VPPVRFTable" where
  "vvrf_view M t k = tbl_view M t (KUint k)"

definition fip_view :: "'d memdb \<Rightarrow> ('d, VPPIPRoute) table \<Rightarrow> string \<rightharpoonup> VPPIPRoute" where
  "fip_view M t k = tbl_view M t (KStr k)"

definition tun_view :: "'d memdb \<Rightarrow> ('d, VPPUDPTunnel) table \<Rightarrow> string \<rightharpoonup> VPPUDPTunnel" where
  "tun_view M t k = tbl_view M t (KStr k)"

lemmas view_defs = peer_view_def bvrf_view_def vvrf_view_def fip_view_def tun_view_def

text \<open>The well-formedness of a whole storage.\<close>

definition storage_wf :: "('d \<Rightarrow> key \<rightharpoonup> keys \<times> addr) \<Rightarrow> 'd storage \<Rightarrow> bool" where
  "storage_wf C s \<longleftrightarrow> tbl_wf C peer_keys (st_peers s) \<and> tbl_wf C bvrf_keys (st_bvrfs s) \<and>
     tbl_wf C vvrf_keys (st_vvrfs s) \<and> tbl_wf C fip_keys (st_fips s) \<and> tbl_wf C tun_keys (st_tuns s)"

lemma keys_present_simps [simp]:
  "keys_present (peer_keys p) \<longleftrightarrow> bp_PeerAddress p \<noteq> ''''"
  "keys_present (bvrf_keys b) \<longleftrightarrow> bv_Name b \<noteq> ''''"
  "keys_present (vvrf_keys v) \<longleftrightarrow> vv_Name v \<noteq> ''''"
  "keys_present (fip_keys r) \<longleftrightarrow> rt_Prefix r \<noteq> ''''"
  "keys_present (tun_keys u) \<longleftrightarrow> tn_DstIP u \<noteq> ''''"
  by (auto simp: keys_present_def peer_keys_def bvrf_keys_def vvrf_keys_def fip_keys_def tun_keys_def)

lemma view_key_simps:
  "memdb_models M C \<Longrightarrow> tbl_wf C fip_keys tf \<Longrightarrow> fip_view M tf p = Some r \<Longrightarrow> rt_Prefix r = p"
  "memdb_models M C \<Longrightarrow> tbl_wf C tun_keys tt \<Longrightarrow> tun_view M tt d = Some u \<Longrightarrow> tn_DstIP u = d"
  "memdb_models M C \<Longrightarrow> tbl_wf C vvrf_keys tv \<Longrightarrow> vvrf_view M tv i = Some v \<Longrightarrow> vv_ID v = i"
  "memdb_models M C \<Longrightarrow> tbl_wf C bvrf_keys tb \<Longrightarrow> bvrf_view M tb i = Some b \<Longrightarrow> bv_ID b = i"
  "memdb_models M C \<Longrightarrow> tbl_wf C peer_keys tp \<Longrightarrow> peer_view M tp a = Some q \<Longrightarrow> bp_PeerAddress q = a"
  using fips.view_key [of M C tf "KStr p" r] tuns.view_key [of M C tt "KStr d" u]
    vvrfs.view_key [of M C tv "KUint i" v] bvrfs.view_key [of M C tb "KUint i" b]
    peers.view_key [of M C tp "KStr a" q]
  by (simp_all add: view_defs)

lemma NewStorage_wf: "memdb_models M C \<Longrightarrow> storage_wf C (NewStorage M)"
  by (simp add: storage_wf_def NewStorage_def NewBGPPeerStorage_def NewBGPVRFStorage_def
      NewVPPVRFStorage_def NewVPPFIPRouteStorage_def NewVPPUDPTunnelStorage_def
      peers.wf_new bvrfs.wf_new vvrfs.wf_new fips.wf_new tuns.wf_new)

text \<open>Floating IP routes and tunnels.\<close>

lemma AddFIPRoute_ok:
  assumes "memdb_models M C" "tbl_wf C fip_keys t" "rt_Prefix r \<noteq> ''''"
  shows "fst (AddFIPRoute M r t) = None"
    and "fip_view M (snd (AddFIPRoute M r t)) = (fip_view M t)(rt_Prefix r \<mapsto> r)"
    and "tbl_wf C fip_keys (snd (AddFIPRoute M r t))"
  using fips.add_ok [OF assms(1,2), of r] assms(3)
  by (auto simp: AddFIPRoute_def fip_view_def fun_eq_iff)

lemma DelFIPRoute_ok:
  assumes "memdb_models M C" "tbl_wf C fip_keys t"
  shows "fst (DelFIPRoute M p t) = (if fip_view M t p = None then Some ErrNoVPPFIPFoundInStorage else None)"
    and "fip_view M (snd (DelFIPRoute M p t)) = (fip_view M t)(p := None)"
    and "tbl_wf C fip_keys (snd (DelFIPRoute M p t))"
proof -
  obtain e t' where d: "tbl_delete M (KStr p) t = (e, t')" by (cases "tbl_delete M (KStr p) t")
  note ok = fips.delete_ok [OF assms, of "KStr p", unfolded d]
  show "fst (DelFIPRoute M p t) = (if fip_view M t p = None then Some ErrNoVPPFIPFoundInStorage else None)"
    "fip_view M (snd (DelFIPRoute M p t)) = (fip_view M t)(p := None)"
    "tbl_wf C fip_keys (snd (DelFIPRoute M p t))"
    using ok by (auto simp: DelFIPRoute_def d fip_view_def fun_eq_iff)
qed

lemma AddUDPTunnel_ok:
  assumes "memdb_models M C" "tbl_wf C tun_keys t" "tn_DstIP u \<noteq> ''''"
  shows "fst (AddUDPTunnel M u t) = None"
    and "tun_view M (snd (AddUDPTunnel M u t)) = (tun_view M t)(tn_DstIP u \<mapsto> u)"
    and "tbl_wf C tun_keys (snd (AddUDPTunnel M u t))"
  using tuns.add_ok [OF assms(1,2), of u] assms(3)
  by (auto simp: AddUDPTunnel_def tun_view_def fun_eq_iff)

lemma DelUDPTunnel_ok:
  assumes "memdb_models M C" "tbl_wf C tun_keys t"
  shows "fst (DelUDPTunnel M p t) = (if tun_view M t p = None then Some ErrNoVPPUDPTunnelFoundInStorage else None)"
    and "tun_view M (snd (DelUDPTunnel M p t)) = (tun_view M t)(p := None)"
    and "tbl_wf C tun_keys (snd (DelUDPTunnel M p t))"
proof -
  obtain e t' where d: "tbl_delete M (KStr p) t = (e, t')" by (cases "tbl_delete M (KStr p) t")
  note ok = tuns.delete_ok [OF assms, of "KStr p", unfolded d]
  show "fst (DelUDPTunnel M p t) = (if tun_view M t p = None then Some ErrNoVPPUDPTunnelFoundInStorage else None)"
    "tun_view M (snd (DelUDPTunnel M p t)) = (tun_view M t)(p := None)"
    "tbl_wf C tun_keys (snd (DelUDPTunnel M p t))"
    using ok by (auto simp: DelUDPTunnel_def d tun_view_def fun_eq_iff)
qed

text \<open>Counters: a change of the object under a key, if there is one.\<close>

definition bump :: "('a \<Rightarrow> 'a) \<Rightarrow> 'k \<Rightarrow> ('k \<rightharpoonup> 'a) \<Rightarrow> 'k \<rightharpoonup> 'a" where
  "bump f k m = m(k := map_option f (m k))"

definition dec32 :: "u32 \<Rightarrow> u32" where
  "dec32 n = (if n = 0 then 0 else n - 1)"

lemma bump_None [simp]: "m k = None \<Longrightarrow> bump f k m = m"
  by (auto simp: bump_def fun_eq_iff)

lemma bump_Some: "m k = Some x \<Longrightarrow> bump f k m = m(k \<mapsto> f x)"
  by (simp add: bump_def)

lemma dom_bump [simp]: "dom (bump f k m) = dom m"
  by (auto simp: bump_def dom_def)

abbreviation vrf_inc :: "VPPVRFTable \<Rightarrow> VPPVRFTable" where
  "vrf_inc v \<equiv> v\<lparr>vv_FIPServed := vv_FIPServed v + 1\<rparr>"
abbreviation vrf_dec :: "VPPVRFTable \<Rightarrow> VPPVRFTable" where
  "vrf_dec v \<equiv> v\<lparr>vv_FIPServed := dec32 (vv_FIPServed v)\<rparr>"
abbreviation tun_inc :: "VPPUDPTunnel \<Rightarrow> VPPUDPTunnel" where
  "tun_inc u \<equiv> u\<lparr>tn_FIPServed := tn_FIPServed u + 1\<rparr>"
abbreviation tun_dec :: "VPPUDPTunnel \<Rightarrow> VPPUDPTunnel" where
  "tun_dec u \<equiv> u\<lparr>tn_FIPServed := dec32 (tn_FIPServed u)\<rparr>"

text \<open>
  The contract the two counters share: \<open>incr\<close> and \<open>decr\<close> change the object under a key through the
  stored pointer, whether the transaction they open can write (\<open>rw\<close>) or not.
\<close>

locale counted_table = keyed_table ixs idk
  for ixs :: "'a \<Rightarrow> keys" and idk :: "'a \<Rightarrow> key" +
  fixes key_of :: "'k \<Rightarrow> key" and count :: "'a \<Rightarrow> u32" and set_count :: "u32 \<Rightarrow> 'a \<Rightarrow> 'a"
    and rw :: bool and incr decr :: "'d memdb \<Rightarrow> 'k \<Rightarrow> ('d, 'a) table \<Rightarrow> ('d, 'a) table"
  assumes key_inj: "key_of i = key_of j \<longleftrightarrow> i = j"
    and same_keys: "ixs (set_count n x) = ixs x"
    and set_same: "set_count (count x) x = x"
    and incr: "incr M i t = snd (tbl_modify M rw ixs (key_of i) (\<lambda>x. set_count (count x + 1) x) t)"
    and decr: "decr M i t = (case tbl_view M t (key_of i) of None \<Rightarrow> t
      | Some x \<Rightarrow> if count x = 0 then t
                  else snd (tbl_modify M rw ixs (key_of i) (\<lambda>x. set_count (count x - 1) x) t))"
begin

lemma incr_ok:
  assumes "memdb_models M C" "tbl_wf C ixs t"
  shows "(\<lambda>j. tbl_view M (incr M i t) (key_of j)) = bump (\<lambda>x. set_count (count x + 1) x) i (\<lambda>j. tbl_view M t (key_of j))"
    and "tbl_wf C ixs (incr M i t)"
  using modify_none [OF assms, of "key_of i"] assms(2)
    modify_ok(1,2) [OF assms, of "key_of i" _ "\<lambda>x. set_count (count x + 1) x" rw]
  by (cases "tbl_view M t (key_of i)"; simp add: incr bump_def fun_eq_iff key_inj same_keys)+

lemma decr_ok:
  assumes "memdb_models M C" "tbl_wf C ixs t"
  shows "(\<lambda>j. tbl_view M (decr M i t) (key_of j)) = bump (\<lambda>x. set_count (dec32 (count x)) x) i (\<lambda>j. tbl_view M t (key_of j))"
    and "tbl_wf C ixs (decr M i t)"
proof -
  have zero: "set_count 0 x = x" if "count x = 0" for x using set_same [of x] that by simp
  show "(\<lambda>j. tbl_view M (decr M i t) (key_of j)) = bump (\<lambda>x. set_count (dec32 (count x)) x) i (\<lambda>j. tbl_view M t (key_of j))"
    "tbl_wf C ixs (decr M i t)"
    using assms(2) modify_ok(1,2) [OF assms, of "key_of i" _ "\<lambda>x. set_count (count x - 1) x" rw]
    by (cases "tbl_view M t (key_of i)"; simp add: decr bump_def fun_eq_iff key_inj same_keys dec32_def zero)+
qed

end

interpretation vrf_count: counted_table vvrf_keys "\<lambda>v. KUint (vv_ID v)" KUint vv_FIPServed "\<lambda>n v. v\<lparr>vv_FIPServed := n\<rparr>"
    False VRF_IncFIPServed VRF_DecFIPServed
  by unfold_locales (simp_all add: vvrf_keys_def VRF_IncFIPServed_def VRF_DecFIPServed_def)

interpretation tun_count: counted_table tun_keys "\<lambda>u. KStr (tn_DstIP u)" KStr tn_FIPServed "\<lambda>n u. u\<lparr>tn_FIPServed := n\<rparr>"
    True Tunnel_IncFIPServed Tunnel_DecFIPServed
  by unfold_locales (simp_all add: tun_keys_def Tunnel_IncFIPServed_def Tunnel_DecFIPServed_def)

lemma view_eta:
  "(\<lambda>i. tbl_view M t (KUint i)) = vvrf_view M t" "(\<lambda>i. tbl_view M u (KStr i)) = tun_view M u"
  by (simp_all add: fun_eq_iff vvrf_view_def tun_view_def)

lemmas VRF_Inc_ok = vrf_count.incr_ok [unfolded view_eta]
lemmas VRF_Dec_ok = vrf_count.decr_ok [unfolded view_eta]
lemmas Tunnel_Inc_ok = tun_count.incr_ok [unfolded view_eta]
lemmas Tunnel_Dec_ok = tun_count.decr_ok [unfolded view_eta]

section \<open>A storage to run the operations on\<close>

definition sample_vrf :: VPPVRFTable where
  "sample_vrf = NewVPPVRFTable ''blue'' 1 1 5 100 ''192.0.2.2'' 30 ''192.0.2.1'' 1000001 [''203.0.113.0/24'']"

definition sample_bvrf :: BGPVRFTable where
  "sample_bvrf = NewBGPVRFTable ''blue'' 1 65000 64900 (Some (RD ''10.0.0.2'' 1)) [RT 64512 1] [RT 65000 1]"

definition sample_storage :: "(key \<times> keys \<times> addr) list storage" where
  "sample_storage = (NewStorage alist_memdb)\<lparr>
     st_vvrfs := snd (VPP_AddVRF alist_memdb sample_vrf (NewVPPVRFStorage alist_memdb)),
     st_bvrfs := snd (BGP_AddVRF alist_memdb sample_bvrf (NewBGPVRFStorage alist_memdb))\<rparr>"

lemma sample_storage_views:
  "storage_wf map_of sample_storage"
  "vvrf_view alist_memdb (st_vvrfs sample_storage) = [1 \<mapsto> sample_vrf]"
  "bvrf_view alist_memdb (st_bvrfs sample_storage) = [1 \<mapsto> sample_bvrf]"
  "fip_view alist_memdb (st_fips sample_storage) = Map.empty"
  "tun_view alist_memdb (st_tuns sample_storage) = Map.empty"
proof -
  have name: "vv_Name sample_vrf = ''blue''" "vv_ID sample_vrf = 1" "bv_Name sample_bvrf = ''blue''" "bv_ID sample_bvrf = 1"
    by (simp_all add: sample_vrf_def NewVPPVRFTable_def sample_bvrf_def NewBGPVRFTable_def)
  note v = vvrfs.add_ok [OF alist_memdb_models vvrfs.wf_new [OF alist_memdb_models], of sample_vrf]
  note b = bvrfs.add_ok [OF alist_memdb_models bvrfs.wf_new [OF alist_memdb_models], of sample_bvrf]
  show "storage_wf map_of sample_storage"
    using NewStorage_wf [OF alist_memdb_models] v(3) b(3) name
    by (simp add: storage_wf_def sample_storage_def VPP_AddVRF_def BGP_AddVRF_def NewVPPVRFStorage_def NewBGPVRFStorage_def)
  show "vvrf_view alist_memdb (st_vvrfs sample_storage) = [1 \<mapsto> sample_vrf]"
    using v(2) name
    by (simp add: vvrfs.view_new [OF alist_memdb_models] fun_eq_iff vvrf_view_def sample_storage_def VPP_AddVRF_def NewVPPVRFStorage_def)
  show "bvrf_view alist_memdb (st_bvrfs sample_storage) = [1 \<mapsto> sample_bvrf]"
    using b(2) name
    by (simp add: vvrfs.view_new [OF alist_memdb_models] fun_eq_iff bvrf_view_def sample_storage_def BGP_AddVRF_def NewBGPVRFStorage_def)
  show "fip_view alist_memdb (st_fips sample_storage) = Map.empty"
    by (simp add: vvrfs.view_new [OF alist_memdb_models] fun_eq_iff fip_view_def sample_storage_def NewStorage_def NewVPPFIPRouteStorage_def)
  show "tun_view alist_memdb (st_tuns sample_storage) = Map.empty"
    by (simp add: vvrfs.view_new [OF alist_memdb_models] fun_eq_iff tun_view_def sample_storage_def NewStorage_def NewVPPUDPTunnelStorage_def)
qed

section \<open>Properties\<close>

text \<open>
  C29: the counter of floating IPs a VRF serves. Although both operations open a read-only
  transaction, so that their insertion is refused, incrementing adds one and decrementing takes one
  away, not below zero, for exactly the VRF with the given id, and nothing else of the table changes;
  for an unknown VRF nothing happens. The table stays well formed.
\<close>

theorem VRF_counters:
  assumes "memdb_models M C" "tbl_wf C vvrf_keys t"
  shows "vvrf_view M (VRF_IncFIPServed M i t) = (\<lambda>j. case vvrf_view M t j of None \<Rightarrow> None
           | Some v \<Rightarrow> Some (if j = i then v\<lparr>vv_FIPServed := vv_FIPServed v + 1\<rparr> else v)) \<and>
         vvrf_view M (VRF_DecFIPServed M i t) = (\<lambda>j. case vvrf_view M t j of None \<Rightarrow> None
           | Some v \<Rightarrow> Some (if j = i \<and> vv_FIPServed v \<noteq> 0 then v\<lparr>vv_FIPServed := vv_FIPServed v - 1\<rparr> else v)) \<and>
         tbl_wf C vvrf_keys (VRF_IncFIPServed M i t) \<and> tbl_wf C vvrf_keys (VRF_DecFIPServed M i t)"
  using VRF_Inc_ok [OF assms, of i] VRF_Dec_ok [OF assms, of i]
  by (auto simp: bump_def dec32_def fun_eq_iff split: option.split)

theorem VRF_counters_witness:
  "vvrf_view alist_memdb (VRF_IncFIPServed alist_memdb 1 (st_vvrfs sample_storage)) 1 =
     Some (sample_vrf\<lparr>vv_FIPServed := 1\<rparr>) \<and>
   vvrf_view alist_memdb (VRF_DecFIPServed alist_memdb 1 (st_vvrfs sample_storage)) 1 = Some sample_vrf"
proof -
  have wf: "tbl_wf map_of vvrf_keys (st_vvrfs sample_storage)"
    using sample_storage_views(1) by (simp add: storage_wf_def)
  have "vv_FIPServed sample_vrf = 0" by (simp add: sample_vrf_def NewVPPVRFTable_def)
  then show ?thesis
    using VRF_counters [OF alist_memdb_models wf, of 1] by (simp add: sample_storage_views)
qed

text \<open>
  C28: the floating IP storage is a map from prefixes to routes. Adding a route with a prefix
  overwrites what was there, deleting removes exactly the prefix and reports an unknown one, and the
  listing gives every stored route once, in the order of their prefixes.
\<close>

theorem FIP_storage_map:
  assumes "memdb_models M C" "tbl_wf C fip_keys t"
  shows "(rt_Prefix r \<noteq> '''' \<longrightarrow> fst (AddFIPRoute M r t) = None \<and>
           (\<forall>p. GetFIPRoute M (snd (AddFIPRoute M r t)) p = (if p = rt_Prefix r then Some r else GetFIPRoute M t p))) \<and>
         (fst (DelFIPRoute M q t) = None \<longleftrightarrow> IsFIPPrefixExist M t q) \<and>
         (\<forall>p. GetFIPRoute M (snd (DelFIPRoute M q t)) p = (if p = q then None else GetFIPRoute M t p)) \<and>
         set (GetFIPRoutes M t) = {x. \<exists>p. GetFIPRoute M t p = Some x} \<and>
         sorted_wrt (<) (map rt_Prefix (GetFIPRoutes M t))"
proof (intro conjI impI)
  note view = fip_view_def [symmetric]
  assume "rt_Prefix r \<noteq> ''''"
  then show "fst (AddFIPRoute M r t) = None"
    "\<forall>p. GetFIPRoute M (snd (AddFIPRoute M r t)) p = (if p = rt_Prefix r then Some r else GetFIPRoute M t p)"
    using AddFIPRoute_ok [OF assms, of r] by (simp_all add: GetFIPRoute_def view)
next
  note view = fip_view_def [symmetric]
  show "fst (DelFIPRoute M q t) = None \<longleftrightarrow> IsFIPPrefixExist M t q"
    "\<forall>p. GetFIPRoute M (snd (DelFIPRoute M q t)) p = (if p = q then None else GetFIPRoute M t p)"
    using DelFIPRoute_ok [OF assms, of q] by (simp_all add: GetFIPRoute_def IsFIPPrefixExist_def view)
next
  have key: "tbl_view M t (KStr (rt_Prefix x)) = Some x" if "tbl_view M t k = Some x" for k x
    using fips.view_key [OF assms that] that by simp
  have "ran (tbl_view M t) = {x. \<exists>p. tbl_view M t (KStr p) = Some x}"
    using key by (auto simp: ran_def)
  then show "set (GetFIPRoutes M t) = {x. \<exists>p. GetFIPRoute M t p = Some x}"
    using fips.all_id(1) [OF assms] by (simp add: GetFIPRoutes_def GetFIPRoute_def)
  have lt: "KStr a < KStr b \<longleftrightarrow> a < b" for a b by (auto simp: less_key_def)
  show "sorted_wrt (<) (map rt_Prefix (GetFIPRoutes M t))"
    using fips.all_id(2) [OF assms] by (simp add: GetFIPRoutes_def sorted_wrt_map lt)
qed

theorem FIP_storage_map_witness:
  "GetFIPRoute alist_memdb (snd (AddFIPRoute alist_memdb
       (NewVPPIPRoute 1 1 5 ''203.0.113.7/32'' [''10.0.0.1''] [3] [77]) (st_fips sample_storage))) ''203.0.113.7/32'' =
     Some (NewVPPIPRoute 1 1 5 ''203.0.113.7/32'' [''10.0.0.1''] [3] [77]) \<and>
   fst (DelFIPRoute alist_memdb ''203.0.113.7/32'' (st_fips sample_storage)) \<noteq> None"
proof -
  have wf: "tbl_wf map_of fip_keys (st_fips sample_storage)"
    using sample_storage_views(1) by (simp add: storage_wf_def)
  have none: "tbl_view alist_memdb (st_fips sample_storage) (KStr ''203.0.113.7/32'') = None"
    using sample_storage_views(4) by (simp add: fip_view_def fun_eq_iff)
  show ?thesis
    using FIP_storage_map [OF alist_memdb_models wf, of "NewVPPIPRoute 1 1 5 ''203.0.113.7/32'' [''10.0.0.1''] [3] [77]" "''203.0.113.7/32''"]
    by (simp add: NewVPPIPRoute_def IsFIPPrefixExist_def none)
qed

end
