(* ===== verification/Vpp_Api.thy ===== *)
theory Vpp_Api
  imports Model
begin

text \<open>
  The conversation with VPP. The messages are those of the binary API that
  \<^verbatim>\<open>internal/repository/vpp\<close> uses, with the fields the code sets or reads. VPP itself, the \<^verbatim>\<open>govpp\<close>
  stream and the GoBGP server are outside the repository: the \<open>world\<close> holds the answers they will
  give (any answers: the theorems quantify over them) and records what was asked. Parsing and
  printing of the wire types by \<^verbatim>\<open>ip_types\<close> is the record \<open>P\<close>, an argument of the operations.
\<close>

section \<open>Wire types\<close>

text \<open>The bytes of an address family and of the address union; a prefix with its length.\<close>

type_synonym IP4Address = "u8 list"
type_synonym AddressUnion = "u8 list"
datatype Address = Address u8 AddressUnion
datatype Prefix = Prefix Address u8

record IPTable =
  it_TableID :: u32
  it_Name :: string
  it_IsIP6 :: bool

text \<open>The enumeration values by their names, which is how the code compares path types.\<close>

datatype FibPathType = FIB_API_PATH_TYPE_NORMAL | FIB_API_PATH_TYPE_UDP_ENCAP | FIB_API_PATH_TYPE_other nat

record FibMplsLabel =
  ml_IsUniform :: u8
  ml_Label :: u32
  ml_TTL :: u8
  ml_Exp :: u8

abbreviation zero_label :: FibMplsLabel where
  "zero_label \<equiv> \<lparr>ml_IsUniform = 0, ml_Label = 0, ml_TTL = 0, ml_Exp = 0\<rparr>"

text \<open>
  \<open>fp_Label0\<close> is \<^verbatim>\<open>LabelStack[0]\<close>; the other fifteen entries of that array are never read and stay
  zero. \<open>fp_Flags\<close> and \<open>fp_Proto\<close> are always the constants NONE and NH_PROTO_IP4 in this program.
\<close>

record FibPath =
  fp_SwIfIndex :: u32
  fp_TableID :: u32
  fp_Type :: FibPathType
  fp_Address :: AddressUnion
  fp_ObjID :: u32
  fp_NLabels :: u8
  fp_Label0 :: FibMplsLabel

record IPRouteV2 =
  rv_TableID :: u32
  rv_Prefix :: Prefix
  rv_NPaths :: u8
  rv_Src :: u8
  rv_Paths :: "FibPath list"

record MplsRoute =
  mr_TableID :: u32
  mr_Label :: u32
  mr_Eos :: u8
  mr_IsMulticast :: bool
  mr_NPaths :: u8
  mr_Paths :: "FibPath list"

record UDPEncap =
  ue_TableID :: u32
  ue_SrcPort :: u16
  ue_DstPort :: u16
  ue_SrcIP :: Address
  ue_DstIP :: Address
  ue_ID :: u32

section \<open>Requests and replies\<close>

datatype vpp_req =
    ShowVersion
  | MplsTableAddDel bool u32 string
  | SwInterfaceDump
  | ControlPing
  | SwInterfaceAddDelAddress u32 bool bool "Prefix option"
  | SwInterfaceSetFlags u32 u32
  | SwInterfaceSetMplsEnable u32 bool
  | IPTableAddDel bool IPTable
  | CreateVlanSubif u32 u32
  | SwInterfaceSetTable u32 bool u32
  | DeleteSubif u32
  | UDPEncapDump
  | UDPEncapAdd UDPEncap
  | UDPEncapDel u32
  | UDPDecapAddDel bool u8 u16 string
  | IPTableDump
  | IPRouteV2Dump IPTable
  | IPRouteLookupV2 u32 u8 Prefix
  | IPRouteAddDelV2 bool bool IPRouteV2
  | MplsRouteAddDel bool bool MplsRoute
  | MplsRouteDump u32

datatype vpp_msg =
    ShowVersionReply int string
  | MplsTableAddDelReply int
  | SwInterfaceDetails u32
  | ControlPingReply
  | SwInterfaceAddDelAddressReply int
  | SwInterfaceSetFlagsReply int
  | SwInterfaceSetMplsEnableReply int
  | IPTableAddDelReply int
  | CreateVlanSubifReply int u32
  | SwInterfaceSetTableReply int
  | DeleteSubifReply int
  | UDPEncapDetails UDPEncap
  | UDPEncapAddReply int u32
  | UDPEncapDelReply int
  | UDPDecapAddDelReply int
  | IPTableDetails IPTable
  | IPRouteV2Details IPRouteV2
  | IPRouteLookupV2Reply int IPRouteV2
  | IPRouteAddDelV2Reply int
  | MplsRouteAddDelReply int
  | MplsRouteDetails MplsRoute
  | OtherMsg string

text \<open>The functions of \<^verbatim>\<open>govpp\<close> that work on values only.\<close>

record govpp =
  ParsePrefix :: "string \<Rightarrow> err + Prefix"
  ParseIP4Address :: "string \<Rightarrow> err + IP4Address"
  ParseAddress :: "string \<Rightarrow> err + Address"
  ParseAddressWithPrefix :: "string \<Rightarrow> err + Prefix"
  Prefix_String :: "Prefix \<Rightarrow> string"
  Address_String :: "Address \<Rightarrow> string"
  IP4_String :: "IP4Address \<Rightarrow> string"
  AddressUnionIP4 :: "IP4Address \<Rightarrow> AddressUnion"
  GetIP4 :: "AddressUnion \<Rightarrow> IP4Address"
  RetvalToVPPApiError :: "int \<Rightarrow> err option"

section \<open>Requests to the GoBGP server\<close>

datatype TableType = GLOBAL | LOCAL | ADJ_IN | ADJ_OUT | VRF

record Path =
  p_Nlri :: any
  p_Pattrs :: "any list"
  p_Afi :: Afi
  p_Safi :: Safi
  p_IsWithdraw :: bool
  p_SourceAsn :: u32
  p_NeighborIp :: string

record GoBGPVrf =
  gv_Name :: string
  gv_Id :: u32
  gv_Rd :: "any option"
  gv_ImportRt :: "any list"
  gv_ExportRt :: "any list"

record GoBGPPeer =
  gp_NeighborAddress :: string
  gp_PeerAsn :: u32
  gp_AuthPassword :: string
  gp_Vrf :: string
  gp_MultihopEnabled :: bool
  gp_MultihopTtl :: u32
  gp_KeepaliveInterval :: u64
  gp_HoldTime :: u64
  gp_RemotePort :: u32
  gp_Afi :: Afi
  gp_Safi :: Safi

datatype DefinedSet =
    PrefixSet string string u32 u32
  | NeighborSet string "string list"

fun ds_Name :: "DefinedSet \<Rightarrow> string" where
  "ds_Name (PrefixSet n p a b) = n"
| "ds_Name (NeighborSet n ns) = n"

datatype RouteAction = NONE | ACCEPT | REJECT

record Statement =
  sm_Name :: string
  sm_PrefixSet :: string
  sm_NeighborSet :: string
  sm_RouteAction :: RouteAction

datatype bgp_req =
    StartBgp u32 string int
  | GetBgp
  | AddVrf GoBGPVrf
  | DeleteVrf string
  | AddPeer GoBGPPeer
  | DeletePeer string
  | BgpAddPath TableType Path
  | BgpDeletePath TableType Path
  | AddDefinedSet DefinedSet
  | AddPolicy string "Statement list"
  | AddPolicyAssignment string string "Statement list" RouteAction
  | GetTable TableType Afi Safi string

section \<open>The world outside the program\<close>

text \<open>
  \<open>w_sends\<close>: the outcomes of the next \<^verbatim>\<open>SendMsg\<close> calls (sent when exhausted); \<open>w_replies\<close>: the
  outcomes of the next \<^verbatim>\<open>RecvMsg\<close> calls (the two second reply timeout when exhausted); \<open>w_bgps\<close>: the
  outcomes of the next GoBGP calls (no error when exhausted); \<open>w_rands\<close>: the next random numbers.
  \<open>w_sent\<close>, \<open>w_acked\<close> and \<open>w_bgp\<close> record, newest last, the requests handed to VPP, those whose reply
  came back without an API error, and the requests the GoBGP server accepted.
\<close>

record world =
  w_sends :: "err option list"
  w_replies :: "(err + vpp_msg) list"
  w_bgps :: "err option list"
  w_rands :: "nat list"
  w_sent :: "vpp_req list"
  w_acked :: "vpp_req list"
  w_bgp :: "bgp_req list"

definition SendMsg :: "vpp_req \<Rightarrow> world \<Rightarrow> err option \<times> world" where
  "SendMsg req w = (case w_sends w of
      [] \<Rightarrow> (None, w\<lparr>w_sent := w_sent w @ [req]\<rparr>)
    | None # es \<Rightarrow> (None, w\<lparr>w_sends := es, w_sent := w_sent w @ [req]\<rparr>)
    | Some e # es \<Rightarrow> (Some e, w\<lparr>w_sends := es\<rparr>))"

definition RecvMsg :: "world \<Rightarrow> (err + vpp_msg) \<times> world" where
  "RecvMsg w = (case w_replies w of
      [] \<Rightarrow> (Inl (ExtErr ''VPPApiError: reply timeout''), w)
    | r # rs \<Rightarrow> (r, w\<lparr>w_replies := rs\<rparr>))"

definition bgp_call :: "bgp_req \<Rightarrow> world \<Rightarrow> err option \<times> world" where
  "bgp_call req w = (case w_bgps w of
      [] \<Rightarrow> (None, w\<lparr>w_bgp := w_bgp w @ [req]\<rparr>)
    | None # es \<Rightarrow> (None, w\<lparr>w_bgps := es, w_bgp := w_bgp w @ [req]\<rparr>)
    | Some e # es \<Rightarrow> (Some e, w\<lparr>w_bgps := es\<rparr>))"

definition next_rand :: "world \<Rightarrow> nat \<times> world" where
  "next_rand w = (case w_rands w of [] \<Rightarrow> (0, w) | r # rs \<Rightarrow> (r, w\<lparr>w_rands := rs\<rparr>))"

section \<open>Sequencing\<close>

text \<open>\<open>bindE m k\<close>: run \<open>m\<close>; return its error, or go on with its value.\<close>

definition bindE :: "((err + 'a) \<times> 's) go \<Rightarrow> ('a \<Rightarrow> 's \<Rightarrow> ((err + 'b) \<times> 's) go) \<Rightarrow> ((err + 'b) \<times> 's) go" where
  "bindE m k = do { (r, w) \<leftarrow> m; (case r of Inl e \<Rightarrow> Some (Inl e, w) | Inr a \<Rightarrow> k a w) }"

definition returnE :: "'a \<Rightarrow> 's \<Rightarrow> ((err + 'a) \<times> 's) go" where
  "returnE a w = Some (Inr a, w)"

definition failE :: "err \<Rightarrow> 's \<Rightarrow> ((err + 'a) \<times> 's) go" where
  "failE e w = Some (Inl e, w)"

text \<open>\<open>liftE\<close> turns the outcome of a pure parser into such a computation.\<close>

definition liftE :: "err + 'a \<Rightarrow> 's \<Rightarrow> ((err + 'a) \<times> 's) go" where
  "liftE r w = Some (r, w)"

text \<open>\<open>wrapE msg\<close> is \<^verbatim>\<open>fmt.Errorf("msg: %w", err)\<close> on the way out.\<close>

definition wrapE :: "string \<Rightarrow> ((err + 'a) \<times> 's) go \<Rightarrow> ((err + 'a) \<times> 's) go" where
  "wrapE msg m = do { (r, w) \<leftarrow> m; Some (case r of Inl e \<Rightarrow> Inl (Wrap msg e) | Inr a \<Rightarrow> Inr a, w) }"

text \<open>A \<^verbatim>\<open>for\<close> loop whose body returns the error of the loop.\<close>

fun forE :: "'x list \<Rightarrow> ('x \<Rightarrow> 's \<Rightarrow> ((err + unit) \<times> 's) go) \<Rightarrow> 's \<Rightarrow> ((err + unit) \<times> 's) go" where
  "forE [] body w = returnE () w"
| "forE (x # xs) body w = bindE (body x w) (\<lambda>_ w. forE xs body w)"

text \<open>
  The pattern of almost every operation: send, receive, assert the type of the reply (\<open>sel\<close> gives
  its \<^verbatim>\<open>Retval\<close> and the value read from it; a reply of another type panics), check the \<^verbatim>\<open>Retval\<close>.
\<close>

definition roundtrip :: "govpp \<Rightarrow> vpp_req \<Rightarrow> (vpp_msg \<Rightarrow> (int \<times> 'a) option) \<Rightarrow> world
    \<Rightarrow> ((err + 'a) \<times> world) go" where
  "roundtrip P req sel w = (case SendMsg req w of
      (Some e, w) \<Rightarrow> Some (Inl e, w)
    | (None, w) \<Rightarrow> (case RecvMsg w of
        (Inl e, w) \<Rightarrow> Some (Inl e, w)
      | (Inr msg, w) \<Rightarrow> (case sel msg of
          None \<Rightarrow> panic
        | Some (ret, a) \<Rightarrow> (case RetvalToVPPApiError P ret of
            Some e \<Rightarrow> Some (Inl e, w)
          | None \<Rightarrow> Some (Inr a, w\<lparr>w_acked := w_acked w @ [req]\<rparr>)))))"

text \<open>
  The receive loop of the dumps: \<open>h\<close> takes the accumulated value and a message, \<open>None\<close> is the
  \<^verbatim>\<open>default\<close> branch of the type switch.
\<close>

fun recv_loop :: "('s \<Rightarrow> vpp_msg \<Rightarrow> 's option go) \<Rightarrow> (err + vpp_msg) list \<Rightarrow> 's
    \<Rightarrow> (err option \<times> 's \<times> (err + vpp_msg) list) go" where
  "recv_loop h [] s = Some (Some (ExtErr ''VPPApiError: reply timeout''), s, [])"
| "recv_loop h (Inl e # rs) s = Some (Some e, s, rs)"
| "recv_loop h (Inr m # rs) s =
     (if m = ControlPingReply then Some (None, s, rs)
      else do {
        r \<leftarrow> h s m;
        (case r of
           None \<Rightarrow> Some (Some (Errorf ''unexpected message type''), s, rs)
         | Some s' \<Rightarrow> recv_loop h rs s')
      })"

text \<open>
  A dump: the request and a control ping are sent, then replies are read up to the ping's. The
  result has the error, if any, with what was accumulated before it; \<open>None\<close> stands for the error of
  a send, before the loop.
\<close>

definition dump :: "vpp_req \<Rightarrow> ('s \<Rightarrow> vpp_msg \<Rightarrow> 's option go) \<Rightarrow> 's \<Rightarrow> world
    \<Rightarrow> ((err + (err option \<times> 's)) \<times> world) go" where
  "dump req h s w = (case SendMsg req w of
      (Some e, w) \<Rightarrow> Some (Inl e, w)
    | (None, w) \<Rightarrow> (case SendMsg ControlPing w of
        (Some e, w) \<Rightarrow> Some (Inl e, w)
      | (None, w) \<Rightarrow> do {
          (e, s', rs) \<leftarrow> recv_loop h (w_replies w) s;
          Some (Inr (e, s'), w\<lparr>w_replies := rs\<rparr>)
        }))"

text \<open>A dump whose caller returns nothing but the error when one occurs.\<close>

definition dump_all :: "vpp_req \<Rightarrow> ('s \<Rightarrow> vpp_msg \<Rightarrow> 's option go) \<Rightarrow> 's \<Rightarrow> world
    \<Rightarrow> ((err + 's) \<times> world) go" where
  "dump_all req h s w = bindE (dump req h s w)
     (\<lambda>(e, s') w. case e of Some e \<Rightarrow> failE e w | None \<Rightarrow> returnE s' w)"

text \<open>A world with nothing left to answer but success, and with nothing recorded.\<close>

definition empty_world :: world where
  "empty_world = \<lparr>w_sends = [], w_replies = [], w_bgps = [], w_rands = [], w_sent = [], w_acked = [], w_bgp = []\<rparr>"

section \<open>What these do\<close>

lemmas monadE = bindE_def returnE_def failE_def liftE_def wrapE_def

lemma bindE_Inl [simp]: "bindE (Some (Inl e, w)) k = Some (Inl e, w)"
  by (simp add: bindE_def)

lemma bindE_Inr [simp]: "bindE (Some (Inr a, w)) k = k a w"
  by (simp add: bindE_def)

lemma bindE_None [simp]: "bindE None k = None"
  by (simp add: bindE_def)

lemma bindE_SomeE:
  assumes "bindE m k = Some (r, w)"
  obtains (err) e where "m = Some (Inl e, w)" "r = Inl e"
    | (ok) a w' where "m = Some (Inr a, w')" "k a w' = Some (r, w)"
proof (cases m)
  case (Some p)
  obtain q v where p: "p = (q, v)" by (cases p)
  then show ?thesis using Some assms err ok by (cases q) auto
qed (use assms in simp)

lemma bindE_InrE:
  assumes "bindE m k = Some (Inr b, w)"
  obtains a w' where "m = Some (Inr a, w')" "k a w' = Some (Inr b, w)"
  using assms by (rule bindE_SomeE) auto

lemma bindE_NoneE:
  assumes "bindE m k = None"
  obtains (first) "m = None" | (rest) a w where "m = Some (Inr a, w)" "k a w = None"
proof (cases m)
  case (Some p)
  obtain q v where p: "p = (q, v)" by (cases p)
  then show ?thesis using Some assms rest by (cases q) auto
qed (use first in simp)

text \<open>
  A transition of the world is quiet when it leaves the recorded GoBGP requests, the GoBGP answers
  and the random numbers alone: everything that talks to VPP only.
\<close>

definition vpp_only :: "world \<Rightarrow> world \<Rightarrow> bool" where
  "vpp_only w w' \<longleftrightarrow> w_bgps w' = w_bgps w \<and> w_bgp w' = w_bgp w \<and> w_rands w' = w_rands w
     \<and> (\<exists>as. w_acked w' = w_acked w @ as)"

lemma vpp_only_refl [simp]: "vpp_only w w"
  by (simp add: vpp_only_def)

lemma vpp_only_trans: "vpp_only w w' \<Longrightarrow> vpp_only w' w'' \<Longrightarrow> vpp_only w w''"
  by (auto simp: vpp_only_def)

lemma SendMsg_frame:
  "w_acked (snd (SendMsg req w)) = w_acked w" "w_bgp (snd (SendMsg req w)) = w_bgp w"
  "w_bgps (snd (SendMsg req w)) = w_bgps w" "w_rands (snd (SendMsg req w)) = w_rands w"
  "w_replies (snd (SendMsg req w)) = w_replies w"
  by (simp_all add: SendMsg_def split: list.split option.split)

lemma RecvMsg_frame:
  "w_acked (snd (RecvMsg w)) = w_acked w" "w_bgp (snd (RecvMsg w)) = w_bgp w"
  "w_bgps (snd (RecvMsg w)) = w_bgps w" "w_rands (snd (RecvMsg w)) = w_rands w"
  by (simp_all add: RecvMsg_def split: list.split)

lemma roundtrip_cases:
  assumes "roundtrip P req sel w = Some (r, w')"
  shows "vpp_only w w' \<and> (case r of Inl e \<Rightarrow> w_acked w' = w_acked w | Inr a \<Rightarrow> w_acked w' = w_acked w @ [req])"
proof -
  obtain e1 w1 where s: "SendMsg req w = (e1, w1)" by (cases "SendMsg req w")
  obtain m w2 where v: "RecvMsg w1 = (m, w2)" by (cases "RecvMsg w1")
  have f: "w_acked w2 = w_acked w" "w_bgp w2 = w_bgp w" "w_bgps w2 = w_bgps w" "w_rands w2 = w_rands w"
      "w_acked w1 = w_acked w" "w_bgp w1 = w_bgp w" "w_bgps w1 = w_bgps w" "w_rands w1 = w_rands w"
    using SendMsg_frame [of req w] RecvMsg_frame [of w1] s v by simp_all
  show ?thesis
    using assms f s v
    by (auto simp: roundtrip_def vpp_only_def split: option.splits sum.splits prod.splits)
qed

lemma roundtrip_ok:
  assumes "w_sends w = []" "w_replies w = Inr m # rs" "sel m = Some (ret, a)" "RetvalToVPPApiError P ret = None"
  shows "roundtrip P req sel w = Some (Inr a,
    w\<lparr>w_replies := rs, w_sent := w_sent w @ [req], w_acked := w_acked w @ [req]\<rparr>)"
  using assms by (simp add: roundtrip_def SendMsg_def RecvMsg_def)

text \<open>
  A \<^verbatim>\<open>govpp\<close> to run the operations on: an address is the bytes of its text, the empty text is
  refused, and 0 is the return value of a success.
\<close>

definition sample_bytes :: "string \<Rightarrow> err + u8 list" where
  "sample_bytes s = (if s = '''' then Inl (ExtErr ''invalid address'') else Inr (map (\<lambda>c. of_char c) s))"

definition sample_govpp :: govpp where
  "sample_govpp = \<lparr>ParsePrefix = (\<lambda>s. case sample_bytes s of Inl e \<Rightarrow> Inl e | Inr b \<Rightarrow> Inr (Prefix (Address 0 b) 32)),
     ParseIP4Address = sample_bytes,
     ParseAddress = (\<lambda>s. case sample_bytes s of Inl e \<Rightarrow> Inl e | Inr b \<Rightarrow> Inr (Address 0 b)),
     ParseAddressWithPrefix = (\<lambda>s. case sample_bytes s of Inl e \<Rightarrow> Inl e | Inr b \<Rightarrow> Inr (Prefix (Address 0 b) 24)),
     Prefix_String = (\<lambda>p. case p of Prefix (Address f b) n \<Rightarrow> map (\<lambda>c. char_of (unat c)) b),
     Address_String = (\<lambda>a. case a of Address f b \<Rightarrow> map (\<lambda>c. char_of (unat c)) b),
     IP4_String = map (\<lambda>c. char_of (unat c)), AddressUnionIP4 = (\<lambda>b. b), GetIP4 = (\<lambda>b. b),
     RetvalToVPPApiError = (\<lambda>r. if r = 0 then None else Some (ExtErr ''VPPApiError''))\<rparr>"

end
