(* ===== verification/Vpp.thy ===== *)
theory Vpp
  imports Vpp_Api
begin

text \<open>
  \<^verbatim>\<open>internal/repository/vpp/vpp.go\<close>: the operations on VPP, one definition each, over the world of
  \<open>Vpp_Api\<close>. Debug logging is left out. An operation that returns only an error has type
  \<open>err + unit\<close>; one that returns a value beside its error gives the pair when the value matters.
\<close>

section \<open>Reading replies\<close>

text \<open>The type assertion on a reply that carries nothing but its \<^verbatim>\<open>Retval\<close>, per message.\<close>

definition re_MplsTable :: "vpp_msg \<Rightarrow> (int \<times> unit) option" where
  "re_MplsTable m = (case m of MplsTableAddDelReply r \<Rightarrow> Some (r, ()) | _ \<Rightarrow> None)"
definition re_IfAddress :: "vpp_msg \<Rightarrow> (int \<times> unit) option" where
  "re_IfAddress m = (case m of SwInterfaceAddDelAddressReply r \<Rightarrow> Some (r, ()) | _ \<Rightarrow> None)"
definition re_IfFlags :: "vpp_msg \<Rightarrow> (int \<times> unit) option" where
  "re_IfFlags m = (case m of SwInterfaceSetFlagsReply r \<Rightarrow> Some (r, ()) | _ \<Rightarrow> None)"
definition re_IfMpls :: "vpp_msg \<Rightarrow> (int \<times> unit) option" where
  "re_IfMpls m = (case m of SwInterfaceSetMplsEnableReply r \<Rightarrow> Some (r, ()) | _ \<Rightarrow> None)"
definition re_IPTable :: "vpp_msg \<Rightarrow> (int \<times> unit) option" where
  "re_IPTable m = (case m of IPTableAddDelReply r \<Rightarrow> Some (r, ()) | _ \<Rightarrow> None)"
definition re_SetTable :: "vpp_msg \<Rightarrow> (int \<times> unit) option" where
  "re_SetTable m = (case m of SwInterfaceSetTableReply r \<Rightarrow> Some (r, ()) | _ \<Rightarrow> None)"
definition re_DeleteSubif :: "vpp_msg \<Rightarrow> (int \<times> unit) option" where
  "re_DeleteSubif m = (case m of DeleteSubifReply r \<Rightarrow> Some (r, ()) | _ \<Rightarrow> None)"
definition re_UDPEncapDel :: "vpp_msg \<Rightarrow> (int \<times> unit) option" where
  "re_UDPEncapDel m = (case m of UDPEncapDelReply r \<Rightarrow> Some (r, ()) | _ \<Rightarrow> None)"
definition re_UDPDecap :: "vpp_msg \<Rightarrow> (int \<times> unit) option" where
  "re_UDPDecap m = (case m of UDPDecapAddDelReply r \<Rightarrow> Some (r, ()) | _ \<Rightarrow> None)"
definition re_IPRoute :: "vpp_msg \<Rightarrow> (int \<times> unit) option" where
  "re_IPRoute m = (case m of IPRouteAddDelV2Reply r \<Rightarrow> Some (r, ()) | _ \<Rightarrow> None)"
definition re_MplsRoute :: "vpp_msg \<Rightarrow> (int \<times> unit) option" where
  "re_MplsRoute m = (case m of MplsRouteAddDelReply r \<Rightarrow> Some (r, ()) | _ \<Rightarrow> None)"

section \<open>Version, MPLS table, interfaces\<close>

definition GetVPPVersion :: "govpp \<Rightarrow> world \<Rightarrow> ((err + string) \<times> world) go" where
  "GetVPPVersion P = roundtrip P ShowVersion (\<lambda>m. case m of ShowVersionReply r v \<Rightarrow> Some (r, v) | _ \<Rightarrow> None)"

definition AddDelMPLSTable :: "govpp \<Rightarrow> bool \<Rightarrow> world \<Rightarrow> ((err + unit) \<times> world) go" where
  "AddDelMPLSTable P isAdd = roundtrip P (MplsTableAddDel isAdd 0 ''default'') re_MplsTable"

definition GetInterfaceIDs :: "world \<Rightarrow> ((err + u32 list) \<times> world) go" where
  "GetInterfaceIDs = dump_all SwInterfaceDump
     (\<lambda>ids m. case m of SwInterfaceDetails i \<Rightarrow> Some (Some (ids @ [i])) | _ \<Rightarrow> Some None) []"

text \<open>The admin-up flag, and the text of an interface address.\<close>

abbreviation (input) ADMIN_UP :: u32 where "ADMIN_UP \<equiv> 1"

definition addr_with_len :: "VPPVRFTable \<Rightarrow> string" where
  "addr_with_len v = vv_LocalAddr v @ ''/'' @ itoa (unat (vv_LocalAddrLen v))"

definition SetupMainInterface :: "govpp \<Rightarrow> VPPVRFTable \<Rightarrow> world \<Rightarrow> ((err + unit) \<times> world) go" where
  "SetupMainInterface P v w =
     bindE (liftE (ParseAddressWithPrefix P (addr_with_len v)) w) (\<lambda>prefix w.
     bindE (roundtrip P (SwInterfaceAddDelAddress (vv_MainInterfaceID v) True False (Some prefix)) re_IfAddress w) (\<lambda>_ w.
     bindE (roundtrip P (SwInterfaceSetFlags (vv_MainInterfaceID v) ADMIN_UP) re_IfFlags w) (\<lambda>_ w.
     roundtrip P (SwInterfaceSetMplsEnable (vv_MainInterfaceID v) True) re_IfMpls w)))"

definition ResetMainInterface :: "govpp \<Rightarrow> u32 \<Rightarrow> world \<Rightarrow> ((err + unit) \<times> world) go" where
  "ResetMainInterface P mainInterfaceID w =
     bindE (roundtrip P (SwInterfaceAddDelAddress mainInterfaceID False True None) re_IfAddress w) (\<lambda>_ w.
     roundtrip P (SwInterfaceSetFlags mainInterfaceID MaxUint32) re_IfFlags w)"

definition AddDelVRF :: "govpp \<Rightarrow> bool \<Rightarrow> VPPVRFTable \<Rightarrow> world \<Rightarrow> ((err + unit) \<times> world) go" where
  "AddDelVRF P isAdd v = roundtrip P
     (IPTableAddDel isAdd \<lparr>it_TableID = vv_ID v, it_Name = vv_Name v, it_IsIP6 = False\<rparr>) re_IPTable"

text \<open>
  The error of parsing the address is dropped: the zero value of the prefix is sent then. The code
  returns \<open>UndefinedSubIf\<close> beside an error.
\<close>

definition zero_prefix :: Prefix where
  "zero_prefix = Prefix (Address 0 (replicate 16 0)) 0"

definition AddSubInterface :: "govpp \<Rightarrow> VPPVRFTable \<Rightarrow> world \<Rightarrow> ((err + u32) \<times> world) go" where
  "AddSubInterface P v w =
     bindE (roundtrip P (CreateVlanSubif (vv_MainInterfaceID v) (vv_VLAN v))
              (\<lambda>m. case m of CreateVlanSubifReply r i \<Rightarrow> Some (r, i) | _ \<Rightarrow> None) w) (\<lambda>subInterfaceID w.
     bindE (roundtrip P (SwInterfaceSetTable subInterfaceID False (vv_ID v)) re_SetTable w) (\<lambda>_ w.
     (let addr = (case ParseAddressWithPrefix P (addr_with_len v) of Inl _ \<Rightarrow> zero_prefix | Inr p \<Rightarrow> p)
      in bindE (roundtrip P (SwInterfaceAddDelAddress subInterfaceID True False (Some addr)) re_IfAddress w) (\<lambda>_ w.
         bindE (roundtrip P (SwInterfaceSetFlags subInterfaceID ADMIN_UP) re_IfFlags w) (\<lambda>_ w.
         returnE subInterfaceID w)))))"

text \<open>The number of deleted sub-interfaces is returned beside the error.\<close>

fun del_subifs :: "govpp \<Rightarrow> u32 list \<Rightarrow> u32 \<Rightarrow> world \<Rightarrow> ((u32 \<times> err option) \<times> world) go" where
  "del_subifs P [] removed w = Some ((removed, None), w)"
| "del_subifs P (i # is) removed w = do {
     (r, w) \<leftarrow> roundtrip P (DeleteSubif i) re_DeleteSubif w;
     (case r of Inl e \<Rightarrow> Some ((removed, Some e), w) | Inr _ \<Rightarrow> del_subifs P is (removed + 1) w)
   }"

definition DelSubInterfaces :: "govpp \<Rightarrow> u32 \<Rightarrow> world \<Rightarrow> ((u32 \<times> err option) \<times> world) go" where
  "DelSubInterfaces P mainInterfaceID w = do {
     (r, w) \<leftarrow> dump_all SwInterfaceDump (\<lambda>ids m. case m of
         SwInterfaceDetails i \<Rightarrow> Some (Some (if mainInterfaceID < i then ids @ [i] else ids))
       | _ \<Rightarrow> Some None) [] w;
     (case r of
        Inl e \<Rightarrow> Some ((0, Some e), w)
      | Inr ids \<Rightarrow> if ids = [] then Some ((0, None), w) else del_subifs P ids 0 w)
   }"

section \<open>UDP tunnels\<close>

text \<open>\<^verbatim>\<open>CountUDPTunnels\<close> counts in a \<^verbatim>\<open>float64\<close>, exact up to \<open>2 ^ 53\<close>: a number here.\<close>

definition CountUDPTunnels :: "world \<Rightarrow> ((nat \<times> err option) \<times> world) go" where
  "CountUDPTunnels w = do {
     (r, w) \<leftarrow> dump UDPEncapDump
       (\<lambda>n m. case m of UDPEncapDetails _ \<Rightarrow> Some (Some (n + 1)) | _ \<Rightarrow> Some None) 0 w;
     (case r of Inl e \<Rightarrow> Some ((0, Some e), w) | Inr (e, n) \<Rightarrow> Some ((n, e), w))
   }"

definition CheckUDPTunnelTableEmpty :: "world \<Rightarrow> ((err + bool) \<times> world) go" where
  "CheckUDPTunnelTableEmpty w =
     bindE (dump_all UDPEncapDump
       (\<lambda>n m. case m of UDPEncapDetails _ \<Rightarrow> Some (Some (n + 1)) | _ \<Rightarrow> Some None) (0::int) w)
       (\<lambda>n. returnE (n = 0))"

definition dumped_tunnel :: "govpp \<Rightarrow> UDPEncap \<Rightarrow> VPPUDPTunnel" where
  "dumped_tunnel P u = \<lparr>tn_RoutingTableID = 0, tn_TunnelID = ue_ID u,
     tn_SrcIP = Address_String P (ue_SrcIP u), tn_DstIP = Address_String P (ue_DstIP u),
     tn_SrcPort = ue_SrcPort u, tn_DstPort = 0, tn_FIPServed = 0\<rparr>"

definition DumpUDPTunnels :: "govpp \<Rightarrow> world \<Rightarrow> ((VPPUDPTunnel list \<times> err option) \<times> world) go" where
  "DumpUDPTunnels P w = do {
     (r, w) \<leftarrow> dump UDPEncapDump (\<lambda>ts m. case m of
         UDPEncapDetails u \<Rightarrow> Some (Some (ts @ [dumped_tunnel P u]))
       | _ \<Rightarrow> Some None) [] w;
     (case r of Inl e \<Rightarrow> Some (([], Some e), w) | Inr (e, ts) \<Rightarrow> Some ((ts, e), w))
   }"

text \<open>The tunnel is passed by reference: the new value of it is returned.\<close>

definition AddUDPTunnel_vpp :: "govpp \<Rightarrow> VPPUDPTunnel \<Rightarrow> world \<Rightarrow> ((err + VPPUDPTunnel) \<times> world) go" where
  "AddUDPTunnel_vpp P u w =
     bindE (liftE (ParseAddress P (tn_SrcIP u)) w) (\<lambda>srcIP w.
     bindE (liftE (ParseAddress P (tn_DstIP u)) w) (\<lambda>dstIP w.
     bindE (roundtrip P (UDPEncapAdd \<lparr>ue_TableID = tn_RoutingTableID u, ue_SrcPort = tn_SrcPort u,
              ue_DstPort = tn_DstPort u, ue_SrcIP = srcIP, ue_DstIP = dstIP, ue_ID = 0\<rparr>)
              (\<lambda>m. case m of UDPEncapAddReply r i \<Rightarrow> Some (r, i) | _ \<Rightarrow> None) w) (\<lambda>i w.
     returnE (u\<lparr>tn_TunnelID := i\<rparr>) w)))"

definition DelUDPTunnel_vpp :: "govpp \<Rightarrow> u32 \<Rightarrow> world \<Rightarrow> ((err + unit) \<times> world) go" where
  "DelUDPTunnel_vpp P udpTunnelID = roundtrip P (UDPEncapDel udpTunnelID) re_UDPEncapDel"

definition AddUDPDecap :: "govpp \<Rightarrow> world \<Rightarrow> ((err + unit) \<times> world) go" where
  "AddUDPDecap P = roundtrip P (UDPDecapAddDel True 1 6635 ''UDP_API_DECAP_PROTO_MPLS'') re_UDPDecap"

section \<open>Floating IP routes\<close>

definition table_step :: "IPTable list \<Rightarrow> vpp_msg \<Rightarrow> IPTable list option go" where
  "table_step ts m = (case m of
      IPTableDetails t \<Rightarrow> Some (Some (if it_IsIP6 t then ts else ts @ [t]))
    | _ \<Rightarrow> Some None)"

definition route_tunnels :: "IPRouteV2 \<Rightarrow> u32 list" where
  "route_tunnels r = map (\<lambda>p. fp_ObjID p div 16777216) (rv_Paths r)"

definition route_labels :: "IPRouteV2 \<Rightarrow> u32 list" where
  "route_labels r = map (\<lambda>p. ml_Label (fp_Label0 p)) (rv_Paths r)"

definition route_nhs :: "govpp \<Rightarrow> IPRouteV2 \<Rightarrow> string list" where
  "route_nhs P r = map (\<lambda>p. IP4_String P (GetIP4 P (fp_Address p))) (rv_Paths r)"

text \<open>\<^verbatim>\<open>reply.Route.Paths[0]\<close> panics on a route without paths.\<close>

definition fip_dump_step :: "govpp \<Rightarrow> VPPIPRoute list \<Rightarrow> vpp_msg \<Rightarrow> VPPIPRoute list option go" where
  "fip_dump_step P rs m = (case m of
      IPRouteV2Details r \<Rightarrow> do {
        p0 \<leftarrow> at (rv_Paths r) 0;
        Some (Some (if fp_Type p0 = FIB_API_PATH_TYPE_UDP_ENCAP
          then rs @ [NewVPPIPRoute (rv_TableID r) (fp_SwIfIndex p0) UndefinedSubIf
                 (Prefix_String P (rv_Prefix r)) (route_nhs P r) (route_tunnels r) (route_labels r)]
          else rs))
      }
    | _ \<Rightarrow> Some None)"

fun dump_fip_tables :: "govpp \<Rightarrow> IPTable list \<Rightarrow> VPPIPRoute list \<Rightarrow> world
    \<Rightarrow> ((VPPIPRoute list \<times> err option) \<times> world) go" where
  "dump_fip_tables P [] rs w = Some ((rs, None), w)"
| "dump_fip_tables P (t # ts) rs w = do {
     (r, w) \<leftarrow> dump (IPRouteV2Dump t) (fip_dump_step P) rs w;
     (case r of
        Inl e \<Rightarrow> Some (([], Some e), w)
      | Inr (Some e, rs') \<Rightarrow> Some ((rs', Some e), w)
      | Inr (None, rs') \<Rightarrow> dump_fip_tables P ts rs' w)
   }"

definition DumpFIPRoutes :: "govpp \<Rightarrow> world \<Rightarrow> ((VPPIPRoute list \<times> err option) \<times> world) go" where
  "DumpFIPRoutes P w = do {
     (r, w) \<leftarrow> dump_all IPTableDump table_step [] w;
     (case r of Inl e \<Rightarrow> Some (([], Some e), w) | Inr ts \<Rightarrow> dump_fip_tables P ts [] w)
   }"

text \<open>Whether the route was found, and the route with its tunnels and labels filled in.\<close>

definition LookupFIPRoute :: "govpp \<Rightarrow> VPPIPRoute \<Rightarrow> world \<Rightarrow> ((err + (bool \<times> VPPIPRoute)) \<times> world) go" where
  "LookupFIPRoute P r w =
     bindE (liftE (ParsePrefix P (rt_Prefix r)) w) (\<lambda>prefix w.
     bindE (roundtrip P (IPRouteLookupV2 (rt_VRFID r) 0 prefix)
              (\<lambda>m. case m of IPRouteLookupV2Reply ret rv \<Rightarrow> Some (ret, rv) | _ \<Rightarrow> None) w) (\<lambda>rv w. do {
     p0 \<leftarrow> at (rv_Paths rv) 0;
     (if fp_Type p0 = FIB_API_PATH_TYPE_UDP_ENCAP
      then returnE (True, r\<lparr>rt_TunnelIDs := route_tunnels rv, rt_FIPMPLSLabels := route_labels rv\<rparr>) w
      else returnE (False, r) w)
   }))"

fun parse_nhs :: "govpp \<Rightarrow> string list \<Rightarrow> err + IP4Address list" where
  "parse_nhs P [] = Inr []"
| "parse_nhs P (n # ns) = (case ParseIP4Address P n of
      Inl e \<Rightarrow> Inl e
    | Inr a \<Rightarrow> (case parse_nhs P ns of Inl e \<Rightarrow> Inl e | Inr as \<Rightarrow> Inr (a # as)))"

fun first_undefined :: "u32 list \<Rightarrow> u32 option" where
  "first_undefined [] = None"
| "first_undefined (t # ts) = (if t = UndefinedTunnelID then Some t else first_undefined ts)"

definition fip_path :: "govpp \<Rightarrow> u32 \<Rightarrow> IP4Address \<Rightarrow> u32 \<Rightarrow> u32 \<Rightarrow> FibPath" where
  "fip_path P mainInterfaceID nh tunnelID label =
     \<lparr>fp_SwIfIndex = mainInterfaceID, fp_TableID = 0, fp_Type = FIB_API_PATH_TYPE_UDP_ENCAP,
      fp_Address = AddressUnionIP4 P nh, fp_ObjID = tunnelID, fp_NLabels = 1,
      fp_Label0 = \<lparr>ml_IsUniform = 0, ml_Label = label, ml_TTL = 64, ml_Exp = 0\<rparr>\<rparr>"

text \<open>The tunnel and label slices are indexed by the next hops and panic when shorter.\<close>

fun fip_paths :: "govpp \<Rightarrow> u32 \<Rightarrow> IP4Address list \<Rightarrow> u32 list \<Rightarrow> u32 list \<Rightarrow> FibPath list go" where
  "fip_paths P m [] ts ls = Some []"
| "fip_paths P m (n # ns) ts ls = do {
     t \<leftarrow> at ts 0;
     l \<leftarrow> at ls 0;
     ps \<leftarrow> fip_paths P m ns (tl ts) (tl ls);
     Some (fip_path P m n t l # ps)
   }"

definition AddDelFIPRoute :: "govpp \<Rightarrow> bool \<Rightarrow> VPPIPRoute \<Rightarrow> world \<Rightarrow> ((err + unit) \<times> world) go" where
  "AddDelFIPRoute P isAdd r w =
     (case first_undefined (rt_TunnelIDs r) of
        Some p \<Rightarrow> failE (Errorf (''wrong udp tunnel id '' @ itoa (unat p))) w
      | None \<Rightarrow>
          bindE (liftE (ParsePrefix P (rt_Prefix r)) w) (\<lambda>prefix w.
          bindE (liftE (parse_nhs P (rt_NextHops r)) w) (\<lambda>nhs w. do {
          paths \<leftarrow> fip_paths P (rt_MainInterfaceID r) nhs (rt_TunnelIDs r) (rt_FIPMPLSLabels r);
          roundtrip P (IPRouteAddDelV2 isAdd (length (rt_NextHops r) > 1)
            \<lparr>rv_TableID = rt_VRFID r, rv_Prefix = prefix, rv_NPaths = of_nat (length (rt_NextHops r)),
             rv_Src = 0, rv_Paths = paths\<rparr>) re_IPRoute w
        })))"

section \<open>MPLS routes and tables\<close>

definition AddDelMPLSLocalLabelRoute :: "govpp \<Rightarrow> bool \<Rightarrow> VPPVRFTable \<Rightarrow> world \<Rightarrow> ((err + unit) \<times> world) go" where
  "AddDelMPLSLocalLabelRoute P isAdd v w =
     bindE (liftE (ParseIP4Address P (vv_NextHop v)) w) (\<lambda>nh w.
     roundtrip P (MplsRouteAddDel isAdd False
       \<lparr>mr_TableID = 0, mr_Label = vv_MPLSLocalLabel v, mr_Eos = 1, mr_IsMulticast = False,
        mr_NPaths = 1,
        mr_Paths = [\<lparr>fp_SwIfIndex = vv_SubInterfaceID v, fp_TableID = 0,
          fp_Type = FIB_API_PATH_TYPE_NORMAL, fp_Address = AddressUnionIP4 P nh, fp_ObjID = 0,
          fp_NLabels = 0, fp_Label0 = zero_label\<rparr>]\<rparr>) re_MplsRoute w)"

definition DumpMPLSLocalLabelRoute :: "world \<Rightarrow> ((err + MplsRoute list) \<times> world) go" where
  "DumpMPLSLocalLabelRoute = dump_all (MplsRouteDump 0)
     (\<lambda>rs m. case m of MplsRouteDetails r \<Rightarrow> Some (Some (rs @ [r])) | _ \<Rightarrow> Some None) []"

definition GetRoutingTables :: "world \<Rightarrow> ((err + IPTable list) \<times> world) go" where
  "GetRoutingTables = dump_all IPTableDump table_step []"

section \<open>IP routes\<close>

text \<open>
  \<^verbatim>\<open>DumpIPRoutes\<close> fills one variable \<^verbatim>\<open>dumpedRoute\<close> over and over: its next hops are appended to and
  its interface fields kept from one route to the next. The state of the loop is that variable and
  the routes collected so far.
\<close>

definition is_external :: "govpp \<Rightarrow> IPRouteV2 \<Rightarrow> FibPath \<Rightarrow> bool" where
  "is_external P r p0 \<longleftrightarrow>
     fp_Type p0 = FIB_API_PATH_TYPE_NORMAL \<and>
     IP4_String P (GetIP4 P (fp_Address p0)) \<noteq> ''0.0.0.0'' \<and>
     Addr (Prefix_String P (rv_Prefix r)) \<noteq> IP4_String P (GetIP4 P (fp_Address p0)) \<and>
     MaskLen (Prefix_String P (rv_Prefix r)) \<noteq> 32"

definition fill_route :: "govpp \<Rightarrow> IPRouteV2 \<Rightarrow> FibPath \<Rightarrow> VPPIPRoute \<Rightarrow> VPPIPRoute" where
  "fill_route P r p0 d =
     (let d = d\<lparr>rt_VRFID := rv_TableID r, rt_Prefix := Prefix_String P (rv_Prefix r)\<rparr>;
          d = (if rt_VRFID d = 0 then d\<lparr>rt_MainInterfaceID := fp_SwIfIndex p0\<rparr>
               else d\<lparr>rt_SubInterfaceID := fp_SwIfIndex p0\<rparr>)
      in d\<lparr>rt_NextHops := rt_NextHops d @ route_nhs P r\<rparr>)"

definition ip_dump_step :: "govpp \<Rightarrow> VPPIPRoute \<times> VPPIPRoute list \<Rightarrow> vpp_msg
    \<Rightarrow> (VPPIPRoute \<times> VPPIPRoute list) option go" where
  "ip_dump_step P s m = (case m of
      IPRouteV2Details r \<Rightarrow> do {
        p0 \<leftarrow> at (rv_Paths r) 0;
        (if is_external P r p0
         then (let d = fill_route P r p0 (fst s) in Some (Some (d, snd s @ [d])))
         else Some (Some s))
      }
    | _ \<Rightarrow> Some None)"

fun dump_ip_tables :: "govpp \<Rightarrow> IPTable list \<Rightarrow> VPPIPRoute \<times> VPPIPRoute list \<Rightarrow> world
    \<Rightarrow> ((err + VPPIPRoute list) \<times> world) go" where
  "dump_ip_tables P [] s w = returnE (snd s) w"
| "dump_ip_tables P (t # ts) s w =
     bindE (dump_all (IPRouteV2Dump t) (ip_dump_step P) s w) (\<lambda>s w. dump_ip_tables P ts s w)"

definition zero_route :: VPPIPRoute where
  "zero_route = \<lparr>rt_VRFID = 0, rt_MainInterfaceID = 0, rt_SubInterfaceID = 0, rt_Prefix = '''',
     rt_NextHops = [], rt_TunnelIDs = [], rt_FIPMPLSLabels = []\<rparr>"

definition DumpIPRoutes :: "govpp \<Rightarrow> world \<Rightarrow> ((err + VPPIPRoute list) \<times> world) go" where
  "DumpIPRoutes P w =
     bindE (dump_all IPTableDump table_step [] w) (\<lambda>ts w. dump_ip_tables P ts (zero_route, []) w)"

definition count_step :: "nat \<times> nat \<Rightarrow> vpp_msg \<Rightarrow> (nat \<times> nat) option go" where
  "count_step c m = (case m of
      IPRouteV2Details r \<Rightarrow> do {
        p0 \<leftarrow> at (rv_Paths r) 0;
        Some (Some (if fp_Type p0 = FIB_API_PATH_TYPE_NORMAL then (fst c + 1, snd c)
          else if fp_Type p0 = FIB_API_PATH_TYPE_UDP_ENCAP then (fst c, snd c + 1)
          else c))
      }
    | _ \<Rightarrow> Some None)"

definition CountRoutesPerTable :: "IPTable \<Rightarrow> world \<Rightarrow> ((err + nat \<times> nat) \<times> world) go" where
  "CountRoutesPerTable tableID = dump_all (IPRouteV2Dump tableID) count_step (0, 0)"

definition ip_path :: "govpp \<Rightarrow> u32 \<Rightarrow> u32 \<Rightarrow> IP4Address \<Rightarrow> FibPath" where
  "ip_path P vrfID ifIndex nh =
     \<lparr>fp_SwIfIndex = ifIndex, fp_TableID = vrfID, fp_Type = FIB_API_PATH_TYPE_NORMAL,
      fp_Address = AddressUnionIP4 P nh, fp_ObjID = 0, fp_NLabels = 0, fp_Label0 = zero_label\<rparr>"

definition AddDelIPRoute :: "govpp \<Rightarrow> bool \<Rightarrow> VPPIPRoute \<Rightarrow> world \<Rightarrow> ((err + unit) \<times> world) go" where
  "AddDelIPRoute P isAdd r w =
     bindE (liftE (ParsePrefix P (rt_Prefix r)) w) (\<lambda>prefix w.
     bindE (liftE (parse_nhs P (rt_NextHops r)) w) (\<lambda>nhs w.
     (if rt_VRFID r \<noteq> 0 \<and> rt_SubInterfaceID r = UndefinedSubIf
      then failE (Errorf (''sub-interface '' @ itoa (unat (rt_SubInterfaceID r)) @ '' not defined'')) w
      else (let ifIndex = (if rt_VRFID r = 0 then rt_MainInterfaceID r else rt_SubInterfaceID r)
            in roundtrip P (IPRouteAddDelV2 isAdd True
                 \<lparr>rv_TableID = rt_VRFID r, rv_Prefix = prefix,
                  rv_NPaths = of_nat (length (rt_NextHops r)), rv_Src = 0,
                  rv_Paths = map (ip_path P (rt_VRFID r) ifIndex) nhs\<rparr>) re_IPRoute w))))"

definition AddBlackHoleIPRoute :: "govpp \<Rightarrow> VPPIPRoute \<Rightarrow> world \<Rightarrow> ((err + unit) \<times> world) go" where
  "AddBlackHoleIPRoute P r w =
     bindE (wrapE (''failed to parse prefix '' @ rt_Prefix r) (liftE (ParsePrefix P (rt_Prefix r)) w)) (\<lambda>prefix w.
     roundtrip P (IPRouteAddDelV2 True False
       \<lparr>rv_TableID = rt_VRFID r, rv_Prefix = prefix, rv_NPaths = 1, rv_Src = 9,
        rv_Paths = [\<lparr>fp_SwIfIndex = MaxUint32, fp_TableID = 0, fp_Type = FIB_API_PATH_TYPE_NORMAL,
          fp_Address = replicate 16 0, fp_ObjID = 0, fp_NLabels = 0, fp_Label0 = zero_label\<rparr>]\<rparr>)
       re_IPRoute w)"

section \<open>The dump of the routes\<close>

text \<open>The first path of a route decides; the routes the dump makes of the external ones, in order.\<close>

definition external :: "govpp \<Rightarrow> IPRouteV2 \<Rightarrow> bool" where
  "external P r \<longleftrightarrow> is_external P r (hd (rv_Paths r))"

fun filled :: "govpp \<Rightarrow> IPRouteV2 list \<Rightarrow> VPPIPRoute \<Rightarrow> VPPIPRoute list" where
  "filled P [] d = []"
| "filled P (r # rs) d = (let d' = fill_route P r (hd (rv_Paths r)) d in d' # filled P rs d')"

lemma length_filled [simp]: "length (filled P rs d) = length rs"
  by (induction rs arbitrary: d) (simp_all add: Let_def)

lemma filled_append: "filled P (rs @ ss) d = filled P rs d @ filled P ss (last (d # filled P rs d))"
  by (induction rs arbitrary: d) (simp_all add: Let_def)

lemma fill_route_fields:
  "rt_VRFID (fill_route P r p0 d) = rv_TableID r" "rt_Prefix (fill_route P r p0 d) = Prefix_String P (rv_Prefix r)"
  "rt_NextHops (fill_route P r p0 d) = rt_NextHops d @ route_nhs P r"
  by (simp_all add: fill_route_def Let_def)

lemma filled_nth:
  "k < length rs \<Longrightarrow> rt_VRFID (filled P rs d ! k) = rv_TableID (rs ! k) \<and>
     rt_Prefix (filled P rs d ! k) = Prefix_String P (rv_Prefix (rs ! k)) \<and>
     rt_NextHops (filled P rs d ! k) = rt_NextHops d @ concat (map (route_nhs P) (take (Suc k) rs))"
proof (induction rs arbitrary: d k)
  case (Cons r rs)
  show ?case
  proof (cases k)
    case 0
    then show ?thesis by (simp add: Let_def fill_route_fields)
  next
    case (Suc j)
    then show ?thesis using Cons.IH [of j] Cons.prems by (simp add: Let_def fill_route_fields)
  qed
qed simp

text \<open>The messages of one table, and of all of them.\<close>

definition table_replies :: "IPRouteV2 list \<Rightarrow> (err + vpp_msg) list" where
  "table_replies rs = map (\<lambda>r. Inr (IPRouteV2Details r)) rs @ [Inr ControlPingReply]"

lemma ip_dump_details:
  "rv_Paths r \<noteq> [] \<Longrightarrow> ip_dump_step P (d, out) (IPRouteV2Details r) = Some (Some
     (if external P r then (let d' = fill_route P r (hd (rv_Paths r)) d in (d', out @ [d'])) else (d, out)))"
  by (simp add: ip_dump_step_def external_def at_def hd_conv_nth Let_def)

lemma ip_recv_loop:
  "\<forall>r \<in> set rs. rv_Paths r \<noteq> [] \<Longrightarrow>
   recv_loop (ip_dump_step P) (table_replies rs @ later) (d, out) =
     Some (None, (last (d # filled P (filter (external P) rs) d), out @ filled P (filter (external P) rs) d), later)"
proof (induction rs arbitrary: d out)
  case (Cons r rs)
  have "rv_Paths r \<noteq> []" using Cons.prems by simp
  from ip_dump_details [OF this, of P d out] show ?case
    using Cons by (simp add: table_replies_def Let_def)
qed (simp add: table_replies_def)

lemma dump_ok:
  assumes "w_sends w = []" "recv_loop h (w_replies w) s = Some (None, s', rs)"
  shows "dump_all req h s w = Some (Inr s', w\<lparr>w_replies := rs, w_sent := w_sent w @ [req, ControlPing]\<rparr>)"
  using assms by (simp add: dump_all_def dump_def SendMsg_def returnE_def)

lemma dump_ip_tables_ok:
  "w_sends w = [] \<Longrightarrow> length rss = length ts \<Longrightarrow> \<forall>rs \<in> set rss. \<forall>r \<in> set rs. rv_Paths r \<noteq> [] \<Longrightarrow>
   w_replies w = concat (map table_replies rss) @ later \<Longrightarrow>
   \<exists>w'. dump_ip_tables P ts (d, out) w = Some (Inr (out @ filled P (filter (external P) (concat rss)) d), w') \<and>
     w_replies w' = later"
proof (induction ts arbitrary: rss w d out)
  case (Cons t ts)
  then obtain rs rss' where rss: "rss = rs # rss'" by (cases rss) auto
  let ?w = "w\<lparr>w_replies := concat (map table_replies rss') @ later, w_sent := w_sent w @ [IPRouteV2Dump t, ControlPing]\<rparr>"
  let ?d = "last (d # filled P (filter (external P) rs) d)" and ?out = "out @ filled P (filter (external P) rs) d"
  have "dump_all (IPRouteV2Dump t) (ip_dump_step P) (d, out) w = Some (Inr (?d, ?out), ?w)"
    by (rule dump_ok) (use Cons.prems rss ip_recv_loop in auto)
  moreover obtain w' where "dump_ip_tables P ts (?d, ?out) ?w =
      Some (Inr (?out @ filled P (filter (external P) (concat rss')) ?d), w')" "w_replies w' = later"
    using Cons.IH [of ?w rss' ?d ?out] Cons.prems rss by auto
  ultimately show ?case using rss by (simp add: filled_append)
qed (simp add: returnE_def)

lemma table_recv_loop:
  "recv_loop table_step (map (\<lambda>t. Inr (IPTableDetails t)) ts @ Inr ControlPingReply # later) out =
     Some (None, out @ filter (\<lambda>t. \<not> it_IsIP6 t) ts, later)"
  by (induction ts arbitrary: out) (simp_all add: table_step_def)

section \<open>Properties\<close>


definition text_bytes :: "string \<Rightarrow> u8 list" where
  "text_bytes s = map (\<lambda>c. of_char c) s"

definition sample_route :: "u32 \<Rightarrow> string \<Rightarrow> string \<Rightarrow> IPRouteV2" where
  "sample_route tbl prefix nh = \<lparr>rv_TableID = tbl, rv_Prefix = Prefix (Address 0 (text_bytes prefix)) 16, rv_NPaths = 1,
     rv_Src = 0, rv_Paths = [\<lparr>fp_SwIfIndex = 1, fp_TableID = 0, fp_Type = FIB_API_PATH_TYPE_NORMAL,
       fp_Address = text_bytes nh, fp_ObjID = 0, fp_NLabels = 0, fp_Label0 = zero_label\<rparr>]\<rparr>"


end
