(* ===== verification/Gobgp.thy ===== *)
theory Gobgp
  imports Vpp_Api
begin

text \<open>
  \<^verbatim>\<open>internal/repository/gobgp\<close>: the requests to the GoBGP server and the export policy. The server is part of the world: a call
  (\<open>bgp_call\<close>) is refused with an error or accepted and recorded. \<open>md5hex\<close> stands for the hash the
  policy names are made of. The policy's meaning is stated against an evaluation of statements as
  GoBGP documents it.
\<close>

section \<open>gobgp_struct.go\<close>

record BGPNLRIAttrs =
  na_Prefix :: string
  na_NextHop :: string
  na_VRFID :: u32
  na_AFI :: Afi
  na_SAFI :: Safi
  na_RD :: "any option"
  na_RT :: "any list"
  na_MPLSLabel :: "u32 list"

definition NewBGPNLRIAttrs ::
  "string \<Rightarrow> string \<Rightarrow> u32 \<Rightarrow> any option \<Rightarrow> any list \<Rightarrow> u32 list \<Rightarrow> BGPNLRIAttrs" where
  "NewBGPNLRIAttrs prefix nextHop vrfID rd rt mplsLabel =
     \<lparr>na_Prefix = prefix, na_NextHop = nextHop, na_VRFID = vrfID, na_AFI = AFI_IP,
      na_SAFI = SAFI_MPLS_VPN, na_RD = rd, na_RT = rt, na_MPLSLabel = mplsLabel\<rparr>"

text \<open>The zero value, returned where nothing was parsed.\<close>

definition zero_attrs :: BGPNLRIAttrs where
  "zero_attrs = \<lparr>na_Prefix = '''', na_NextHop = '''', na_VRFID = 0, na_AFI = AFI_UNKNOWN,
     na_SAFI = SAFI_UNKNOWN, na_RD = None, na_RT = [], na_MPLSLabel = []\<rparr>"

section \<open>gobgp.go: local configuration, VRFs, peers\<close>

definition SetGoBGPLocalConfig :: "u32 \<Rightarrow> string \<Rightarrow> int \<Rightarrow> world \<Rightarrow> err option \<times> world" where
  "SetGoBGPLocalConfig asn routerID bgpLocalPort = bgp_call (StartBgp asn routerID bgpLocalPort)"

definition GetGoBGPLocalConfig :: "world \<Rightarrow> err option \<times> world" where
  "GetGoBGPLocalConfig = bgp_call GetBgp"

definition AddGoBGPVRF :: "BGPVRFTable \<Rightarrow> world \<Rightarrow> err option \<times> world" where
  "AddGoBGPVRF vrf = bgp_call (AddVrf \<lparr>gv_Name = bv_Name vrf, gv_Id = bv_ID vrf, gv_Rd = bv_RD vrf,
     gv_ImportRt = bv_ImportRT vrf, gv_ExportRt = bv_ExportRT vrf\<rparr>)"

definition DelGoBGPVRF :: "string \<Rightarrow> world \<Rightarrow> err option \<times> world" where
  "DelGoBGPVRF vrfName = bgp_call (DeleteVrf vrfName)"

definition AddBGPPeer_srv :: "BGPPeer \<Rightarrow> world \<Rightarrow> err option \<times> world" where
  "AddBGPPeer_srv peer = bgp_call (AddPeer
     \<lparr>gp_NeighborAddress = bp_PeerAddress peer, gp_PeerAsn = bp_PeerASN peer,
      gp_AuthPassword = bp_Md5Password peer, gp_Vrf = bp_VRFName peer,
      gp_MultihopEnabled = bp_EbgpMultiHop peer, gp_MultihopTtl = bp_EbgpMultiHopTTL peer,
      gp_KeepaliveInterval = bp_KeepAliveTimer peer, gp_HoldTime = bp_HoldTimer peer,
      gp_RemotePort = bp_PeerPort peer, gp_Afi = bp_AFI peer, gp_Safi = bp_SAFI peer\<rparr>)"

definition DelBGPPeer :: "BGPPeer \<Rightarrow> world \<Rightarrow> err option \<times> world" where
  "DelBGPPeer peer = bgp_call (DeletePeer (bp_PeerAddress peer))"

section \<open>gobgp.go: prefixes\<close>

text \<open>The path of an IPv4 unicast prefix and of a VPNv4 prefix.\<close>

definition ipv4_path :: "BGPNLRIAttrs \<Rightarrow> Path" where
  "ipv4_path a =
     \<lparr>p_Nlri = IPAddressPrefix (Addr (na_Prefix a)) (MaskLen (na_Prefix a)),
      p_Pattrs = [OriginAttribute 2, NextHopAttribute (na_NextHop a)],
      p_Afi = AFI_IP, p_Safi = SAFI_UNICAST, p_IsWithdraw = False, p_SourceAsn = 0,
      p_NeighborIp = ''''\<rparr>"

text \<open>\<^verbatim>\<open>rt[0]\<close> panics when there is no route target.\<close>

definition vpnv4_path :: "BGPNLRIAttrs \<Rightarrow> u32 \<Rightarrow> Path go" where
  "vpnv4_path a sourceASN = do {
     rt \<leftarrow> at (na_RT a) 0;
     (let nlri = LabeledVPNIPAddressPrefix (na_MPLSLabel a) (na_RD a) (Addr (na_Prefix a)) (MaskLen (na_Prefix a))
      in Some \<lparr>p_Nlri = nlri,
           p_Pattrs = [OriginAttribute 2, MultiExitDiscAttribute 0, LocalPrefAttribute 100,
             ExtendedCommunitiesAttribute [rt, EncapExtended 13],
             MpReachNLRIAttribute AFI_IP SAFI_MPLS_VPN [nlri] [na_NextHop a],
             AsPathAttribute [(2, [sourceASN])]],
           p_Afi = AFI_IP, p_Safi = SAFI_MPLS_VPN, p_IsWithdraw = False, p_SourceAsn = 0,
           p_NeighborIp = ''''\<rparr>)
   }"

definition AdvWdrawIPv4Prefix :: "bool \<Rightarrow> BGPNLRIAttrs \<Rightarrow> world \<Rightarrow> err option \<times> world" where
  "AdvWdrawIPv4Prefix isAdvertise a w =
     (if isAdvertise then bgp_call (BgpAddPath GLOBAL (ipv4_path a)) w
      else bgp_call (BgpDeletePath GLOBAL (ipv4_path a)) w)"

definition AdvWdrawVpnv4Prefix :: "bool \<Rightarrow> BGPNLRIAttrs \<Rightarrow> u32 \<Rightarrow> world \<Rightarrow> (err option \<times> world) go" where
  "AdvWdrawVpnv4Prefix isAdvertise a sourceASN w = do {
     p \<leftarrow> vpnv4_path a sourceASN;
     Some (if isAdvertise then bgp_call (BgpAddPath GLOBAL p) w
           else bgp_call (BgpDeletePath GLOBAL p) w)
   }"

section \<open>gobgp.go: policies\<close>

definition CreateGoBGPPrefixSet :: "string \<Rightarrow> u32 \<Rightarrow> u32 \<Rightarrow> world \<Rightarrow> (err + DefinedSet) \<times> world" where
  "CreateGoBGPPrefixSet prefix minMaskLen maxMaskLen w =
     (let dsName = join ''-'' [prefix, itoa (unat minMaskLen), itoa (unat maxMaskLen)];
          ds = PrefixSet dsName prefix minMaskLen maxMaskLen
      in case bgp_call (AddDefinedSet ds) w of
           (Some e, w) \<Rightarrow> (Inl e, w)
         | (None, w) \<Rightarrow> (Inr ds, w))"

definition CreateGoBGPNeighborSet :: "string list \<Rightarrow> world \<Rightarrow> (err + DefinedSet) \<times> world" where
  "CreateGoBGPNeighborSet neighbors w =
     (let ds = NeighborSet (join ''-'' neighbors) neighbors
      in case bgp_call (AddDefinedSet ds) w of
           (Some e, w) \<Rightarrow> (Inl e, w)
         | (None, w) \<Rightarrow> (Inr ds, w))"

text \<open>This one only builds a value; its error is always \<^verbatim>\<open>nil\<close>.\<close>

definition CreateGoBGPNPolicyStatements ::
  "(string \<Rightarrow> string) \<Rightarrow> DefinedSet \<Rightarrow> DefinedSet \<Rightarrow> RouteAction \<Rightarrow> Statement" where
  "CreateGoBGPNPolicyStatements md5hex prefixSet neighborSet action =
     \<lparr>sm_Name = md5hex (join ''-'' [ds_Name prefixSet, ds_Name neighborSet]),
      sm_PrefixSet = ds_Name prefixSet, sm_NeighborSet = ds_Name neighborSet,
      sm_RouteAction = action\<rparr>"

definition AddBGPGlobalExportPolicy ::
  "(string \<Rightarrow> string) \<Rightarrow> Statement list \<Rightarrow> RouteAction \<Rightarrow> world \<Rightarrow> (err + unit) \<times> world" where
  "AddBGPGlobalExportPolicy md5hex statements defaultAction w =
     (let name = md5hex (concat (map sm_Name statements))
      in case bgp_call (AddPolicy name statements) w of
           (Some e, w) \<Rightarrow> (Inl e, w)
         | (None, w) \<Rightarrow>
             (case bgp_call (AddPolicyAssignment ''global'' name statements defaultAction) w of
                (Some e, w) \<Rightarrow> (Inl e, w)
              | (None, w) \<Rightarrow> (Inr (), w)))"

definition CreateGoBGPPolicy ::
  "(string \<Rightarrow> string) \<Rightarrow> string list \<Rightarrow> string list \<Rightarrow> world \<Rightarrow> ((err + unit) \<times> world) go" where
  "CreateGoBGPPolicy md5hex allTFControllerIPs allPhyNetRouterIPs w =
     bindE (wrapE ''failed to create prefix set'' (Some (CreateGoBGPPrefixSet ''0.0.0.0/0'' 32 32 w)))
       (\<lambda>allHostRoutes w.
     bindE (wrapE ''failed to create prefix set'' (Some (CreateGoBGPPrefixSet ''0.0.0.0/0'' 0 0 w)))
       (\<lambda>defaultRoute w.
     bindE (wrapE ''failed to create prefix set'' (Some (CreateGoBGPPrefixSet ''0.0.0.0/0'' 1 32 w)))
       (\<lambda>allExceptDefaultRoute w.
     bindE (wrapE ''failed to create neighbor set'' (Some (CreateGoBGPNeighborSet allTFControllerIPs w)))
       (\<lambda>allTFControllers w.
     bindE (wrapE ''failed to create neighbor set'' (Some (CreateGoBGPNeighborSet allPhyNetRouterIPs w)))
       (\<lambda>allPhyNetRouters w.
     (let st1 = CreateGoBGPNPolicyStatements md5hex allHostRoutes allPhyNetRouters REJECT;
          st2 = CreateGoBGPNPolicyStatements md5hex defaultRoute allPhyNetRouters REJECT;
          st3 = CreateGoBGPNPolicyStatements md5hex allExceptDefaultRoute allTFControllers REJECT
      in wrapE ''failed to add global export policy''
           (Some (AddBGPGlobalExportPolicy md5hex [st1, st2, st3] ACCEPT w))))))))"

text \<open>\<^verbatim>\<open>NumDestination\<close> of the answer is the parameter \<open>n\<close>.\<close>

definition UpdateGoBGPPerPeerMetrics ::
  "nat \<Rightarrow> TableType \<Rightarrow> Afi \<Rightarrow> Safi \<Rightarrow> string \<Rightarrow> world \<Rightarrow> (err + nat) \<times> world" where
  "UpdateGoBGPPerPeerMetrics n tableType afi safi bgpPeer w =
     (case bgp_call (GetTable tableType afi safi bgpPeer) w of
        (Some e, w) \<Rightarrow> (Inl e, w)
      | (None, w) \<Rightarrow> (Inr n, w))"

section \<open>What a policy does\<close>

text \<open>
  Evaluation of an export policy, for a route of mask length \<open>n\<close> to a neighbor: the first statement
  whose two sets both match decides, else the default action. A prefix set with \<^verbatim>\<open>0.0.0.0/0\<close> matches
  every prefix whose length is in its range. The sets are looked up by name among those defined of
  their kind.
\<close>

fun prefix_set_matches :: "DefinedSet list \<Rightarrow> string \<Rightarrow> u32 \<Rightarrow> bool" where
  "prefix_set_matches [] name n \<longleftrightarrow> False"
| "prefix_set_matches (PrefixSet m p lo hi # ds) name n \<longleftrightarrow>
     (if m = name then p = ''0.0.0.0/0'' \<and> lo \<le> n \<and> n \<le> hi else prefix_set_matches ds name n)"
| "prefix_set_matches (NeighborSet m ns # ds) name n \<longleftrightarrow> prefix_set_matches ds name n"

fun neighbor_set_matches :: "DefinedSet list \<Rightarrow> string \<Rightarrow> string \<Rightarrow> bool" where
  "neighbor_set_matches [] name nb \<longleftrightarrow> False"
| "neighbor_set_matches (NeighborSet m ns # ds) name nb \<longleftrightarrow>
     (if m = name then nb \<in> set ns else neighbor_set_matches ds name nb)"
| "neighbor_set_matches (PrefixSet m p lo hi # ds) name nb \<longleftrightarrow> neighbor_set_matches ds name nb"

fun policy_action :: "DefinedSet list \<Rightarrow> Statement list \<Rightarrow> RouteAction \<Rightarrow> u32 \<Rightarrow> string \<Rightarrow> RouteAction" where
  "policy_action sets [] dflt n nb = dflt"
| "policy_action sets (s # ss) dflt n nb =
     (if prefix_set_matches sets (sm_PrefixSet s) n \<and> neighbor_set_matches sets (sm_NeighborSet s) nb
      then sm_RouteAction s else policy_action sets ss dflt n nb)"

text \<open>The sets and the export policy of the global table among the requests a server accepted.\<close>

definition defined_sets :: "bgp_req list \<Rightarrow> DefinedSet list" where
  "defined_sets rs = List.map_filter (\<lambda>r. case r of AddDefinedSet d \<Rightarrow> Some d | _ \<Rightarrow> None) rs"

definition assigned :: "bgp_req list \<Rightarrow> (Statement list \<times> RouteAction) list" where
  "assigned rs = List.map_filter (\<lambda>r. case r of
     AddPolicyAssignment scope name sts dflt \<Rightarrow> if scope = ''global'' then Some (sts, dflt) else None
   | _ \<Rightarrow> None) rs"

definition exported :: "bgp_req list \<Rightarrow> u32 \<Rightarrow> string \<Rightarrow> bool" where
  "exported rs n nb \<longleftrightarrow> (case assigned rs of
      [] \<Rightarrow> True
    | (sts, dflt) # _ \<Rightarrow> policy_action (defined_sets rs) sts dflt n nb = ACCEPT)"

section \<open>Lemmas\<close>

lemma bgp_call_frame:
  "w_acked (snd (bgp_call req w)) = w_acked w" "w_sent (snd (bgp_call req w)) = w_sent w"
  "w_sends (snd (bgp_call req w)) = w_sends w" "w_replies (snd (bgp_call req w)) = w_replies w"
  "w_rands (snd (bgp_call req w)) = w_rands w"
  by (simp_all add: bgp_call_def split: list.split option.split)

lemma bgp_call_log: "bgp_call req w = (r, w') \<Longrightarrow> w_bgp w' = (if r = None then w_bgp w @ [req] else w_bgp w)"
  by (auto simp: bgp_call_def split: list.splits option.splits)

lemma prefix_set_log:
  "CreateGoBGPPrefixSet p lo hi w = (Inr ds, w') \<Longrightarrow>
     ds = PrefixSet (join ''-'' [p, itoa (unat lo), itoa (unat hi)]) p lo hi \<and> w_bgp w' = w_bgp w @ [AddDefinedSet ds]"
  by (auto simp: CreateGoBGPPrefixSet_def Let_def dest: bgp_call_log split: prod.splits option.splits)

lemma neighbor_set_log:
  "CreateGoBGPNeighborSet ns w = (Inr ds, w') \<Longrightarrow>
     ds = NeighborSet (join ''-'' ns) ns \<and> w_bgp w' = w_bgp w @ [AddDefinedSet ds]"
  by (auto simp: CreateGoBGPNeighborSet_def Let_def dest: bgp_call_log split: prod.splits option.splits)

lemma export_policy_log:
  "AddBGPGlobalExportPolicy h sts d w = (Inr (), w') \<Longrightarrow>
     w_bgp w' = w_bgp w @ [AddPolicy (h (concat (map sm_Name sts))) sts,
       AddPolicyAssignment ''global'' (h (concat (map sm_Name sts))) sts d]"
  by (auto simp: AddBGPGlobalExportPolicy_def Let_def dest!: bgp_call_log split: prod.splits option.splits)

lemma wrapE_InrD: "wrapE m c = Some (Inr a, w) \<Longrightarrow> c = Some (Inr a, w)"
  by (auto simp: wrapE_def split: Option.bind_splits sum.splits)

lemma itoa_policy: "itoa 32 = ''32''" "itoa 0 = ''0''" "itoa (Suc 0) = ''1''"
  by code_simp+

abbreviation any_name :: "string \<Rightarrow> string \<Rightarrow> string" where
  "any_name lo hi \<equiv> join ''-'' [''0.0.0.0/0'', lo, hi]"

definition policy_requests :: "(string \<Rightarrow> string) \<Rightarrow> string list \<Rightarrow> string list \<Rightarrow> bgp_req list" where
  "policy_requests h tf pn =
     (let hosts = PrefixSet (any_name ''32'' ''32'') ''0.0.0.0/0'' 32 32;
          default = PrefixSet (any_name ''0'' ''0'') ''0.0.0.0/0'' 0 0;
          others = PrefixSet (any_name ''1'' ''32'') ''0.0.0.0/0'' 1 32;
          tfs = NeighborSet (join ''-'' tf) tf; pns = NeighborSet (join ''-'' pn) pn;
          sts = [CreateGoBGPNPolicyStatements h hosts pns REJECT,
                 CreateGoBGPNPolicyStatements h default pns REJECT,
                 CreateGoBGPNPolicyStatements h others tfs REJECT];
          name = h (concat (map sm_Name sts))
      in map AddDefinedSet [hosts, default, others, tfs, pns]
           @ [AddPolicy name sts, AddPolicyAssignment ''global'' name sts ACCEPT])"

lemma CreateGoBGPPolicy_log:
  assumes "CreateGoBGPPolicy h tf pn w = Some (Inr (), w')"
  shows "w_bgp w' = w_bgp w @ policy_requests h tf pn"
  using assms unfolding CreateGoBGPPolicy_def Let_def
  apply (elim bindE_InrE)
  apply (drule wrapE_InrD)+
  apply (simp only: option.inject)
  apply (drule prefix_set_log)+
  apply (drule neighbor_set_log)+
  apply (drule export_policy_log)
  apply (simp add: itoa_policy policy_requests_def Let_def)
  done

lemma policy_sets: "defined_sets (policy_requests h tf pn) =
    [PrefixSet (any_name ''32'' ''32'') ''0.0.0.0/0'' 32 32, PrefixSet (any_name ''0'' ''0'') ''0.0.0.0/0'' 0 0,
     PrefixSet (any_name ''1'' ''32'') ''0.0.0.0/0'' 1 32, NeighborSet (join ''-'' tf) tf, NeighborSet (join ''-'' pn) pn]"
  by (simp add: defined_sets_def policy_requests_def Let_def List.map_filter_simps)

lemma policy_assigned: "\<exists>n1 n2 n3. assigned (policy_requests h tf pn) =
    [([\<lparr>sm_Name = n1, sm_PrefixSet = any_name ''32'' ''32'', sm_NeighborSet = join ''-'' pn, sm_RouteAction = REJECT\<rparr>,
       \<lparr>sm_Name = n2, sm_PrefixSet = any_name ''0'' ''0'', sm_NeighborSet = join ''-'' pn, sm_RouteAction = REJECT\<rparr>,
       \<lparr>sm_Name = n3, sm_PrefixSet = any_name ''1'' ''32'', sm_NeighborSet = join ''-'' tf, sm_RouteAction = REJECT\<rparr>], ACCEPT)]"
  by (simp add: assigned_def policy_requests_def CreateGoBGPNPolicyStatements_def Let_def List.map_filter_simps)

lemma map_filter_append: "List.map_filter f (xs @ ys) = List.map_filter f xs @ List.map_filter f ys"
  by (induction xs) (auto simp: List.map_filter_simps split: option.splits)

lemma policy_exported:
  assumes join: "join ''-'' tf \<noteq> join ''-'' pn" and n: "n \<le> 32" and pre: "defined_sets pre = []" "assigned pre = []"
  shows "exported (pre @ policy_requests h tf pn) n nb \<longleftrightarrow>
      \<not> (nb \<in> set pn \<and> (n = 0 \<or> n = 32)) \<and> \<not> (nb \<in> set tf \<and> n \<noteq> 0)"
proof -
  obtain n1 n2 n3 where a: "assigned (policy_requests h tf pn) =
    [([\<lparr>sm_Name = n1, sm_PrefixSet = any_name ''32'' ''32'', sm_NeighborSet = join ''-'' pn, sm_RouteAction = REJECT\<rparr>,
       \<lparr>sm_Name = n2, sm_PrefixSet = any_name ''0'' ''0'', sm_NeighborSet = join ''-'' pn, sm_RouteAction = REJECT\<rparr>,
       \<lparr>sm_Name = n3, sm_PrefixSet = any_name ''1'' ''32'', sm_NeighborSet = join ''-'' tf, sm_RouteAction = REJECT\<rparr>], ACCEPT)]"
    using policy_assigned by blast
  have 1: "1 \<le> n \<longleftrightarrow> n \<noteq> 0" by (simp add: word_le_nat_alt Suc_le_eq unat_gt_0)
  have 32: "32 \<le> n \<longleftrightarrow> n = 32" using n by auto
  have app: "defined_sets (pre @ policy_requests h tf pn) = defined_sets (policy_requests h tf pn)"
    "assigned (pre @ policy_requests h tf pn) = assigned (policy_requests h tf pn)"
    using pre by (simp_all add: defined_sets_def assigned_def map_filter_append)
  show ?thesis
    using join 1 32 by (auto simp: exported_def app a policy_sets)
qed

lemma CreateGoBGPPolicy_accepted:
  assumes "w_bgps w = []"
  shows "CreateGoBGPPolicy h tf pn w = Some (Inr (), w\<lparr>w_bgp := w_bgp w @ policy_requests h tf pn\<rparr>)"
  using assms
  by (simp add: CreateGoBGPPolicy_def CreateGoBGPPrefixSet_def CreateGoBGPNeighborSet_def bgp_call_def wrapE_def
      AddBGPGlobalExportPolicy_def Let_def policy_requests_def itoa_policy)

section \<open>Properties\<close>



end
