(* ===== verification/Parse_Update.thy ===== *)
theory Parse_Update
  imports Gobgp
begin

text \<open>
  \<^verbatim>\<open>parse_bgp_update.go\<close>, \<^verbatim>\<open>parse_bgp_update_tf.go\<close>, \<^verbatim>\<open>parse_bgp_update_phynet.go\<close>: reading a BGP
  update. The path's attributes are marshalled to JSON and read back field by field; both libraries
  (\<^verbatim>\<open>protojson\<close>, \<^verbatim>\<open>gjson\<close>) are the record \<open>J\<close>, over their own type of results. The result of a parse is
  the pair of source flags, the attributes and the error, as in the code.
\<close>

record 'j json =
  Marshal :: "any \<Rightarrow> err + string"
  gj_Get :: "string \<Rightarrow> string \<Rightarrow> 'j"
  gj_Parse :: "string \<Rightarrow> 'j"
  gj_String :: "'j \<Rightarrow> string"
  gj_Int :: "'j \<Rightarrow> int"
  gj_Array :: "'j \<Rightarrow> 'j list"
  gj_Field :: "'j \<Rightarrow> string \<Rightarrow> 'j"
  gj_Exists :: "'j \<Rightarrow> bool"

type_synonym parsed = "bool \<times> bool \<times> BGPNLRIAttrs \<times> err option"

section \<open>Fields of the prefix\<close>

definition parsed_len :: "'j json \<Rightarrow> string \<Rightarrow> 'j" where
  "parsed_len J nlri =
     (let l = gj_Get J nlri ''prefix_len'' in if gj_String J l = '''' then gj_Parse J ''0'' else l)"

definition parsed_prefix :: "'j json \<Rightarrow> string \<Rightarrow> string" where
  "parsed_prefix J nlri = gj_String J (gj_Get J nlri ''prefix'') @ ''/'' @ gj_String J (parsed_len J nlri)"

section \<open>parse_bgp_update_tf.go\<close>

text \<open>
  The loop over the communities: the first one that carries the controller's AS number and a known
  VRF as its local administrator decides; a number that does not parse ends the loop with an error.
\<close>

fun find_community :: "'j json \<Rightarrow> (u32 \<rightharpoonup> string) \<Rightarrow> u32 \<Rightarrow> nat \<Rightarrow> string \<Rightarrow> 'j list \<Rightarrow> parsed" where
  "find_community J vrfs tfASN pattrsLen nlri [] = (False, False, zero_attrs, None)"
| "find_community J vrfs tfASN pattrsLen nlri (c # cs) =
     (let parsedASN = gj_Field J c ''asn'' in
      if \<not> gj_Exists J parsedASN then find_community J vrfs tfASN pattrsLen nlri cs
      else case Atoi (gj_String J parsedASN) of
        Inl e \<Rightarrow> (False, False, zero_attrs, Some e)
      | Inr asn \<Rightarrow>
          (case Atoi (gj_String J (gj_Field J c ''local_admin'')) of
             Inl e \<Rightarrow> (False, False, zero_attrs, Some e)
           | Inr localAdmin \<Rightarrow>
               if asn = uint tfASN \<and> vrfs (word_of_int localAdmin) \<noteq> None then
                 (if pattrsLen < 5
                  then (False, False, zero_attrs, Some (Errorf ''wrong bgp update nlri pattrs length''))
                  else (True, False,
                    NewBGPNLRIAttrs (parsed_prefix J nlri) (gj_String J (gj_Get J nlri ''rd.admin''))
                      (word_of_int localAdmin) None [] [word_of_int (gj_Int J (gj_Get J nlri ''labels.0''))],
                    None))
               else find_community J vrfs tfASN pattrsLen nlri cs))"

definition ParseVPNv4UpdateFromTF ::
  "'j json \<Rightarrow> string \<Rightarrow> (u32 \<rightharpoonup> string) \<Rightarrow> u32 \<Rightarrow> nat \<Rightarrow> string \<Rightarrow> parsed" where
  "ParseVPNv4UpdateFromTF J nlri vrfs tfASN pattrsLen pattrsCommunities =
     (if pattrsLen < 4
      then (False, False, zero_attrs, Some (Errorf ''wrong bgp update nlri pattrs length''))
      else find_community J vrfs tfASN pattrsLen nlri
             (gj_Array J (gj_Get J pattrsCommunities ''communities'')))"

section \<open>parse_bgp_update_phynet.go\<close>

text \<open>
  \<open>entries\<close> are the entries of the map from VRF to next hop in the order in which this loop over
  the map visits them: Go leaves that order open.
\<close>

fun vrf_of_neighbor :: "(u32 \<times> string) list \<Rightarrow> string \<Rightarrow> u32" where
  "vrf_of_neighbor [] ip = 0"
| "vrf_of_neighbor ((v, nh) # es) ip = (if ip = nh then v else vrf_of_neighbor es ip)"

definition ParseVPNv4UpdateFromPHYNET ::
  "'j json \<Rightarrow> string \<Rightarrow> (u32 \<times> string) list \<Rightarrow> u32 \<Rightarrow> u32 \<Rightarrow> string \<Rightarrow> parsed" where
  "ParseVPNv4UpdateFromPHYNET J nlri entries cloudgwASN sourceASN neighborIP =
     (False, True,
      (if sourceASN \<noteq> cloudgwASN
       then NewBGPNLRIAttrs (parsed_prefix J nlri) neighborIP (vrf_of_neighbor entries neighborIP)
              None [] [UndefinedLabel]
       else zero_attrs),
      None)"

section \<open>parse_bgp_update.go\<close>

text \<open>The attribute slice is indexed with 3 before its length is checked: a panic when shorter.\<close>

definition ParseBGPUpdate ::
  "'j json \<Rightarrow> Path \<Rightarrow> (u32 \<rightharpoonup> string) \<Rightarrow> (u32 \<times> string) list \<Rightarrow> (string \<rightharpoonup> int) \<Rightarrow> u32 \<Rightarrow> u32 \<Rightarrow> parsed go" where
  "ParseBGPUpdate J path vrfs entries peerTypes tfASN cloudgwASN =
     (case peerTypes (p_NeighborIp path) of
        None \<Rightarrow> Some (False, False, zero_attrs, None)
      | Some peerType \<Rightarrow>
          (case Marshal J (p_Nlri path) of
             Inl e \<Rightarrow> Some (False, False, zero_attrs, Some e)
           | Inr nlri \<Rightarrow>
               if peerType = TF then do {
                 a3 \<leftarrow> at (p_Pattrs path) 3;
                 (case Marshal J a3 of
                    Inl e \<Rightarrow> Some (False, False, zero_attrs, Some e)
                  | Inr cs \<Rightarrow> Some (ParseVPNv4UpdateFromTF J nlri vrfs tfASN (length (p_Pattrs path)) cs))
               }
               else if peerType = PHYNET
               then Some (ParseVPNv4UpdateFromPHYNET J nlri entries cloudgwASN (p_SourceAsn path)
                            (p_NeighborIp path))
               else Some (False, False, zero_attrs, None)))"

section \<open>What a parse yields\<close>

text \<open>
  A community names a VRF when its fields are numbers, its AS number is the controller's and its
  local administrator, cut to 32 bits, is a configured VRF. It is skipped when it has no AS number,
  or has one and is well formed but names no VRF.
\<close>

definition names_vrf :: "'j json \<Rightarrow> (u32 \<rightharpoonup> string) \<Rightarrow> u32 \<Rightarrow> 'j \<Rightarrow> u32 \<Rightarrow> bool" where
  "names_vrf J vrfs tfASN c v \<longleftrightarrow> gj_Exists J (gj_Field J c ''asn'') \<and>
     Atoi (gj_String J (gj_Field J c ''asn'')) = Inr (uint tfASN) \<and>
     (\<exists>n. Atoi (gj_String J (gj_Field J c ''local_admin'')) = Inr n \<and> v = word_of_int n) \<and> vrfs v \<noteq> None"

definition well_formed_community :: "'j json \<Rightarrow> 'j \<Rightarrow> bool" where
  "well_formed_community J c \<longleftrightarrow> gj_Exists J (gj_Field J c ''asn'') \<longrightarrow>
     (\<exists>n. Atoi (gj_String J (gj_Field J c ''asn'')) = Inr n) \<and>
     (\<exists>n. Atoi (gj_String J (gj_Field J c ''local_admin'')) = Inr n)"

lemma find_community_TF:
  "find_community J vrfs tfASN n nlri cs = (True, b, a, e) \<Longrightarrow>
     \<not> b \<and> e = None \<and> 5 \<le> n \<and> (\<exists>c \<in> set cs. names_vrf J vrfs tfASN c (na_VRFID a)) \<and>
     na_Prefix a = parsed_prefix J nlri \<and> na_NextHop a = gj_String J (gj_Get J nlri ''rd.admin'') \<and>
     na_MPLSLabel a = [word_of_int (gj_Int J (gj_Get J nlri ''labels.0''))]"
proof (induction cs)
  case (Cons c cs)
  then show ?case
    by (auto simp: Let_def NewBGPNLRIAttrs_def names_vrf_def split: if_splits sum.splits)
qed simp

lemma find_community_none:
  "\<forall>c \<in> set cs. well_formed_community J c \<and> (\<forall>v. \<not> names_vrf J vrfs tfASN c v) \<Longrightarrow>
     find_community J vrfs tfASN n nlri cs = (False, False, zero_attrs, None)"
  by (induction cs) (auto simp: Let_def well_formed_community_def names_vrf_def split: sum.splits)

lemma find_community_first:
  assumes "\<forall>c \<in> set pre. well_formed_community J c \<and> (\<forall>v. \<not> names_vrf J vrfs tfASN c v)"
    "names_vrf J vrfs tfASN c v" "5 \<le> n"
  shows "find_community J vrfs tfASN n nlri (pre @ c # post) =
     (True, False, NewBGPNLRIAttrs (parsed_prefix J nlri) (gj_String J (gj_Get J nlri ''rd.admin'')) v None []
        [word_of_int (gj_Int J (gj_Get J nlri ''labels.0''))], None)"
  using assms
  by (induction pre) (auto simp: Let_def well_formed_community_def names_vrf_def split: sum.splits)

lemma vrf_of_neighbor_in: "vrf_of_neighbor es ip = v \<Longrightarrow> v = 0 \<or> (v, ip) \<in> set es"
  by (induction es) (auto split: if_splits)

lemma parsed_prefix_nonempty [simp]: "parsed_prefix J nlri \<noteq> ''''" "[] \<noteq> parsed_prefix J nlri"
  by (simp_all add: parsed_prefix_def)

text \<open>
  What a parse that reports an update from a controller guarantees: the handler relies on the VRF
  being a key of the map, on a single label and on a prefix that is not empty.
\<close>

lemma ParseBGPUpdate_TF:
  assumes "ParseBGPUpdate J path vrfs entries peers tfASN asn = Some (True, b, a, e)"
  shows "peers (p_NeighborIp path) = Some TF \<and> vrfs (na_VRFID a) \<noteq> None \<and> na_Prefix a \<noteq> '''' \<and>
     (\<exists>l. na_MPLSLabel a = [l]) \<and> e = None \<and> \<not> b"
  using assms
  by (auto simp: ParseBGPUpdate_def ParseVPNv4UpdateFromTF_def ParseVPNv4UpdateFromPHYNET_def
        names_vrf_def dest!: find_community_TF split: option.splits sum.splits if_splits Option.bind_splits)

section \<open>Properties\<close>


text \<open>
  A reader on which the parsers can be run: a result is a list of named values, the unnamed one being
  its own text; every NLRI is that of 203.0.113.7/32 with label 77, from 10.0.0.1.
\<close>

definition own_text :: "(string \<times> string) list \<Rightarrow> string" where
  "own_text r = (case map_of r '''' of None \<Rightarrow> '''' | Some t \<Rightarrow> t)"

definition sample_field :: "string \<Rightarrow> string" where
  "sample_field k = (case map_of [(''prefix'', ''203.0.113.7''), (''prefix_len'', ''32''),
     (''rd.admin'', ''10.0.0.1''), (''labels.0'', ''77'')] k of None \<Rightarrow> '''' | Some t \<Rightarrow> t)"

definition sample_json :: "(string \<times> string) list json" where
  "sample_json = \<lparr>Marshal = (\<lambda>a. case a of OtherAny t \<Rightarrow> Inr t | _ \<Rightarrow> Inr ''nlri''),
     gj_Get = (\<lambda>t k. if t = ''nlri'' then [('''', sample_field k)]
                     else [(''asn'', ''64512''), (''local_admin'', ''1'')]),
     gj_Parse = (\<lambda>t. [('''', t)]),
     gj_String = own_text,
     gj_Int = (\<lambda>r. case Atoi (own_text r) of Inl _ \<Rightarrow> 0 | Inr n \<Rightarrow> n),
     gj_Array = (\<lambda>r. [r]),
     gj_Field = (\<lambda>r k. case map_of r k of None \<Rightarrow> [] | Some v \<Rightarrow> [('''', v)]),
     gj_Exists = (\<lambda>r. r \<noteq> [])\<rparr>"

definition sample_path :: "bool \<Rightarrow> Path" where
  "sample_path withdraw = \<lparr>p_Nlri = OtherAny ''nlri'',
     p_Pattrs = [OriginAttribute 2, OriginAttribute 2, OriginAttribute 2, OtherAny ''attrs'', OriginAttribute 2],
     p_Afi = AFI_IP, p_Safi = SAFI_MPLS_VPN, p_IsWithdraw = withdraw, p_SourceAsn = 64512,
     p_NeighborIp = ''10.0.0.9''\<rparr>"


end
