(* ===== verification/Config.thy ===== *)
theory Config
  imports Prelude
begin

text \<open>
  \<^verbatim>\<open>internal/config/config.go\<close>: the configuration file. \<^verbatim>\<open>ParseConfig\<close>, which reads it, is one call of
  a library.
\<close>

record Logging_cfg =
  lo_Level :: string
  lo_Format :: string
  lo_Output :: string
  lo_Source :: bool

record HTTP_cfg =
  ht_Enable :: bool
  ht_Address :: string

record Pyroscope_cfg =
  py_Enable :: bool
  py_URL :: string

record TFController_cfg =
  tf_BGPPeerASN :: u32
  tf_BGPTTL :: u32
  tf_BGPKeepAlive :: u64
  tf_BGPHoldTimer :: u64
  tf_Address :: "string list"

record GoBGP_cfg =
  gb_GRPCListenAddress :: string
  gb_BGPLocalASN :: u32
  gb_BGPLocalPort :: int
  gb_RID :: string
  gb_MetricPollingInterval :: int

record VPP_cfg =
  vc_BinAPISock :: string
  vc_MainInterfaceID :: u32
  vc_TunLocalIP :: string
  vc_TunDefaultGW :: string
  vc_InterfaceMonitorEnable :: bool
  vc_MetricPollingInterval :: int

record VRF_cfg =
  vr_FIPPrefixes :: "string list"
  vr_VRFName :: string
  vr_VRFID :: u32
  vr_LocalIP :: string
  vr_VLANID :: u32
  vr_BGPPeerIP :: string
  vr_BGPPeerASN :: u32
  vr_BGPTTL :: u32
  vr_BGPKeepAlive :: u64
  vr_BGPHoldTimer :: u64
  vr_BGPPassword :: string
  vr_BFDEnable :: bool
  vr_BFDLocalIP :: string
  vr_BFDTxRate :: int
  vr_BFDRxMin :: int
  vr_BFDMultiplier :: int

record Config =
  cfg_Logging :: Logging_cfg
  cfg_HTTP :: HTTP_cfg
  cfg_Pyroscope :: Pyroscope_cfg
  cfg_TFController :: TFController_cfg
  cfg_GoBGP :: GoBGP_cfg
  cfg_VPP :: VPP_cfg
  cfg_VRF :: "VRF_cfg list"

end
