(* ===== verification/Fip_Service.thy ===== *)
theory Fip_Service
  imports Imdb Vpp Parse_Update Config
begin

text \<open>
  \<^verbatim>\<open>internal/service\<close>, the floating IPs: creating and removing a floating IP with its tunnels
  (\<^verbatim>\<open>tunnel_route_add.go\<close>, \<^verbatim>\<open>tunnel_route_remove.go\<close>) and the handler of the updates from the
  controllers (\<^verbatim>\<open>handle_bgp_update.go\<close>). The state is the storage and the world; logging is left out.
  The lemmas describe each operation by its effect on the views of the storage, and the invariant
  \<open>fip_inv\<close> ties routes, tunnels and counters together.
\<close>

section \<open>tunnel_route_add.go\<close>

definition set_at :: "'a list \<Rightarrow> nat \<Rightarrow> 'a \<Rightarrow> 'a list go" where
  "set_at xs i x = (if i < length xs then Some (xs[i := x]) else panic)"

text \<open>
  The loop over the next hops: the tunnel ids found or created are written into the route's slice.
  \<open>None\<close> for the ids is the early return when VPP refuses a tunnel. An error of the storage is only
  logged.
\<close>

fun ensure_tunnels :: "'d memdb \<Rightarrow> govpp \<Rightarrow> Config \<Rightarrow> (nat \<times> string) list \<Rightarrow> u32 list \<Rightarrow> 'd storage \<Rightarrow> world
    \<Rightarrow> (u32 list option \<times> 'd storage \<times> world) go" where
  "ensure_tunnels M P cfg [] tids s w = Some (Some tids, s, w)"
| "ensure_tunnels M P cfg ((i, nh) # nhs) tids s w =
     (if IsUDPTunnelExist M (st_tuns s) nh then
        (case GetUDPTunnel M (st_tuns s) nh of
           None \<Rightarrow> panic
         | Some u \<Rightarrow> do {
             tids \<leftarrow> set_at tids i (tn_TunnelID u);
             ensure_tunnels M P cfg nhs tids s w
           })
      else
        (let (rand, w) = next_rand w;
             new = NewVPPUDPTunnel UndefinedTunnelID (Addr (vc_TunLocalIP (cfg_VPP cfg))) nh
               (RandUDPTunnelSrcPort rand)
         in do {
           (res, w) \<leftarrow> AddUDPTunnel_vpp P new w;
           (case res of
              Inl e \<Rightarrow> Some (None, s, w)
            | Inr u \<Rightarrow> do {
                tids \<leftarrow> set_at tids i (tn_TunnelID u);
                ensure_tunnels M P cfg nhs tids (s\<lparr>st_tuns := snd (AddUDPTunnel M u (st_tuns s))\<rparr>) w
              })
         }))"

text \<open>
  The aggregated prefixes of a VRF, advertised to or withdrawn from the physical network; the error
  of one is logged and the loop goes on.
\<close>

definition aggregate_attrs :: "VPPVRFTable \<Rightarrow> BGPVRFTable \<Rightarrow> string \<Rightarrow> BGPNLRIAttrs" where
  "aggregate_attrs v b prefix =
     NewBGPNLRIAttrs prefix (vv_LocalAddr v) 0 (bv_RD b) (bv_ImportRT b) [UndefinedLabel]"

fun aggregates :: "bool \<Rightarrow> Config \<Rightarrow> VPPVRFTable \<Rightarrow> BGPVRFTable \<Rightarrow> string list \<Rightarrow> world \<Rightarrow> world go" where
  "aggregates adv cfg v b [] w = Some w"
| "aggregates adv cfg v b (prefix # prefixes) w = do {
     (e, w) \<leftarrow> AdvWdrawVpnv4Prefix adv (aggregate_attrs v b prefix) (tf_BGPPeerASN (cfg_TFController cfg)) w;
     aggregates adv cfg v b prefixes w
   }"

text \<open>The part that follows the route's creation in VPP.\<close>

definition store_fip :: "'d memdb \<Rightarrow> VPPIPRoute \<Rightarrow> 'd storage \<Rightarrow> 'd storage" where
  "store_fip M r s = s\<lparr>st_fips := snd (AddFIPRoute M r (st_fips s)),
     st_vvrfs := VRF_IncFIPServed M (rt_VRFID r) (st_vvrfs s),
     st_tuns := fold (Tunnel_IncFIPServed M) (rt_NextHops r) (st_tuns s)\<rparr>"

definition AddFIPAndTunnelInVPPAndStorage :: "'d memdb \<Rightarrow> govpp \<Rightarrow> Config \<Rightarrow> VPPIPRoute
    \<Rightarrow> VPPVRFTable \<Rightarrow> BGPVRFTable \<Rightarrow> 'd storage \<Rightarrow> world \<Rightarrow> ('d storage \<times> world) go" where
  "AddFIPAndTunnelInVPPAndStorage M P cfg r v b s w = do {
     (ids, s, w) \<leftarrow> ensure_tunnels M P cfg (enumerate 0 (rt_NextHops r)) (rt_TunnelIDs r) s w;
     (case ids of
        None \<Rightarrow> Some (s, w)
      | Some tids \<Rightarrow>
          (let r = r\<lparr>rt_TunnelIDs := tids\<rparr> in do {
             (res, w) \<leftarrow> AddDelFIPRoute P True r w;
             (case res of
                Inl e \<Rightarrow> Some (s, w)
              | Inr _ \<Rightarrow> do {
                  nh0 \<leftarrow> at (rt_NextHops r) 0;
                  (let s = store_fip M r s in
                   if VRF_GetFIPServed M (st_vvrfs s) (rt_VRFID r) > 2 then Some (s, w)
                   else do {
                     w \<leftarrow> aggregates True cfg v b (vv_FIPPrefixes v) w;
                     Some (s, w)
                   })
                })
           }))
   }"

section \<open>tunnel_route_remove.go\<close>

definition unstore_fip :: "'d memdb \<Rightarrow> VPPIPRoute \<Rightarrow> 'd storage \<Rightarrow> 'd storage" where
  "unstore_fip M r s = s\<lparr>st_fips := snd (DelFIPRoute M (rt_Prefix r) (st_fips s)),
     st_vvrfs := VRF_DecFIPServed M (rt_VRFID r) (st_vvrfs s),
     st_tuns := fold (Tunnel_DecFIPServed M) (rt_NextHops r) (st_tuns s)\<rparr>"

fun delete_idle_tunnels :: "'d memdb \<Rightarrow> govpp \<Rightarrow> (nat \<times> string) list \<Rightarrow> u32 list \<Rightarrow> 'd storage \<Rightarrow> world
    \<Rightarrow> ('d storage \<times> world) go" where
  "delete_idle_tunnels M P [] tids s w = Some (s, w)"
| "delete_idle_tunnels M P ((i, nh) # nhs) tids s w =
     (if Tunnel_GetFIPServed M (st_tuns s) nh = 0 then do {
        tid \<leftarrow> at tids i;
        (res, w) \<leftarrow> DelUDPTunnel_vpp P tid w;
        delete_idle_tunnels M P nhs tids (s\<lparr>st_tuns := snd (DelUDPTunnel M nh (st_tuns s))\<rparr>) w
      }
      else delete_idle_tunnels M P nhs tids s w)"

definition DelFIPAndTunnelFromVPPAndStorage :: "'d memdb \<Rightarrow> govpp \<Rightarrow> Config \<Rightarrow> VPPIPRoute
    \<Rightarrow> VPPVRFTable \<Rightarrow> BGPVRFTable \<Rightarrow> 'd storage \<Rightarrow> world \<Rightarrow> ('d storage \<times> world) go" where
  "DelFIPAndTunnelFromVPPAndStorage M P cfg r v b s w = do {
     (res, w) \<leftarrow> AddDelFIPRoute P False r w;
     nh0 \<leftarrow> (case res of Inl e \<Rightarrow> Some '''' | Inr _ \<Rightarrow> at (rt_NextHops r) 0);
     (s, w) \<leftarrow> delete_idle_tunnels M P (enumerate 0 (rt_NextHops r)) (rt_TunnelIDs r) (unstore_fip M r s) w;
     (if VRF_GetFIPServed M (st_vvrfs s) (rt_VRFID r) = 0 then do {
        w \<leftarrow> aggregates False cfg v b (vv_FIPPrefixes v) w;
        Some (s, w)
      }
      else Some (s, w))
   }"

section \<open>handle_bgp_update.go: updates from the controllers\<close>

text \<open>
  The tables computed before the watch starts. An \<^verbatim>\<open>Inl\<close> is one of the \<^verbatim>\<open>logger.Fatal\<close> exits.
\<close>

record handler_env =
  he_peerTypes :: "string \<rightharpoonup> int"
  he_vrfNextHops :: "u32 \<rightharpoonup> string"
  he_aggregates :: "ipnet list"

fun parse_aggregates :: "string list \<Rightarrow> err + ipnet list" where
  "parse_aggregates [] = Inr []"
| "parse_aggregates (p # ps) = (case ParseCIDR p of
      Inl e \<Rightarrow> Inl e
    | Inr (_, n) \<Rightarrow> (case parse_aggregates ps of Inl e \<Rightarrow> Inl e | Inr ns \<Rightarrow> Inr (n # ns)))"

definition prepare_handler :: "'d memdb \<Rightarrow> 'd storage \<Rightarrow> err + handler_env" where
  "prepare_handler M s = (case CreateBGPPeerToTypeMap M (st_peers s) of
      Inl e \<Rightarrow> Inl e
    | Inr types \<Rightarrow> (case CreateVRFIDToNextHopMap M (st_vvrfs s) of
        Inl e \<Rightarrow> Inl e
      | Inr nhs \<Rightarrow> (let vrfs = VPP_GetVRFs M (st_vvrfs s) in
          if vrfs = [] then Inl (Errorf ''failed to get vpp vrfs from memory storage'')
          else (case parse_aggregates (concat (map vv_FIPPrefixes vrfs)) of
              Inl e \<Rightarrow> Inl e
            | Inr nets \<Rightarrow> Inr \<lparr>he_peerTypes = types, he_vrfNextHops = nhs, he_aggregates = nets\<rparr>))))"

definition tf_withdraw :: "'d memdb \<Rightarrow> govpp \<Rightarrow> Config \<Rightarrow> string \<Rightarrow> string \<Rightarrow> u32
    \<Rightarrow> VPPVRFTable \<Rightarrow> BGPVRFTable \<Rightarrow> 'd storage \<Rightarrow> world \<Rightarrow> ('d storage \<times> world) go" where
  "tf_withdraw M P cfg prefix nextHop label v b s w = do {
     known \<leftarrow> IsFIPWithNHAndLabelExist M (st_fips s) prefix nextHop label;
     (if \<not> known then Some (s, w)
      else case GetUDPTunnel M (st_tuns s) nextHop of
        None \<Rightarrow> Some (s, w)
      | Some tunnel \<Rightarrow> (case GetFIPRoute M (st_fips s) prefix of
          None \<Rightarrow> panic
        | Some stored \<Rightarrow> do {
            (s, w) \<leftarrow> DelFIPAndTunnelFromVPPAndStorage M P cfg stored v b s w;
            (if length (rt_NextHops stored) = 1 then Some (s, w)
             else do {
               rest \<leftarrow> DelPath stored nextHop;
               AddFIPAndTunnelInVPPAndStorage M P cfg rest v b s w
             })
          }))
   }"

definition tf_advertise :: "'d memdb \<Rightarrow> govpp \<Rightarrow> Config \<Rightarrow> ipnet list \<Rightarrow> VPPIPRoute \<Rightarrow> string \<Rightarrow> u32
    \<Rightarrow> VPPVRFTable \<Rightarrow> BGPVRFTable \<Rightarrow> 'd storage \<Rightarrow> world \<Rightarrow> ('d storage \<times> world) go" where
  "tf_advertise M P cfg nets received nextHop label v b s w =
     (if \<not> IsFIP (rt_Prefix received) nets then Some (s, w)
      else do {
        known \<leftarrow> IsFIPWithNHAndLabelExist M (st_fips s) (rt_Prefix received) nextHop label;
        (if known then Some (s, w)
         else case GetFIPRoute M (st_fips s) (rt_Prefix received) of
           None \<Rightarrow> AddFIPAndTunnelInVPPAndStorage M P cfg received v b s w
         | Some stored \<Rightarrow> do {
             (s, w) \<leftarrow> DelFIPAndTunnelFromVPPAndStorage M P cfg stored v b s w;
             extended \<leftarrow> AddPath stored nextHop UndefinedTunnelID label;
             AddFIPAndTunnelInVPPAndStorage M P cfg extended v b s w
           })
      })"

text \<open>One path of a table event, from the check of its neighbor to the end of the iteration.\<close>

definition handle_tf_path :: "'d memdb \<Rightarrow> govpp \<Rightarrow> 'j json \<Rightarrow> Config \<Rightarrow> handler_env \<Rightarrow> (u32 \<times> string) list
    \<Rightarrow> Path \<Rightarrow> 'd storage \<Rightarrow> world \<Rightarrow> ('d storage \<times> world) go" where
  "handle_tf_path M P J cfg env entries path s w =
     (if IsConfiguredBGPPeer M (st_peers s) (p_NeighborIp path) \<and> IsPHYNET M (st_peers s) (p_NeighborIp path)
      then Some (s, w)
      else do {
        (fromTF, fromPN, a, e) \<leftarrow> ParseBGPUpdate J path (he_vrfNextHops env) entries (he_peerTypes env)
          (tf_BGPPeerASN (cfg_TFController cfg)) (gb_BGPLocalASN (cfg_GoBGP cfg));
        (if e \<noteq> None \<or> \<not> fromTF then Some (s, w)
         else case VPP_GetVRF M (st_vvrfs s) (na_VRFID a) of
           None \<Rightarrow> Some (s, w)
         | Some v \<Rightarrow> (case BGP_GetVRF M (st_bvrfs s) (na_VRFID a) of
             None \<Rightarrow> Some (s, w)
           | Some b \<Rightarrow> do {
               label \<leftarrow> at (na_MPLSLabel a) 0;
               (if p_IsWithdraw path
                then tf_withdraw M P cfg (na_Prefix a) (na_NextHop a) label v b s w
                else tf_advertise M P cfg (he_aggregates env)
                       (NewVPPIPRoute (na_VRFID a) (vc_MainInterfaceID (cfg_VPP cfg)) (vv_SubInterfaceID v)
                          (na_Prefix a) [na_NextHop a] [UndefinedTunnelID] [label])
                       (na_NextHop a) label v b s w)
             }))
      })"

text \<open>
  The paths of the events in the order they arrive; \<open>entries\<close> is a parameter of each, as Go
  iterates over a map anew each time.
\<close>

fun handle_tf_paths :: "'d memdb \<Rightarrow> govpp \<Rightarrow> 'j json \<Rightarrow> Config \<Rightarrow> handler_env
    \<Rightarrow> ((u32 \<times> string) list \<times> Path) list \<Rightarrow> 'd storage \<Rightarrow> world \<Rightarrow> ('d storage \<times> world) go" where
  "handle_tf_paths M P J cfg env [] s w = Some (s, w)"
| "handle_tf_paths M P J cfg env ((entries, path) # rest) s w = do {
     (s, w) \<leftarrow> handle_tf_path M P J cfg env entries path s w;
     handle_tf_paths M P J cfg env rest s w
   }"

section \<open>Worlds\<close>

text \<open>A step that talks to VPP only: it leaves the GoBGP server alone.\<close>

definition bgp_quiet :: "world \<Rightarrow> world \<Rightarrow> bool" where
  "bgp_quiet w w' \<longleftrightarrow> w_bgp w' = w_bgp w \<and> w_bgps w' = w_bgps w"

lemma bgp_quiet_refl [simp]: "bgp_quiet w w"
  by (simp add: bgp_quiet_def)

lemma bgp_quiet_trans: "bgp_quiet w w' \<Longrightarrow> bgp_quiet w' w'' \<Longrightarrow> bgp_quiet w w''"
  by (simp add: bgp_quiet_def)

lemma vpp_only_quiet: "vpp_only w w' \<Longrightarrow> bgp_quiet w w'"
  by (simp add: vpp_only_def bgp_quiet_def)

lemma next_rand_quiet: "next_rand w = (r, w') \<Longrightarrow> bgp_quiet w w'"
  by (auto simp: next_rand_def bgp_quiet_def split: list.splits)

lemma AddUDPTunnel_vpp_ok:
  assumes "AddUDPTunnel_vpp P u w = Some (Inr u', w')"
  shows "\<exists>i. u' = u\<lparr>tn_TunnelID := i\<rparr> \<and> bgp_quiet w w'" "\<exists>a. ParseAddress P (tn_DstIP u) = Inr a"
  using assms
  by (auto simp: AddUDPTunnel_vpp_def liftE_def returnE_def elim!: bindE_InrE
      dest!: roundtrip_cases vpp_only_quiet)

lemma AddUDPTunnel_vpp_quiet: "AddUDPTunnel_vpp P u w = Some (r, w') \<Longrightarrow> bgp_quiet w w'"
  by (auto simp: AddUDPTunnel_vpp_def liftE_def returnE_def elim!: bindE_SomeE
      dest!: roundtrip_cases vpp_only_quiet)

lemma DelUDPTunnel_vpp_quiet: "DelUDPTunnel_vpp P i w = Some (r, w') \<Longrightarrow> bgp_quiet w w'"
  by (auto simp: DelUDPTunnel_vpp_def dest!: roundtrip_cases vpp_only_quiet)

lemma AddDelFIPRoute_quiet: "AddDelFIPRoute P adv r w = Some (x, w') \<Longrightarrow> bgp_quiet w w'"
  by (auto simp: AddDelFIPRoute_def liftE_def failE_def elim!: bindE_SomeE
      dest!: roundtrip_cases vpp_only_quiet split: option.splits Option.bind_splits)

lemma first_undefined_None: "first_undefined ts = None \<longleftrightarrow> UndefinedTunnelID \<notin> set ts"
  by (induction ts) auto

lemma AddDelFIPRoute_defined:
  "AddDelFIPRoute P adv r w = Some (Inr x, w') \<Longrightarrow> UndefinedTunnelID \<notin> set (rt_TunnelIDs r)"
  by (auto simp: AddDelFIPRoute_def failE_def first_undefined_None split: option.splits)

section \<open>The invariant\<close>

text \<open>
  The floating IPs a vRouter serves and those of a VRF, among the stored routes \<open>F\<close>. The invariant:
  a stored route is well formed, its next hops all have a stored tunnel, whose id it uses, and none
  of these ids is the undefined one; the counter of a tunnel is the number of floating IPs of its
  vRouter and the counter of a VRF the number of its floating IPs.
\<close>

definition served :: "(string \<rightharpoonup> VPPIPRoute) \<Rightarrow> string \<Rightarrow> string set" where
  "served F nh = {p. \<exists>r. F p = Some r \<and> nh \<in> set (rt_NextHops r)}"

definition in_vrf :: "(string \<rightharpoonup> VPPIPRoute) \<Rightarrow> u32 \<Rightarrow> string set" where
  "in_vrf F i = {p. \<exists>r. F p = Some r \<and> rt_VRFID r = i}"

definition route_ok :: "(string \<rightharpoonup> VPPUDPTunnel) \<Rightarrow> VPPIPRoute \<Rightarrow> bool" where
  "route_ok T r \<longleftrightarrow> wf_route r \<and> rt_NextHops r \<noteq> [] \<and> UndefinedTunnelID \<notin> set (rt_TunnelIDs r) \<and>
     (\<forall>j < length (rt_NextHops r). \<exists>u. T (rt_NextHops r ! j) = Some u \<and> rt_TunnelIDs r ! j = tn_TunnelID u)"

definition fip_inv ::
  "(string \<rightharpoonup> VPPIPRoute) \<Rightarrow> (string \<rightharpoonup> VPPUDPTunnel) \<Rightarrow> (u32 \<rightharpoonup> VPPVRFTable) \<Rightarrow> bool" where
  "fip_inv F T V \<longleftrightarrow> finite (dom F) \<and> card (dom F) < 2 ^ 32 \<and>
     (\<forall>p r. F p = Some r \<longrightarrow> route_ok T r) \<and>
     (\<forall>nh u. T nh = Some u \<longrightarrow> unat (tn_FIPServed u) = card (served F nh)) \<and>
     (\<forall>i v. V i = Some v \<longrightarrow> unat (vv_FIPServed v) = card (in_vrf F i))"

lemma served_subset: "served F nh \<subseteq> dom F"
  by (auto simp: served_def)

lemma in_vrf_subset: "in_vrf F i \<subseteq> dom F"
  by (auto simp: in_vrf_def)

lemma served_add: "F p = None \<Longrightarrow> served (F(p \<mapsto> r)) nh = (if nh \<in> set (rt_NextHops r) then insert p (served F nh) else served F nh)"
  by (auto simp: served_def)

lemma in_vrf_add: "F p = None \<Longrightarrow> in_vrf (F(p \<mapsto> r)) i = (if i = rt_VRFID r then insert p (in_vrf F i) else in_vrf F i)"
  by (auto simp: in_vrf_def)

lemma served_del: "F p = Some r \<Longrightarrow> served (F(p := None)) nh = (if nh \<in> set (rt_NextHops r) then served F nh - {p} else served F nh)"
  by (auto simp: served_def)

lemma in_vrf_del: "F p = Some r \<Longrightarrow> in_vrf (F(p := None)) i = (if i = rt_VRFID r then in_vrf F i - {p} else in_vrf F i)"
  by (auto simp: in_vrf_def)

lemma unat_suc: "unat (n :: u32) = c \<Longrightarrow> Suc c < 2 ^ 32 \<Longrightarrow> unat (n + 1) = Suc c"
  by (simp add: unat_word_ariths)

lemma unat_dec32: "unat (dec32 n) = unat n - 1"
  by (cases "n = 0") (auto simp: dec32_def unat_minus_one)

text \<open>The abstract steps: adding a route to the three views, and removing one.\<close>

definition add_tunnels :: "string set \<Rightarrow> (string \<rightharpoonup> VPPUDPTunnel) \<Rightarrow> string \<rightharpoonup> VPPUDPTunnel" where
  "add_tunnels S T = (\<lambda>d. if d \<in> S then map_option tun_inc (T d) else T d)"

definition drop_tunnels :: "string set \<Rightarrow> (string \<rightharpoonup> VPPUDPTunnel) \<Rightarrow> string \<rightharpoonup> VPPUDPTunnel" where
  "drop_tunnels S T = (\<lambda>d. if d \<in> S then (case T d of None \<Rightarrow> None
      | Some u \<Rightarrow> if unat (tn_FIPServed u) \<le> 1 then None else Some (tun_dec u)) else T d)"

lemma fip_inv_add:
  assumes inv: "fip_inv F T V" and p: "F p = None" and r: "route_ok T r" and n: "Suc (card (dom F)) < 2 ^ 32"
  shows "fip_inv (F(p \<mapsto> r)) (add_tunnels (set (rt_NextHops r)) T) (bump vrf_inc (rt_VRFID r) V)"
proof -
  have fin: "finite (served F nh)" "finite (in_vrf F i)" for nh i
    using inv finite_subset [OF served_subset] finite_subset [OF in_vrf_subset] by (auto simp: fip_inv_def)
  have le: "card (served F nh) \<le> card (dom F)" "card (in_vrf F i) \<le> card (dom F)" for nh i
    using inv by (simp_all add: fip_inv_def card_mono [OF _ served_subset] card_mono [OF _ in_vrf_subset])
  have new: "p \<notin> served F nh" "p \<notin> in_vrf F i" for nh i using p by (auto simp: served_def in_vrf_def)
  have same: "\<exists>v. add_tunnels S T d = Some v \<and> tn_TunnelID v = tn_TunnelID u" if "T d = Some u" for S d u
    using that by (simp add: add_tunnels_def)
  show ?thesis
    unfolding fip_inv_def
  proof (intro conjI allI impI)
    show "finite (dom (F(p \<mapsto> r)))" using inv by (simp add: fip_inv_def)
    show "card (dom (F(p \<mapsto> r))) < 2 ^ 32" using inv n p by (simp add: fip_inv_def domIff)
    show "route_ok (add_tunnels (set (rt_NextHops r)) T) q" if "(F(p \<mapsto> r)) p' = Some q" for p' q
    proof -
      have "route_ok T q" using that inv r by (auto simp: fip_inv_def split: if_splits)
      then show ?thesis using same unfolding route_ok_def by metis
    qed
    show "unat (tn_FIPServed u) = card (served (F(p \<mapsto> r)) nh)"
      if t: "add_tunnels (set (rt_NextHops r)) T nh = Some u" for nh u
    proof (cases "nh \<in> set (rt_NextHops r)")
      case True
      with t obtain u0 where u0: "T nh = Some u0" "u = tun_inc u0" by (auto simp: add_tunnels_def)
      then have "unat (tn_FIPServed u0) = card (served F nh)" using inv by (auto simp: fip_inv_def)
      then have "unat (tn_FIPServed u0 + 1) = Suc (card (served F nh))"
        using le(1) [of nh] n by (intro unat_suc) auto
      then show ?thesis using u0 True fin new p by (simp add: served_add)
    next
      case False
      then show ?thesis using t inv p by (auto simp: add_tunnels_def fip_inv_def served_add)
    qed
    show "unat (vv_FIPServed v) = card (in_vrf (F(p \<mapsto> r)) i)"
      if t: "bump vrf_inc (rt_VRFID r) V i = Some v" for i v
    proof (cases "i = rt_VRFID r")
      case True
      with t obtain v0 where v0: "V i = Some v0" "v = vrf_inc v0" by (auto simp: bump_def)
      then have "unat (vv_FIPServed v0) = card (in_vrf F i)" using inv by (auto simp: fip_inv_def)
      then have "unat (vv_FIPServed v0 + 1) = Suc (card (in_vrf F i))"
        using le(2) [of i] n by (intro unat_suc) auto
      then show ?thesis using v0 True fin new p by (simp add: in_vrf_add)
    next
      case False
      then show ?thesis using t inv p by (auto simp: bump_def fip_inv_def in_vrf_add)
    qed
  qed
qed

lemma fip_inv_del:
  assumes inv: "fip_inv F T V" and p: "F p = Some r"
  shows "fip_inv (F(p := None)) (drop_tunnels (set (rt_NextHops r)) T) (bump vrf_dec (rt_VRFID r) V)"
proof -
  have fin: "finite (served F nh)" "finite (in_vrf F i)" for nh i
    using inv finite_subset [OF served_subset] finite_subset [OF in_vrf_subset] by (auto simp: fip_inv_def)
  have tun: "unat (tn_FIPServed u) = card (served F nh)" if "T nh = Some u" for nh u
    using that inv by (auto simp: fip_inv_def)
  show ?thesis
    unfolding fip_inv_def
  proof (intro conjI allI impI)
    show "finite (dom (F(p := None)))" using inv by (simp add: fip_inv_def)
    have "card (dom F - {p}) \<le> card (dom F)" by (rule card_Diff1_le)
    moreover have "card (dom F) < 2 ^ 32" using inv by (simp add: fip_inv_def)
    ultimately show "card (dom (F(p := None))) < 2 ^ 32"
      by (metis dom_fun_upd le_less_trans)
    show "route_ok (drop_tunnels (set (rt_NextHops r)) T) q" if q: "(F(p := None)) p' = Some q" for p' q
    proof -
      have Fq: "F p' = Some q" "p' \<noteq> p" using q by (auto split: if_splits)
      then have ok: "route_ok T q" using inv by (auto simp: fip_inv_def)
      have keep: "\<exists>v. drop_tunnels (set (rt_NextHops r)) T d = Some v \<and> tn_TunnelID v = tn_TunnelID u"
        if d: "d \<in> set (rt_NextHops q)" and u: "T d = Some u" for d u
      proof (cases "d \<in> set (rt_NextHops r)")
        case True
        then have "{p, p'} \<subseteq> served F d" using Fq p d by (auto simp: served_def)
        then have "card {p, p'} \<le> card (served F d)" by (rule card_mono [OF fin(1)])
        then have "\<not> unat (tn_FIPServed u) \<le> 1" using tun [OF u] Fq(2) by auto
        then show ?thesis using True u by (simp add: drop_tunnels_def)
      qed (use u in \<open>simp add: drop_tunnels_def\<close>)
      show ?thesis using ok keep unfolding route_ok_def by (metis nth_mem)
    qed
    show "unat (tn_FIPServed u) = card (served (F(p := None)) nh)"
      if t: "drop_tunnels (set (rt_NextHops r)) T nh = Some u" for nh u
    proof (cases "nh \<in> set (rt_NextHops r)")
      case True
      with t obtain u0 where u0: "T nh = Some u0" "u = tun_dec u0"
        by (auto simp: drop_tunnels_def split: option.splits if_splits)
      have "p \<in> served F nh" using p True by (auto simp: served_def)
      then show ?thesis using u0 tun [OF u0(1)] True fin p by (simp add: served_del unat_dec32)
    next
      case False
      then show ?thesis using t tun p by (auto simp: drop_tunnels_def served_del)
    qed
    show "unat (vv_FIPServed v) = card (in_vrf (F(p := None)) i)"
      if t: "bump vrf_dec (rt_VRFID r) V i = Some v" for i v
    proof (cases "i = rt_VRFID r")
      case True
      with t obtain v0 where v0: "V i = Some v0" "v = vrf_dec v0" by (auto simp: bump_def)
      then have c: "unat (vv_FIPServed v0) = card (in_vrf F i)" using inv by (auto simp: fip_inv_def)
      have "p \<in> in_vrf F i" using p True by (auto simp: in_vrf_def)
      then show ?thesis using v0 c True fin p by (simp add: in_vrf_del unat_dec32)
    next
      case False
      then show ?thesis using t inv p by (auto simp: bump_def fip_inv_def in_vrf_del)
    qed
  qed
qed

section \<open>The operations on the views\<close>

text \<open>\<open>refuses_empty P\<close>: the address parser of \<^verbatim>\<open>govpp\<close> refuses the empty text.\<close>

definition refuses_empty :: "govpp \<Rightarrow> bool" where
  "refuses_empty P \<longleftrightarrow> (\<exists>e. ParseAddress P '''' = Inl e)"

text \<open>The parts of the storage that these operations never touch.\<close>

definition same_rest :: "'d storage \<Rightarrow> 'd storage \<Rightarrow> bool" where
  "same_rest s s' \<longleftrightarrow> st_peers s' = st_peers s \<and> st_bvrfs s' = st_bvrfs s"

lemma same_rest_refl [simp]: "same_rest s s"
  by (simp add: same_rest_def)

lemma same_rest_trans: "same_rest s s' \<Longrightarrow> same_rest s' s'' \<Longrightarrow> same_rest s s''"
  by (simp add: same_rest_def)

text \<open>\<open>T'\<close> is \<open>T\<close> with tunnels that serve nothing added, to next hops of \<open>S\<close>.\<close>

definition more_tunnels :: "string set \<Rightarrow> (string \<rightharpoonup> VPPUDPTunnel) \<Rightarrow> (string \<rightharpoonup> VPPUDPTunnel) \<Rightarrow> bool" where
  "more_tunnels S T T' \<longleftrightarrow> (\<forall>d. (\<forall>u. T d = Some u \<longrightarrow> T' d = Some u) \<and>
     (\<forall>u. T d = None \<longrightarrow> T' d = Some u \<longrightarrow> d \<in> S \<and> tn_FIPServed u = 0))"

lemma more_tunnels_refl [simp]: "more_tunnels S T T"
  by (simp add: more_tunnels_def)

lemma more_tunnels_step:
  "T d = None \<Longrightarrow> tn_FIPServed u = 0 \<Longrightarrow> more_tunnels S (T(d \<mapsto> u)) T' \<Longrightarrow> more_tunnels (insert d S) T T'"
  unfolding more_tunnels_def by (metis fun_upd_apply insertCI option.distinct(1) option.inject)

lemma more_tunnels_insert: "more_tunnels S T T' \<Longrightarrow> more_tunnels (insert d S) T T'"
  by (auto simp: more_tunnels_def)

lemma more_tunnels_keep: "more_tunnels S T T' \<Longrightarrow> T d = Some u \<Longrightarrow> T' d = Some u"
  by (simp add: more_tunnels_def)

lemma fip_inv_more:
  assumes inv: "fip_inv F T V" and more: "more_tunnels S T T'"
  shows "fip_inv F T' V"
proof -
  have none: "served F nh = {}" if "T nh = None" for nh
  proof (rule ccontr)
    assume "served F nh \<noteq> {}"
    then obtain p r where r: "F p = Some r" "nh \<in> set (rt_NextHops r)" by (auto simp: served_def)
    then have "route_ok T r" using inv by (auto simp: fip_inv_def)
    then show False using r(2) that unfolding route_ok_def by (metis in_set_conv_nth option.distinct(1))
  qed
  have count: "unat (tn_FIPServed u) = card (served F nh)" if u: "T' nh = Some u" for nh u
  proof (cases "T nh")
    case None
    then show ?thesis using none [OF None] u more by (auto simp: more_tunnels_def)
  next
    case (Some u0)
    then show ?thesis using inv u more_tunnels_keep [OF more Some] by (auto simp: fip_inv_def)
  qed
  have "route_ok T' r" if "route_ok T r" for r
    using that more_tunnels_keep [OF more] unfolding route_ok_def by metis
  then show ?thesis using inv count by (auto simp: fip_inv_def)
qed

text \<open>The id of the tunnel to a next hop; the slots of the id slice from \<open>k\<close> on, for these next hops.\<close>

definition tunnel_is :: "(string \<rightharpoonup> VPPUDPTunnel) \<Rightarrow> string \<Rightarrow> u32 \<Rightarrow> bool" where
  "tunnel_is T d i \<longleftrightarrow> (\<exists>u. T d = Some u \<and> i = tn_TunnelID u)"

definition slots_filled :: "(string \<rightharpoonup> VPPUDPTunnel) \<Rightarrow> nat \<Rightarrow> string list \<Rightarrow> u32 list \<Rightarrow> u32 list \<Rightarrow> bool" where
  "slots_filled T k nhs tids ids \<longleftrightarrow> length ids = length tids \<and>
     (\<forall>i < k. i < length tids \<longrightarrow> ids ! i = tids ! i) \<and>
     (\<forall>j < length nhs. k + j < length tids \<and> tunnel_is T (nhs ! j) (ids ! (k + j)))"

lemma slots_filled_Cons:
  assumes s: "slots_filled T (Suc k) nhs (tids[k := x]) ids" and k: "k < length tids" and x: "tunnel_is T nh x"
  shows "slots_filled T k (nh # nhs) tids ids"
  unfolding slots_filled_def
proof (intro conjI allI impI)
  have ids_k: "ids ! k = x" using s k by (simp add: slots_filled_def)
  show "length ids = length tids" using s by (simp add: slots_filled_def)
  show "ids ! i = tids ! i" if "i < k" "i < length tids" for i
    using s that by (simp add: slots_filled_def)
  show "k + j < length tids" if "j < length (nh # nhs)" for j
    using s that k by (cases j) (auto simp: slots_filled_def)
  show "tunnel_is T ((nh # nhs) ! j) (ids ! (k + j))" if "j < length (nh # nhs)" for j
    using s that ids_k x by (cases j) (auto simp: slots_filled_def)
qed

lemma set_at_Some [simp]: "set_at xs i x = Some ys \<longleftrightarrow> i < length xs \<and> ys = xs[i := x]"
  by (auto simp: set_at_def)

lemma new_tunnel_stored:
  assumes M: "memdb_models M C" and P: "refuses_empty P" and wf: "storage_wf C s"
    and new: "new = NewVPPUDPTunnel UndefinedTunnelID src nh port" and add: "AddUDPTunnel_vpp P new w = Some (Inr u, w')"
    and s1: "s1 = s\<lparr>st_tuns := snd (AddUDPTunnel M u (st_tuns s))\<rparr>"
  shows "storage_wf C s1" "tun_view M (st_tuns s1) = (tun_view M (st_tuns s))(nh \<mapsto> u)"
    "st_fips s1 = st_fips s" "st_vvrfs s1 = st_vvrfs s" "same_rest s s1" "tn_FIPServed u = 0"
proof -
  have twf: "tbl_wf C tun_keys (st_tuns s)" using wf by (simp add: storage_wf_def)
  obtain i where u: "u = new\<lparr>tn_TunnelID := i\<rparr>" using AddUDPTunnel_vpp_ok(1) [OF add] by blast
  obtain a where "ParseAddress P (tn_DstIP new) = Inr a" using AddUDPTunnel_vpp_ok(2) [OF add] by blast
  then have ne: "nh \<noteq> ''''" using P by (auto simp: refuses_empty_def new NewVPPUDPTunnel_def)
  have uk: "tn_DstIP u = nh" by (simp add: u new NewVPPUDPTunnel_def)
  show "tn_FIPServed u = 0" by (simp add: u new NewVPPUDPTunnel_def)
  show "storage_wf C s1" "tun_view M (st_tuns s1) = (tun_view M (st_tuns s))(nh \<mapsto> u)"
    "st_fips s1 = st_fips s" "st_vvrfs s1 = st_vvrfs s" "same_rest s s1"
    using AddUDPTunnel_ok [OF M twf, of u] ne wf by (simp_all add: s1 storage_wf_def uk same_rest_def)
qed

lemma ensure_tunnels_ok:
  assumes M: "memdb_models M C" and P: "refuses_empty P"
  shows "storage_wf C s \<Longrightarrow> ensure_tunnels M P cfg (enumerate k nhs) tids s w = Some (r, s', w') \<Longrightarrow>
     storage_wf C s' \<and> same_rest s s' \<and> st_fips s' = st_fips s \<and> st_vvrfs s' = st_vvrfs s \<and>
     more_tunnels (set nhs) (tun_view M (st_tuns s)) (tun_view M (st_tuns s')) \<and> bgp_quiet w w' \<and>
     (\<forall>ids. r = Some ids \<longrightarrow> slots_filled (tun_view M (st_tuns s')) k nhs tids ids)"
proof (induction nhs arbitrary: k tids s w)
  case (Cons nh nhs)
  note IH = Cons.IH and wf = Cons.prems(1) and run = Cons.prems(2)
  note view = tun_view_def [symmetric]
  show ?case
  proof (cases "tun_view M (st_tuns s) nh")
    case (Some u)
    then have "k < length tids" and
      "ensure_tunnels M P cfg (enumerate (Suc k) nhs) (tids[k := tn_TunnelID u]) s w = Some (r, s', w')"
      using run by (auto simp: IsUDPTunnelExist_def GetUDPTunnel_def view split: Option.bind_splits)
    from IH [OF wf this(2)] this(1) show ?thesis
      using more_tunnels_keep [of "set nhs" "tun_view M (st_tuns s)" "tun_view M (st_tuns s')" nh u] Some
      by (auto intro!: slots_filled_Cons more_tunnels_insert simp: tunnel_is_def)
  next
    case None
    define x where "x = next_rand w"
    define new where "new = NewVPPUDPTunnel UndefinedTunnelID (Addr (vc_TunLocalIP (cfg_VPP cfg))) nh
      (RandUDPTunnelSrcPort (fst x))"
    have q1: "bgp_quiet w (snd x)" by (rule next_rand_quiet [of w "fst x"]) (simp add: x_def)
    obtain res w1 where add: "AddUDPTunnel_vpp P new (snd x) = Some (res, w1)"
      and rest: "(case res of Inl e \<Rightarrow> Some (None, s, w1)
            | Inr u \<Rightarrow> do {
                tids \<leftarrow> set_at tids k (tn_TunnelID u);
                ensure_tunnels M P cfg (enumerate (Suc k) nhs) tids (s\<lparr>st_tuns := snd (AddUDPTunnel M u (st_tuns s))\<rparr>) w1
              }) = Some (r, s', w')"
      using run None
      by (auto simp: IsUDPTunnelExist_def view x_def new_def Let_def split: Option.bind_splits prod.splits)
    have q2: "bgp_quiet w w1" using bgp_quiet_trans [OF q1 AddUDPTunnel_vpp_quiet [OF add]] .
    show ?thesis
    proof (cases res)
      case (Inl e)
      then show ?thesis using rest wf q2 by simp
    next
      case (Inr u)
      define s1 where "s1 = s\<lparr>st_tuns := snd (AddUDPTunnel M u (st_tuns s))\<rparr>"
      note ok = new_tunnel_stored [OF M P wf new_def add [unfolded Inr] s1_def]
      have k: "k < length tids" and
        run1: "ensure_tunnels M P cfg (enumerate (Suc k) nhs) (tids[k := tn_TunnelID u]) s1 w1 = Some (r, s', w')"
        using rest Inr by (auto simp: s1_def split: Option.bind_splits)
      note ih = IH [OF ok(1) run1]
      have "more_tunnels (set (nh # nhs)) (tun_view M (st_tuns s)) (tun_view M (st_tuns s'))"
        unfolding list.set using ih by (intro more_tunnels_step [of "tun_view M (st_tuns s)" nh u, OF None ok(6)]) (simp only: ok(2))
      moreover have "tun_view M (st_tuns s') nh = Some u"
        using ih ok(2) more_tunnels_keep [of _ _ _ nh u] by (metis fun_upd_same)
      moreover have "bgp_quiet w w'" "same_rest s s'" using ih q2 ok(5) bgp_quiet_trans same_rest_trans by blast+
      ultimately show ?thesis using ih k ok(3,4) by (auto intro!: slots_filled_Cons simp: tunnel_is_def)
    qed
  qed
qed (auto simp: slots_filled_def)

lemma fold_Tunnel_Inc:
  assumes M: "memdb_models M C"
  shows "tbl_wf C tun_keys t \<Longrightarrow> distinct nhs \<Longrightarrow>
     tbl_wf C tun_keys (fold (Tunnel_IncFIPServed M) nhs t) \<and>
     tun_view M (fold (Tunnel_IncFIPServed M) nhs t) = add_tunnels (set nhs) (tun_view M t)"
proof (induction nhs arbitrary: t)
  case (Cons n ns)
  then show ?case using Tunnel_Inc_ok [OF M Cons.prems(1), of n]
    by (auto simp: add_tunnels_def bump_def fun_eq_iff)
qed (simp add: add_tunnels_def)

definition dec_tunnels :: "string set \<Rightarrow> (string \<rightharpoonup> VPPUDPTunnel) \<Rightarrow> string \<rightharpoonup> VPPUDPTunnel" where
  "dec_tunnels S T = (\<lambda>d. if d \<in> S then map_option tun_dec (T d) else T d)"

definition purge_tunnels :: "string set \<Rightarrow> (string \<rightharpoonup> VPPUDPTunnel) \<Rightarrow> string \<rightharpoonup> VPPUDPTunnel" where
  "purge_tunnels S T = (\<lambda>d. if d \<in> S then (case T d of None \<Rightarrow> None
      | Some u \<Rightarrow> if tn_FIPServed u = 0 then None else Some u) else T d)"

lemma fold_Tunnel_Dec:
  assumes M: "memdb_models M C"
  shows "tbl_wf C tun_keys t \<Longrightarrow> distinct nhs \<Longrightarrow>
     tbl_wf C tun_keys (fold (Tunnel_DecFIPServed M) nhs t) \<and>
     tun_view M (fold (Tunnel_DecFIPServed M) nhs t) = dec_tunnels (set nhs) (tun_view M t)"
proof (induction nhs arbitrary: t)
  case (Cons n ns)
  then show ?case using Tunnel_Dec_ok [OF M Cons.prems(1), of n]
    by (auto simp: dec_tunnels_def bump_def fun_eq_iff)
qed (simp add: dec_tunnels_def)

lemma dec32_0: "dec32 n = 0 \<longleftrightarrow> unat n \<le> 1"
  using unat_dec32 [of n] by (simp add: unat_eq_0 [symmetric])

lemma purge_dec: "purge_tunnels S (dec_tunnels S T) = drop_tunnels S T"
  by (auto simp: purge_tunnels_def dec_tunnels_def drop_tunnels_def fun_eq_iff dec32_0 split: option.split)

lemma delete_idle_tunnels_ok:
  assumes M: "memdb_models M C"
  shows "storage_wf C s \<Longrightarrow> delete_idle_tunnels M P nhs tids s w = Some (s', w') \<Longrightarrow>
     storage_wf C s' \<and> same_rest s s' \<and> st_fips s' = st_fips s \<and> st_vvrfs s' = st_vvrfs s \<and>
     tun_view M (st_tuns s') = purge_tunnels (snd ` set nhs) (tun_view M (st_tuns s)) \<and> bgp_quiet w w'"
proof (induction nhs arbitrary: s w)
  case (Cons inh nhs)
  obtain i nh where inh: "inh = (i, nh)" by (cases inh)
  note IH = Cons.IH and wf = Cons.prems(1) and run = Cons.prems(2)
  have twf: "tbl_wf C tun_keys (st_tuns s)" using wf by (simp add: storage_wf_def)
  have served: "Tunnel_GetFIPServed M (st_tuns s) nh = (case tun_view M (st_tuns s) nh of None \<Rightarrow> 0 | Some u \<Rightarrow> tn_FIPServed u)"
    by (simp add: Tunnel_GetFIPServed_def tun_view_def)
  show ?case
  proof (cases "Tunnel_GetFIPServed M (st_tuns s) nh = 0")
    case True
    define s1 where "s1 = s\<lparr>st_tuns := snd (DelUDPTunnel M nh (st_tuns s))\<rparr>"
    have ok: "storage_wf C s1" "tun_view M (st_tuns s1) = (tun_view M (st_tuns s))(nh := None)"
      "st_fips s1 = st_fips s" "st_vvrfs s1 = st_vvrfs s" "same_rest s s1"
      using DelUDPTunnel_ok [OF M twf, of nh] wf by (simp_all add: s1_def storage_wf_def same_rest_def)
    obtain tid res w1 where "DelUDPTunnel_vpp P tid w = Some (res, w1)"
        "delete_idle_tunnels M P nhs tids s1 w1 = Some (s', w')"
      using run True by (auto simp: inh s1_def split: Option.bind_splits)
    from this(1) IH [OF ok(1) this(2)] ok show ?thesis
      using True served same_rest_trans [OF ok(5), of s'] bgp_quiet_trans [OF DelUDPTunnel_vpp_quiet, of P tid w res w1 w']
      by (auto simp: inh purge_tunnels_def fun_eq_iff split: option.splits)
  next
    case False
    then have "delete_idle_tunnels M P nhs tids s w = Some (s', w')" using run by (simp add: inh)
    from IH [OF wf this] show ?thesis
      using False served by (auto simp: inh purge_tunnels_def fun_eq_iff split: option.splits)
  qed
qed (simp add: purge_tunnels_def)

text \<open>
  What creating a floating IP does. \<open>add_failed\<close>: the routes and counters are as before, and at most
  some tunnels that serve nothing were added. \<open>add_done\<close>: the route is stored with the ids of its
  tunnels, the counters of its VRF and of its tunnels went up, and the aggregates were advertised
  unless the VRF now serves more than two.
\<close>

definition add_failed :: "'d memdb \<Rightarrow> 'd storage \<Rightarrow> world \<Rightarrow> 'd storage \<Rightarrow> world \<Rightarrow> bool" where
  "add_failed M s w s' w' \<longleftrightarrow> fip_view M (st_fips s') = fip_view M (st_fips s) \<and>
     vvrf_view M (st_vvrfs s') = vvrf_view M (st_vvrfs s) \<and>
     (\<exists>S. more_tunnels S (tun_view M (st_tuns s)) (tun_view M (st_tuns s'))) \<and> bgp_quiet w w'"

definition vrf_count :: "(u32 \<rightharpoonup> VPPVRFTable) \<Rightarrow> u32 \<Rightarrow> u32" where
  "vrf_count V i = (case V i of None \<Rightarrow> 0 | Some v \<Rightarrow> vv_FIPServed v)"

definition add_done :: "'d memdb \<Rightarrow> Config \<Rightarrow> VPPIPRoute \<Rightarrow> VPPVRFTable \<Rightarrow> BGPVRFTable
    \<Rightarrow> 'd storage \<Rightarrow> world \<Rightarrow> 'd storage \<Rightarrow> world \<Rightarrow> bool" where
  "add_done M cfg r v b s w s' w' \<longleftrightarrow> (\<exists>T tids w1. more_tunnels (set (rt_NextHops r)) (tun_view M (st_tuns s)) T \<and>
     route_ok T (r\<lparr>rt_TunnelIDs := tids\<rparr>) \<and>
     fip_view M (st_fips s') = (fip_view M (st_fips s))(rt_Prefix r \<mapsto> r\<lparr>rt_TunnelIDs := tids\<rparr>) \<and>
     vvrf_view M (st_vvrfs s') = bump vrf_inc (rt_VRFID r) (vvrf_view M (st_vvrfs s)) \<and>
     tun_view M (st_tuns s') = add_tunnels (set (rt_NextHops r)) T \<and>
     bgp_quiet w w1 \<and>
     (if vrf_count (vvrf_view M (st_vvrfs s')) (rt_VRFID r) > 2 then w' = w1
      else aggregates True cfg v b (vv_FIPPrefixes v) w1 = Some w'))"

lemma VRF_GetFIPServed_count: "VRF_GetFIPServed M t i = vrf_count (vvrf_view M t) i"
  by (simp add: VRF_GetFIPServed_def vrf_count_def vvrf_view_def)

lemma store_fip_ok:
  assumes M: "memdb_models M C" and wf: "storage_wf C s" and d: "distinct (rt_NextHops r)" and p: "rt_Prefix r \<noteq> ''''"
  shows "storage_wf C (store_fip M r s)" "same_rest s (store_fip M r s)"
    "fip_view M (st_fips (store_fip M r s)) = (fip_view M (st_fips s))(rt_Prefix r \<mapsto> r)"
    "vvrf_view M (st_vvrfs (store_fip M r s)) = bump vrf_inc (rt_VRFID r) (vvrf_view M (st_vvrfs s))"
    "tun_view M (st_tuns (store_fip M r s)) = add_tunnels (set (rt_NextHops r)) (tun_view M (st_tuns s))"
proof -
  have t: "tbl_wf C fip_keys (st_fips s)" "tbl_wf C vvrf_keys (st_vvrfs s)" "tbl_wf C tun_keys (st_tuns s)"
    using wf by (simp_all add: storage_wf_def)
  note ops = AddFIPRoute_ok [OF M t(1) p] VRF_Inc_ok [OF M t(2), of "rt_VRFID r"] fold_Tunnel_Inc [OF M t(3) d]
  show "storage_wf C (store_fip M r s)" using ops wf by (simp add: store_fip_def storage_wf_def)
  show "same_rest s (store_fip M r s)" by (simp add: store_fip_def same_rest_def)
  show "fip_view M (st_fips (store_fip M r s)) = (fip_view M (st_fips s))(rt_Prefix r \<mapsto> r)"
    "vvrf_view M (st_vvrfs (store_fip M r s)) = bump vrf_inc (rt_VRFID r) (vvrf_view M (st_vvrfs s))"
    "tun_view M (st_tuns (store_fip M r s)) = add_tunnels (set (rt_NextHops r)) (tun_view M (st_tuns s))"
    using ops by (simp_all add: store_fip_def)
qed

text \<open>After VPP accepted the route: what is stored, and the aggregates.\<close>

lemma stored_route_done:
  assumes M: "memdb_models M C" and wf: "storage_wf C s1" and q: "wf_route q" "rt_Prefix q \<noteq> ''''" "q = r\<lparr>rt_TunnelIDs := tids\<rparr>"
    and more: "more_tunnels (set (rt_NextHops r)) (tun_view M (st_tuns s)) (tun_view M (st_tuns s1))"
    and same: "same_rest s s1" "st_fips s1 = st_fips s" "st_vvrfs s1 = st_vvrfs s"
    and ok: "route_ok (tun_view M (st_tuns s1)) q" and quiet: "bgp_quiet w w2"
    and rest: "(if vrf_count (vvrf_view M (st_vvrfs (store_fip M q s1))) (rt_VRFID r) > 2
       then Some (store_fip M q s1, w2)
       else do { w3 \<leftarrow> aggregates True cfg v b (vv_FIPPrefixes v) w2; Some (store_fip M q s1, w3) }) = Some (s', w')"
  shows "storage_wf C s' \<and> same_rest s s' \<and> add_done M cfg r v b s w s' w'"
proof -
  have keys: "rt_NextHops q = rt_NextHops r" "rt_VRFID q = rt_VRFID r" "rt_Prefix q = rt_Prefix r" by (simp_all add: q(3))
  have "distinct (rt_NextHops q)" using q(1) by (simp add: wf_route_def)
  note st = store_fip_ok [OF M wf this q(2)]
  have s': "s' = store_fip M q s1" using rest by (auto split: if_splits Option.bind_splits)
  have "add_done M cfg r v b s w s' w'"
    unfolding add_done_def
  proof (intro exI conjI)
    show "more_tunnels (set (rt_NextHops r)) (tun_view M (st_tuns s)) (tun_view M (st_tuns s1))"
      "route_ok (tun_view M (st_tuns s1)) (r\<lparr>rt_TunnelIDs := tids\<rparr>)"
      using more ok by (simp_all add: q(3))
    show "fip_view M (st_fips s') = (fip_view M (st_fips s))(rt_Prefix r \<mapsto> r\<lparr>rt_TunnelIDs := tids\<rparr>)"
      "vvrf_view M (st_vvrfs s') = bump vrf_inc (rt_VRFID r) (vvrf_view M (st_vvrfs s))"
      "tun_view M (st_tuns s') = add_tunnels (set (rt_NextHops r)) (tun_view M (st_tuns s1))"
      using st same keys by (simp_all add: s' flip: q(3))
    show "bgp_quiet w w2" by (rule quiet)
    show "if vrf_count (vvrf_view M (st_vvrfs s')) (rt_VRFID r) > 2 then w' = w2
       else aggregates True cfg v b (vv_FIPPrefixes v) w2 = Some w'"
      using rest s' by (auto split: if_splits Option.bind_splits)
  qed
  then show ?thesis using st(1,2) s' same(1) same_rest_trans by blast
qed

lemma AddFIPAndTunnel_ok:
  assumes M: "memdb_models M C" and P: "refuses_empty P" and wf: "storage_wf C s"
    and r: "wf_route r" "rt_Prefix r \<noteq> ''''"
    and run: "AddFIPAndTunnelInVPPAndStorage M P cfg r v b s w = Some (s', w')"
  shows "storage_wf C s' \<and> same_rest s s' \<and> (add_failed M s w s' w' \<or> add_done M cfg r v b s w s' w')"
proof -
  obtain ids s1 w1 where ens: "ensure_tunnels M P cfg (enumerate 0 (rt_NextHops r)) (rt_TunnelIDs r) s w = Some (ids, s1, w1)"
    using run by (auto simp: AddFIPAndTunnelInVPPAndStorage_def split: Option.bind_splits)
  note e = ensure_tunnels_ok [OF M P wf ens]
  have failed: "add_failed M s w s1 w2" if "bgp_quiet w1 w2" for w2
    using e that bgp_quiet_trans [of w w1 w2] by (auto simp: add_failed_def)
  show ?thesis
  proof (cases ids)
    case None
    then show ?thesis using run ens e failed [OF bgp_quiet_refl] by (auto simp: AddFIPAndTunnelInVPPAndStorage_def)
  next
    case (Some tids)
    define q where "q = r\<lparr>rt_TunnelIDs := tids\<rparr>"
    obtain res w2 where add: "AddDelFIPRoute P True q w1 = Some (res, w2)"
      using run ens Some by (auto simp: AddFIPAndTunnelInVPPAndStorage_def q_def Let_def split: Option.bind_splits)
    note quiet = AddDelFIPRoute_quiet [OF add]
    show ?thesis
    proof (cases res)
      case (Inl x)
      then have "(s', w') = (s1, w2)"
        using run ens Some add by (simp add: AddFIPAndTunnelInVPPAndStorage_def q_def Let_def)
      then show ?thesis using e failed [OF quiet] by simp
    next
      case (Inr x)
      have q: "wf_route q" "rt_Prefix q \<noteq> ''''" "rt_NextHops q = rt_NextHops r" "rt_VRFID q = rt_VRFID r"
        using r e Some by (simp_all add: q_def wf_route_def slots_filled_def)
      have rest: "rt_NextHops r \<noteq> []"
          "(if vrf_count (vvrf_view M (st_vvrfs (store_fip M q s1))) (rt_VRFID r) > 2
            then Some (store_fip M q s1, w2)
            else do { w3 \<leftarrow> aggregates True cfg v b (vv_FIPPrefixes v) w2; Some (store_fip M q s1, w3) }) = Some (s', w')"
        using run ens Some add Inr q
        by (auto simp: AddFIPAndTunnelInVPPAndStorage_def Let_def VRF_GetFIPServed_count simp flip: q_def
            split: Option.bind_splits if_splits)
      have ok: "route_ok (tun_view M (st_tuns s1)) q"
        using q rest(1) AddDelFIPRoute_defined [of P True q w1 x w2] add Inr e Some
        by (auto simp: route_ok_def slots_filled_def tunnel_is_def q_def)
      have "bgp_quiet w w2" using e quiet bgp_quiet_trans by blast
      then show ?thesis using stored_route_done [OF M _ q(1,2) q_def _ _ _ _ ok _ rest(2)] e by blast
    qed
  qed
qed

text \<open>What removing a floating IP does.\<close>

definition del_done :: "'d memdb \<Rightarrow> Config \<Rightarrow> VPPIPRoute \<Rightarrow> VPPVRFTable \<Rightarrow> BGPVRFTable
    \<Rightarrow> 'd storage \<Rightarrow> world \<Rightarrow> 'd storage \<Rightarrow> world \<Rightarrow> bool" where
  "del_done M cfg r v b s w s' w' \<longleftrightarrow>
     fip_view M (st_fips s') = (fip_view M (st_fips s))(rt_Prefix r := None) \<and>
     vvrf_view M (st_vvrfs s') = bump vrf_dec (rt_VRFID r) (vvrf_view M (st_vvrfs s)) \<and>
     tun_view M (st_tuns s') = drop_tunnels (set (rt_NextHops r)) (tun_view M (st_tuns s)) \<and>
     (\<exists>w1. bgp_quiet w w1 \<and>
        (if vrf_count (vvrf_view M (st_vvrfs s')) (rt_VRFID r) = 0
         then aggregates False cfg v b (vv_FIPPrefixes v) w1 = Some w' else w' = w1))"

lemma unstore_fip_ok:
  assumes M: "memdb_models M C" and wf: "storage_wf C s" and d: "distinct (rt_NextHops r)"
  shows "storage_wf C (unstore_fip M r s)" "same_rest s (unstore_fip M r s)"
    "fip_view M (st_fips (unstore_fip M r s)) = (fip_view M (st_fips s))(rt_Prefix r := None)"
    "vvrf_view M (st_vvrfs (unstore_fip M r s)) = bump vrf_dec (rt_VRFID r) (vvrf_view M (st_vvrfs s))"
    "tun_view M (st_tuns (unstore_fip M r s)) = dec_tunnels (set (rt_NextHops r)) (tun_view M (st_tuns s))"
proof -
  have t: "tbl_wf C fip_keys (st_fips s)" "tbl_wf C vvrf_keys (st_vvrfs s)" "tbl_wf C tun_keys (st_tuns s)"
    using wf by (simp_all add: storage_wf_def)
  note ops = DelFIPRoute_ok [OF M t(1), of "rt_Prefix r"] VRF_Dec_ok [OF M t(2), of "rt_VRFID r"] fold_Tunnel_Dec [OF M t(3) d]
  show "storage_wf C (unstore_fip M r s)" using ops wf by (simp add: unstore_fip_def storage_wf_def)
  show "same_rest s (unstore_fip M r s)" by (simp add: unstore_fip_def same_rest_def)
  show "fip_view M (st_fips (unstore_fip M r s)) = (fip_view M (st_fips s))(rt_Prefix r := None)"
    "vvrf_view M (st_vvrfs (unstore_fip M r s)) = bump vrf_dec (rt_VRFID r) (vvrf_view M (st_vvrfs s))"
    "tun_view M (st_tuns (unstore_fip M r s)) = dec_tunnels (set (rt_NextHops r)) (tun_view M (st_tuns s))"
    using ops by (simp_all add: unstore_fip_def)
qed

lemma set_enumerate_snd [simp]: "snd ` set (enumerate k xs) = set xs"
  by (metis list.set_map map_snd_enumerate)

lemma DelFIPAndTunnel_ok:
  assumes M: "memdb_models M C" and wf: "storage_wf C s" and d: "distinct (rt_NextHops r)"
    and run: "DelFIPAndTunnelFromVPPAndStorage M P cfg r v b s w = Some (s', w')"
  shows "storage_wf C s' \<and> same_rest s s' \<and> del_done M cfg r v b s w s' w'"
proof -
  obtain res w1 where del: "AddDelFIPRoute P False r w = Some (res, w1)"
    using run by (auto simp: DelFIPAndTunnelFromVPPAndStorage_def split: Option.bind_splits)
  then obtain s2 w2 where idle: "delete_idle_tunnels M P (enumerate 0 (rt_NextHops r)) (rt_TunnelIDs r) (unstore_fip M r s) w1 = Some (s2, w2)"
    and rest: "(if VRF_GetFIPServed M (st_vvrfs s2) (rt_VRFID r) = 0 then do {
        w3 \<leftarrow> aggregates False cfg v b (vv_FIPPrefixes v) w2;
        Some (s2, w3)
      } else Some (s2, w2)) = Some (s', w')"
    using run by (auto simp: DelFIPAndTunnelFromVPPAndStorage_def split: Option.bind_splits)
  note u = unstore_fip_ok [OF M wf d]
  note i = delete_idle_tunnels_ok [OF M u(1) idle]
  have s': "s' = s2" using rest by (auto split: if_splits Option.bind_splits)
  have "bgp_quiet w w2" using AddDelFIPRoute_quiet [OF del] i bgp_quiet_trans by blast
  moreover have "if vrf_count (vvrf_view M (st_vvrfs s')) (rt_VRFID r) = 0
         then aggregates False cfg v b (vv_FIPPrefixes v) w2 = Some w' else w' = w2"
    using rest s' by (auto simp: VRF_GetFIPServed_count split: if_splits Option.bind_splits)
  ultimately have "del_done M cfg r v b s w s' w'"
    using i u(3-5) by (auto simp: del_done_def s' purge_dec)
  then show ?thesis using i u(2) s' same_rest_trans by blast
qed

end
