(* ===== verification/Fip_Handler.thy ===== *)
theory Fip_Handler
  imports Fip_Service
begin

text \<open>
  What the handler of controller updates guarantees: the invariant of \<open>Fip_Service\<close> over any sequence
  of updates and any answers of VPP and the GoBGP server, the effect of an advertisement and of a
  withdrawal, and the inputs on which it panics.
\<close>

section \<open>The invariant through the handler\<close>

text \<open>The invariant of a storage, in terms of its views.\<close>

definition gw_inv :: "'d memdb \<Rightarrow> ('d \<Rightarrow> key \<rightharpoonup> keys \<times> addr) \<Rightarrow> 'd storage \<Rightarrow> bool" where
  "gw_inv M C s \<longleftrightarrow> storage_wf C s \<and>
     fip_inv (fip_view M (st_fips s)) (tun_view M (st_tuns s)) (vvrf_view M (st_vvrfs s))"

abbreviation stored :: "'d memdb \<Rightarrow> 'd storage \<Rightarrow> string \<Rightarrow> VPPIPRoute option" where
  "stored M s \<equiv> fip_view M (st_fips s)"

lemma gw_inv_route:
  "memdb_models M C \<Longrightarrow> gw_inv M C s \<Longrightarrow> stored M s p = Some r \<Longrightarrow>
     rt_Prefix r = p \<and> wf_route r \<and> rt_NextHops r \<noteq> [] \<and> distinct (rt_NextHops r) \<and> rt_Prefix r \<noteq> ''''"
  using view_key_simps(1) [of M C "st_fips s" p r] fips.view_present [of M C "st_fips s" "KStr p" r]
  by (auto simp: gw_inv_def fip_inv_def route_ok_def storage_wf_def wf_route_def fip_view_def)

lemma gw_inv_finite: "gw_inv M C s \<Longrightarrow> finite (dom (stored M s))"
  by (simp add: gw_inv_def fip_inv_def)

lemma add_gw_inv:
  assumes M: "memdb_models M C" and P: "refuses_empty P" and inv: "gw_inv M C s"
    and r: "wf_route r" "rt_Prefix r \<noteq> ''''" and new: "stored M s (rt_Prefix r) = None"
    and n: "Suc (card (dom (stored M s))) < 2 ^ 32"
    and run: "AddFIPAndTunnelInVPPAndStorage M P cfg r v b s w = Some (s', w')"
  shows "gw_inv M C s' \<and> dom (stored M s') \<subseteq> insert (rt_Prefix r) (dom (stored M s))"
proof -
  have wf: "storage_wf C s" using inv by (simp add: gw_inv_def)
  note ok = AddFIPAndTunnel_ok [OF M P wf r run]
  from ok consider (failed) "add_failed M s w s' w'" | (success) "add_done M cfg r v b s w s' w'" by blast
  then show ?thesis
  proof cases
    case failed
    then show ?thesis using ok inv fip_inv_more by (auto simp: gw_inv_def add_failed_def)
  next
    case success
    then obtain T tids where d: "more_tunnels (set (rt_NextHops r)) (tun_view M (st_tuns s)) T" "route_ok T (r\<lparr>rt_TunnelIDs := tids\<rparr>)"
      "fip_view M (st_fips s') = (fip_view M (st_fips s))(rt_Prefix r \<mapsto> r\<lparr>rt_TunnelIDs := tids\<rparr>)"
      "vvrf_view M (st_vvrfs s') = bump vrf_inc (rt_VRFID r) (vvrf_view M (st_vvrfs s))"
      "tun_view M (st_tuns s') = add_tunnels (set (rt_NextHops r)) T"
      by (auto simp: add_done_def)
    have "fip_inv (stored M s) T (vvrf_view M (st_vvrfs s))"
      using inv d(1) fip_inv_more by (auto simp: gw_inv_def)
    from fip_inv_add [OF this new d(2) n] show ?thesis using ok d by (simp add: gw_inv_def)
  qed
qed

lemma del_gw_inv:
  assumes M: "memdb_models M C" and inv: "gw_inv M C s" and r: "stored M s p = Some r"
    and run: "DelFIPAndTunnelFromVPPAndStorage M P cfg r v b s w = Some (s', w')"
  shows "gw_inv M C s' \<and> stored M s' = (stored M s)(p := None)"
proof -
  note g = gw_inv_route [OF M inv r]
  have "storage_wf C s" using inv by (simp add: gw_inv_def)
  then have ok: "storage_wf C s' \<and> same_rest s s' \<and> del_done M cfg r v b s w s' w'"
    using DelFIPAndTunnel_ok [OF M _ _ run] g by simp
  have "fip_inv (stored M s) (tun_view M (st_tuns s)) (vvrf_view M (st_vvrfs s))"
    using inv by (simp add: gw_inv_def)
  from fip_inv_del [OF this r] show ?thesis using ok g by (simp add: gw_inv_def del_done_def)
qed

lemma DelPath_ok:
  assumes "wf_route r"
  shows "DelPath r nh = Some (set_paths r (without nh (paths r)))"
    and "wf_route (set_paths r (without nh (paths r)))"
proof -
  have d: "distinct (map fst (paths r))" using assms map_fst_paths [OF assms] by (simp add: wf_route_def)
  show "DelPath r nh = Some (set_paths r (without nh (paths r)))"
    using DelPath_set_paths [OF d, of r nh] assms by simp
  show "wf_route (set_paths r (without nh (paths r)))"
    using d by (intro wf_route_set_paths) (simp add: without_def distinct_map_filter)
qed

lemma AddPath_noop: "nh = '''' \<or> t = 0 \<or> l = 0 \<Longrightarrow> AddPath r nh t l = Some r"
  by (auto simp: AddPath_def)

lemma AddPath_ok:
  assumes "wf_route r" "nh \<noteq> ''''" "t \<noteq> 0" "l \<noteq> 0"
  shows "AddPath r nh t l =
     (if nh \<notin> set (rt_NextHops r) \<or> fst (last (paths r)) = nh
      then Some (set_paths r (without nh (paths r) @ [(nh, t, l)])) else None)"
    and "wf_route (set_paths r (without nh (paths r) @ [(nh, t, l)]))"
proof -
  have d: "distinct (map fst (paths r))" using assms map_fst_paths [OF assms(1)] by (simp add: wf_route_def)
  have nhs: "fst ` set (paths r) = set (rt_NextHops r)"
    using map_fst_paths [OF assms(1)] by (metis list.set_map)
  have absent: "without nh (paths r) = paths r" if "nh \<notin> set (rt_NextHops r)"
    using that nhs without_absent by metis
  show "AddPath r nh t l =
     (if nh \<notin> set (rt_NextHops r) \<or> fst (last (paths r)) = nh
      then Some (set_paths r (without nh (paths r) @ [(nh, t, l)])) else None)"
    using AddPath_set_paths [OF d assms(2-4), of r] assms(1) absent by (auto simp: nhs)
  show "wf_route (set_paths r (without nh (paths r) @ [(nh, t, l)]))"
    using d by (intro wf_route_set_paths) (auto simp: without_def distinct_map_filter)
qed

lemma AddPath_wf:
  assumes "wf_route r" "AddPath r nh t l = Some q"
  shows "wf_route q \<and> rt_Prefix q = rt_Prefix r \<and> rt_VRFID q = rt_VRFID r"
proof (cases "nh = '''' \<or> t = 0 \<or> l = 0")
  case True
  then show ?thesis using AddPath_noop [OF True, of r] assms by simp
next
  case False
  then show ?thesis using AddPath_ok [OF assms(1), of nh t l] assms(2) by (auto split: if_splits)
qed

lemma tf_withdraw_gw_inv:
  assumes M: "memdb_models M C" and P: "refuses_empty P" and inv: "gw_inv M C s"
    and run: "tf_withdraw M P cfg p nh l v b s w = Some (s', w')"
  shows "gw_inv M C s' \<and> dom (stored M s') \<subseteq> dom (stored M s)"
proof -
  consider (same) "s' = s"
    | (del) r s1 w1 where "stored M s p = Some r"
        "DelFIPAndTunnelFromVPPAndStorage M P cfg r v b s w = Some (s1, w1)"
        "s' = s1 \<or> (\<exists>q. DelPath r nh = Some q \<and> AddFIPAndTunnelInVPPAndStorage M P cfg q v b s1 w1 = Some (s', w'))"
    using run by (auto simp: tf_withdraw_def GetFIPRoute_def simp flip: fip_view_def
        split: Option.bind_splits if_splits option.splits)
  then show ?thesis
  proof cases
    case same
    then show ?thesis using inv by simp
  next
    case del
    note g = gw_inv_route [OF M inv del(1)]
    note d = del_gw_inv [OF M inv del(1,2)]
    have "dom (stored M s1) \<subseteq> dom (stored M s)" and in_s: "p \<in> dom (stored M s)" using d del(1) by auto
    have psub: "dom (stored M s1) \<subset> dom (stored M s)" using d del(1) by auto
    have small: "Suc (card (dom (stored M s1))) < 2 ^ 32"
      using psubset_card_mono [OF gw_inv_finite [OF inv] psub] inv by (simp add: gw_inv_def fip_inv_def)
    show ?thesis
    proof (cases "s' = s1")
      case True
      then show ?thesis using d by auto
    next
      case False
      then obtain q where q: "DelPath r nh = Some q" "AddFIPAndTunnelInVPPAndStorage M P cfg q v b s1 w1 = Some (s', w')"
        using del(3) by blast
      have r: "wf_route r" using g by simp
      have q_ok: "wf_route q" "rt_Prefix q = rt_Prefix r" using DelPath_ok [OF r, of nh] q(1) by auto
      have inv1: "gw_inv M C s1" using d by simp
      have ne: "rt_Prefix q \<noteq> ''''" "stored M s1 (rt_Prefix q) = None" using q_ok g d by auto
      show ?thesis using add_gw_inv [OF M P inv1 q_ok(1) ne small q(2)] d q_ok g in_s by auto
    qed
  qed
qed

lemma tf_advertise_gw_inv:
  assumes M: "memdb_models M C" and P: "refuses_empty P" and inv: "gw_inv M C s"
    and r: "wf_route r" "rt_Prefix r \<noteq> ''''" and n: "Suc (card (dom (stored M s))) < 2 ^ 32"
    and run: "tf_advertise M P cfg nets r nh l v b s w = Some (s', w')"
  shows "gw_inv M C s' \<and> dom (stored M s') \<subseteq> insert (rt_Prefix r) (dom (stored M s))"
proof -
  consider (same) "s' = s"
    | (new) "stored M s (rt_Prefix r) = None" "AddFIPAndTunnelInVPPAndStorage M P cfg r v b s w = Some (s', w')"
    | (del) q s1 w1 q' where "stored M s (rt_Prefix r) = Some q"
        "DelFIPAndTunnelFromVPPAndStorage M P cfg q v b s w = Some (s1, w1)"
        "AddPath q nh UndefinedTunnelID l = Some q'"
        "AddFIPAndTunnelInVPPAndStorage M P cfg q' v b s1 w1 = Some (s', w')"
    using run by (auto simp: tf_advertise_def GetFIPRoute_def simp flip: fip_view_def
        split: Option.bind_splits if_splits option.splits)
  then show ?thesis
  proof cases
    case same
    then show ?thesis using inv by auto
  next
    case new
    then show ?thesis using add_gw_inv [OF M P inv r new(1) n new(2)] by simp
  next
    case del
    note g = gw_inv_route [OF M inv del(1)]
    note d = del_gw_inv [OF M inv del(1,2)]
    have in_s: "rt_Prefix r \<in> dom (stored M s)" using del(1) by auto
    have psub: "dom (stored M s1) \<subset> dom (stored M s)" using d del(1) by auto
    have small: "Suc (card (dom (stored M s1))) < 2 ^ 32"
      using psubset_card_mono [OF gw_inv_finite [OF inv] psub] n by simp
    have q': "wf_route q'" "rt_Prefix q' = rt_Prefix q" using AddPath_wf [OF _ del(3)] g by auto
    have inv1: "gw_inv M C s1" using d by simp
    have ne: "rt_Prefix q' \<noteq> ''''" "stored M s1 (rt_Prefix q') = None" using q' g d by auto
    show ?thesis using add_gw_inv [OF M P inv1 q'(1) ne small del(4)] d q' g in_s by auto
  qed
qed

lemma handle_tf_path_gw_inv:
  assumes M: "memdb_models M C" and P: "refuses_empty P" and inv: "gw_inv M C s"
    and n: "Suc (card (dom (stored M s))) < 2 ^ 32"
    and run: "handle_tf_path M P J cfg env entries path s w = Some (s', w')"
  shows "gw_inv M C s' \<and> card (dom (stored M s')) \<le> Suc (card (dom (stored M s)))"
proof -
  consider (same) "s' = s"
    | (withdraw) p nh l v b where "tf_withdraw M P cfg p nh l v b s w = Some (s', w')"
    | (advertise) a v b l b' where
        "ParseBGPUpdate J path (he_vrfNextHops env) entries (he_peerTypes env)
          (tf_BGPPeerASN (cfg_TFController cfg)) (gb_BGPLocalASN (cfg_GoBGP cfg)) = Some (True, b', a, None)"
        "tf_advertise M P cfg (he_aggregates env)
          (NewVPPIPRoute (na_VRFID a) (vc_MainInterfaceID (cfg_VPP cfg)) (vv_SubInterfaceID v)
             (na_Prefix a) [na_NextHop a] [UndefinedTunnelID] [l]) (na_NextHop a) l v b s w = Some (s', w')"
    using run by (auto simp: handle_tf_path_def split: Option.bind_splits if_splits option.splits)
  then show ?thesis
  proof cases
    case same
    then show ?thesis using inv by simp
  next
    case withdraw
    note t = tf_withdraw_gw_inv [OF M P inv withdraw]
    then show ?thesis using card_mono [OF gw_inv_finite [OF inv], of "dom (stored M s')"] by simp
  next
    case (advertise a v b l b')
    define r where "r = NewVPPIPRoute (na_VRFID a) (vc_MainInterfaceID (cfg_VPP cfg)) (vv_SubInterfaceID v)
             (na_Prefix a) [na_NextHop a] [UndefinedTunnelID] [l]"
    have r: "wf_route r" "rt_Prefix r \<noteq> ''''"
      using ParseBGPUpdate_TF [OF advertise(1)] by (simp_all add: r_def NewVPPIPRoute_def wf_route_def)
    note t = tf_advertise_gw_inv [OF M P inv r n advertise(2) [folded r_def]]
    have "card (dom (stored M s')) \<le> card (insert (rt_Prefix r) (dom (stored M s)))"
      using t gw_inv_finite [OF inv] by (intro card_mono) auto
    also have "\<dots> \<le> Suc (card (dom (stored M s)))" by (simp add: card_insert_if gw_inv_finite [OF inv])
    finally show ?thesis using t by simp
  qed
qed

text \<open>The watcher of the best paths is an event loop; every event may add one floating IP.\<close>

interpretation tf_loop: event_loop "\<lambda>(entries, path) (s, w). handle_tf_path M P J cfg env entries path s w"
    "\<lambda>ps (s, w). handle_tf_paths M P J cfg env ps s w" "\<lambda>n _. Suc n < 2 ^ 32"
    "\<lambda>n (s, w). memdb_models M C \<and> refuses_empty P \<and> gw_inv M C s \<and> card (dom (stored M s)) \<le> n"
    for M P J cfg env C
proof (unfold_locales, goal_cases)
  case (3 n e s s')
  then show ?case
    using handle_tf_path_gw_inv [of M C P "fst s" J cfg env "fst e" "snd e" "snd s" "fst s'" "snd s'"]
    by (auto simp: split_beta)
qed (auto simp: split_beta split: Option.bind_split)

lemma handle_tf_paths_gw_inv:
  assumes "memdb_models M C" "refuses_empty P" "gw_inv M C s" "card (dom (stored M s)) + length ps < 2 ^ 32"
    and run: "handle_tf_paths M P J cfg env ps s w = Some (s', w')"
  shows "gw_inv M C s'"
  using tf_loop.run_inv [of ps "card (dom (stored M s))" M C P "(s, w)" J cfg env "(s', w')"] assms by simp

section \<open>What the handler leaves alone\<close>

lemma same_rest_tuns: "same_rest s (s\<lparr>st_tuns := t\<rparr>)"
  by (simp add: same_rest_def)

lemma ensure_tunnels_rest: "ensure_tunnels M P cfg nhs tids s w = Some (r, s', w') \<Longrightarrow> same_rest s s'"
proof (induction nhs arbitrary: tids s w)
  case (Cons x nhs)
  obtain i nh where x: "x = (i, nh)" by (cases x)
  obtain tids1 s1 w1 where "(r = None \<and> s' = s) \<or>
      (ensure_tunnels M P cfg nhs tids1 s1 w1 = Some (r, s', w') \<and> same_rest s s1)"
    using Cons.prems
    by (auto simp: x Let_def same_rest_tuns split: if_splits option.splits sum.splits Option.bind_splits prod.splits
        intro: same_rest_tuns same_rest_refl)
  then show ?case using Cons.IH [of tids1 s1 w1] same_rest_trans by auto
qed simp

lemma delete_idle_tunnels_rest: "delete_idle_tunnels M P nhs tids s w = Some (s', w') \<Longrightarrow> same_rest s s'"
proof (induction nhs arbitrary: s w)
  case (Cons x nhs)
  obtain i nh where x: "x = (i, nh)" by (cases x)
  obtain s1 w1 where "delete_idle_tunnels M P nhs tids s1 w1 = Some (s', w')" "same_rest s s1"
    using Cons.prems by (auto simp: x intro: same_rest_tuns same_rest_refl split: if_splits Option.bind_splits)
  then show ?case using Cons.IH [of s1 w1] same_rest_trans by blast
qed simp

lemma add_rest: "AddFIPAndTunnelInVPPAndStorage M P cfg r v b s w = Some (s', w') \<Longrightarrow> same_rest s s'"
  by (auto simp: AddFIPAndTunnelInVPPAndStorage_def Let_def store_fip_def same_rest_def
      dest!: ensure_tunnels_rest split: Option.bind_splits option.splits sum.splits if_splits)

lemma del_rest: "DelFIPAndTunnelFromVPPAndStorage M P cfg r v b s w = Some (s', w') \<Longrightarrow> same_rest s s'"
  by (auto simp: DelFIPAndTunnelFromVPPAndStorage_def unstore_fip_def same_rest_def
      dest!: delete_idle_tunnels_rest split: Option.bind_splits sum.splits if_splits)

lemma tf_withdraw_rest: "tf_withdraw M P cfg p nh l v b s w = Some (s', w') \<Longrightarrow> same_rest s s'"
  by (auto simp: tf_withdraw_def dest!: del_rest add_rest intro: same_rest_trans
      split: Option.bind_splits option.splits if_splits)

lemma tf_advertise_rest: "tf_advertise M P cfg nets r nh l v b s w = Some (s', w') \<Longrightarrow> same_rest s s'"
  by (auto simp: tf_advertise_def dest!: del_rest add_rest intro: same_rest_trans
      split: Option.bind_splits option.splits if_splits)

lemma handle_tf_path_rest: "handle_tf_path M P J cfg env entries path s w = Some (s', w') \<Longrightarrow> same_rest s s'"
  by (auto simp: handle_tf_path_def dest: tf_withdraw_rest tf_advertise_rest
      split: Option.bind_splits option.splits if_splits)

section \<open>Known and unknown paths\<close>

lemma nh_label_scan_paths:
  "length ns = length ls \<Longrightarrow> length ns = length ts \<Longrightarrow>
     nh_label_scan ns ls nh l = Some (\<exists>t. (nh, t, l) \<in> set (zip ns (zip ts ls)))"
proof (induction ns arbitrary: ls ts)
  case (Cons n ns)
  obtain l0 ls0 t0 ts0 where eq: "ls = l0 # ls0" "ts = t0 # ts0"
    using Cons.prems by (cases ls; cases ts) auto
  have "nh_label_scan ns ls0 nh l = Some (\<exists>t. (nh, t, l) \<in> set (zip ns (zip ts0 ls0)))"
    using Cons.IH [of ls0 ts0] Cons.prems eq by simp
  then show ?case by (cases "n = nh \<and> l0 = l") (auto simp: eq)
qed simp

text \<open>The path the service looks for: next hop and label, whatever its tunnel.\<close>

definition has_path :: "VPPIPRoute \<Rightarrow> string \<Rightarrow> u32 \<Rightarrow> bool" where
  "has_path r nh l \<longleftrightarrow> (\<exists>t. (nh, t, l) \<in> set (paths r))"

lemma IsFIPWithNHAndLabelExist_ok:
  assumes "memdb_models M C" "gw_inv M C s"
  shows "IsFIPWithNHAndLabelExist M (st_fips s) p nh l =
     Some (case stored M s p of None \<Rightarrow> False | Some r \<Rightarrow> has_path r nh l)"
proof (cases "stored M s p")
  case None
  then show ?thesis by (simp add: IsFIPWithNHAndLabelExist_def fip_view_def)
next
  case (Some r)
  note g = gw_inv_route [OF assms Some]
  have len: "length (rt_NextHops r) = length (rt_FIPMPLSLabels r)" "length (rt_NextHops r) = length (rt_TunnelIDs r)"
    using g by (simp_all only: wf_route_def)
  have "nh_label_scan (rt_NextHops r) (rt_FIPMPLSLabels r) nh l = Some (has_path r nh l)"
    unfolding has_path_def paths_def by (rule nh_label_scan_paths [OF len])
  moreover have "rt_FIPMPLSLabels r \<noteq> []" using len g by (metis length_0_conv)
  ultimately show ?thesis using Some by (simp add: IsFIPWithNHAndLabelExist_def fip_view_def)
qed

section \<open>Aggregates\<close>

text \<open>
  The request for one aggregate and what a loop over the aggregates asks of a server that accepts
  everything.
\<close>

definition aggregate_req :: "bool \<Rightarrow> Config \<Rightarrow> VPPVRFTable \<Rightarrow> BGPVRFTable \<Rightarrow> string \<Rightarrow> bgp_req" where
  "aggregate_req adv cfg v b p =
     (let path = the (vpnv4_path (aggregate_attrs v b p) (tf_BGPPeerASN (cfg_TFController cfg)))
      in if adv then BgpAddPath GLOBAL path else BgpDeletePath GLOBAL path)"

lemma aggregates_log:
  assumes rt: "bv_ImportRT b \<noteq> []"
  shows "w_bgps w = [] \<Longrightarrow> aggregates adv cfg v b ps w =
     Some (w\<lparr>w_bgp := w_bgp w @ map (aggregate_req adv cfg v b) ps\<rparr>)"
proof (induction ps arbitrary: w)
  case (Cons p ps)
  obtain x xs where "bv_ImportRT b = x # xs" using rt by (cases "bv_ImportRT b") auto
  then obtain path where path: "vpnv4_path (aggregate_attrs v b p) (tf_BGPPeerASN (cfg_TFController cfg)) = Some path"
    by (simp add: vpnv4_path_def aggregate_attrs_def NewBGPNLRIAttrs_def Let_def)
  have "AdvWdrawVpnv4Prefix adv (aggregate_attrs v b p) (tf_BGPPeerASN (cfg_TFController cfg)) w =
      Some (None, w\<lparr>w_bgp := w_bgp w @ [aggregate_req adv cfg v b p]\<rparr>)"
    using Cons.prems path by (simp add: AdvWdrawVpnv4Prefix_def bgp_call_def aggregate_req_def)
  then show ?case using Cons by simp
qed simp

section \<open>Properties\<close>

text \<open>
  C1: the bookkeeping of the gateway is consistent at every moment. Whatever the controllers send,
  in whatever order, and however VPP and the GoBGP server answer, as long as the handler does not
  panic: every stored route is well formed and uses, for each of its next hops, the id of a stored
  tunnel; each tunnel's counter is the number of stored floating IPs of its vRouter, so that it is
  removed neither too early nor too late; and each VRF's counter is the number of its floating IPs.
  The number of updates is below 2^32, as the counters are 32 bits wide.
\<close>

theorem handle_tf_paths_invariant:
  assumes "memdb_models M C" "refuses_empty P" "storage_wf C s"
    "fip_inv (fip_view M (st_fips s)) (tun_view M (st_tuns s)) (vvrf_view M (st_vvrfs s))"
    "card (dom (fip_view M (st_fips s))) + length ps < 2 ^ 32"
    "handle_tf_paths M P J cfg env ps s w = Some (s', w')"
  shows "storage_wf C s' \<and>
     fip_inv (fip_view M (st_fips s')) (tun_view M (st_tuns s')) (vvrf_view M (st_vvrfs s'))"
  using handle_tf_paths_gw_inv [OF assms(1,2) _ assms(5,6)] assms(3,4) by (simp add: gw_inv_def)

text \<open>
  Updates that change nothing. An advertisement of a path that is already stored with the same
  label, of a prefix outside the aggregates, and a withdrawal of a path that is not stored leave the
  storage as it is and ask nothing of VPP and of the GoBGP server.
\<close>

theorem tf_update_noop:
  assumes "memdb_models M C" "gw_inv M C s" "rt_Prefix r = p"
  shows "(\<not> IsFIP p nets \<longrightarrow> tf_advertise M P cfg nets r nh l v b s w = Some (s, w)) \<and>
     (\<forall>q. stored M s p = Some q \<longrightarrow> has_path q nh l \<longrightarrow> tf_advertise M P cfg nets r nh l v b s w = Some (s, w)) \<and>
     (\<forall>q. stored M s p = Some q \<longrightarrow> \<not> has_path q nh l \<longrightarrow> tf_withdraw M P cfg p nh l v b s w = Some (s, w)) \<and>
     (stored M s p = None \<longrightarrow> tf_withdraw M P cfg p nh l v b s w = Some (s, w))"
  using IsFIPWithNHAndLabelExist_ok [OF assms(1,2), of p nh l] assms(3)
  by (auto simp: tf_advertise_def tf_withdraw_def)

text \<open>
  C24: the update that stops the gateway. When a controller advertises a known next hop of a stored
  floating IP with a new label, and that next hop is not the last one of the route, handling the
  update panics, whatever VPP and the GoBGP server answer.
\<close>

theorem tf_advertise_panics:
  assumes "memdb_models M C" "gw_inv M C s" "stored M s (rt_Prefix r) = Some q" "IsFIP (rt_Prefix r) nets"
    "nh \<in> set (rt_NextHops q)" "last (rt_NextHops q) \<noteq> nh" "\<not> has_path q nh l" "l \<noteq> 0" "nh \<noteq> ''''"
  shows "tf_advertise M P cfg nets r nh l v b s w = None"
proof -
  note g = gw_inv_route [OF assms(1,2,3)]
  have wf: "wf_route q" using g by simp
  have ne: "paths q \<noteq> []" using map_fst_paths [OF wf] g by auto
  have "fst (last (paths q)) = last (rt_NextHops q)" using map_fst_paths [OF wf] ne by (metis last_map)
  then have "AddPath q nh UndefinedTunnelID l = None"
    using AddPath_ok(1) [OF wf assms(9) _ assms(8), of UndefinedTunnelID] assms(5,6) by simp
  moreover have "GetFIPRoute M (st_fips s) (rt_Prefix r) = Some q"
    using assms(3) by (simp add: GetFIPRoute_def fip_view_def)
  moreover have "IsFIPWithNHAndLabelExist M (st_fips s) (rt_Prefix r) nh l = Some False"
    using IsFIPWithNHAndLabelExist_ok [OF assms(1,2), of "rt_Prefix r" nh l] assms(3,7) by simp
  ultimately show ?thesis using assms(4)
    by (cases "DelFIPAndTunnelFromVPPAndStorage M P cfg q v b s w") (auto simp: tf_advertise_def)
qed

end
