(* ===== verification/Fip_Effects.thy ===== *)
theory Fip_Effects
  imports Fip_Handler
begin

text \<open>
  The effect of the updates from a controller, step by step: the requests an advertisement makes and
  what it stores when VPP answers, what the removal of a floating IP takes away, and that a
  withdrawal undoes an advertisement. The witnesses run the operations on a sample storage.
\<close>

section \<open>An advertisement that VPP answers\<close>

lemma AddUDPTunnel_vpp_responsive:
  assumes "w_sends w = []" "w_replies w = Inr (UDPEncapAddReply ret i) # rs" "RetvalToVPPApiError P ret = None"
    "ParseAddress P (tn_SrcIP u) = Inr src" "ParseAddress P (tn_DstIP u) = Inr dst"
  shows "AddUDPTunnel_vpp P u w = (let req = UDPEncapAdd \<lparr>ue_TableID = tn_RoutingTableID u,
      ue_SrcPort = tn_SrcPort u, ue_DstPort = tn_DstPort u, ue_SrcIP = src, ue_DstIP = dst, ue_ID = 0\<rparr>
    in Some (Inr (u\<lparr>tn_TunnelID := i\<rparr>),
       w\<lparr>w_replies := rs, w_sent := w_sent w @ [req], w_acked := w_acked w @ [req]\<rparr>))"
  using assms by (simp add: AddUDPTunnel_vpp_def liftE_def returnE_def Let_def
      roundtrip_ok [where m = "UDPEncapAddReply ret i" and ret = ret and a = i and rs = rs])

definition fip_request :: "govpp \<Rightarrow> bool \<Rightarrow> VPPIPRoute \<Rightarrow> Prefix \<Rightarrow> FibPath list \<Rightarrow> vpp_req" where
  "fip_request P isAdd r pre ps = IPRouteAddDelV2 isAdd (length (rt_NextHops r) > 1)
     \<lparr>rv_TableID = rt_VRFID r, rv_Prefix = pre, rv_NPaths = of_nat (length (rt_NextHops r)),
      rv_Src = 0, rv_Paths = ps\<rparr>"

lemma AddDelFIPRoute_responsive:
  assumes "w_sends w = []" "w_replies w = Inr (IPRouteAddDelV2Reply ret) # rs" "RetvalToVPPApiError P ret = None"
    "first_undefined (rt_TunnelIDs r) = None" "ParsePrefix P (rt_Prefix r) = Inr pre"
    "parse_nhs P (rt_NextHops r) = Inr nhs"
    "fip_paths P (rt_MainInterfaceID r) nhs (rt_TunnelIDs r) (rt_FIPMPLSLabels r) = Some ps"
  shows "AddDelFIPRoute P isAdd r w = Some (Inr (),
      w\<lparr>w_replies := rs, w_sent := w_sent w @ [fip_request P isAdd r pre ps],
        w_acked := w_acked w @ [fip_request P isAdd r pre ps]\<rparr>)"
  using assms by (simp add: AddDelFIPRoute_def liftE_def fip_request_def re_IPRoute_def
      roundtrip_ok [where m = "IPRouteAddDelV2Reply ret" and ret = ret and a = "()" and rs = rs])

lemma next_rand_frame:
  assumes "next_rand w = (x, w')"
  shows "w_sends w' = w_sends w" "w_replies w' = w_replies w" "w_bgps w' = w_bgps w"
    "w_bgp w' = w_bgp w" "w_acked w' = w_acked w" "w_sent w' = w_sent w"
  using assms by (auto simp: next_rand_def split: list.splits)

section \<open>Undoing an addition\<close>

lemma more_tunnels_new:
  "more_tunnels S T T' \<Longrightarrow> T d = None \<Longrightarrow> T' d = Some u \<Longrightarrow> d \<in> S \<and> tn_FIPServed u = 0"
  unfolding more_tunnels_def by blast

lemma dec_inc32:
  fixes n :: u32
  assumes "unat n < 2 ^ 32 - 1"
  shows "unat (n + 1) = Suc (unat n)" "dec32 (n + 1) = n"
proof -
  show s: "unat (n + 1) = Suc (unat n)" using assms by (intro unat_suc) auto
  then have "n + 1 \<noteq> 0" by (metis unat_0 nat.distinct(1))
  then show "dec32 (n + 1) = n" by (simp add: dec32_def)
qed

lemma tunnels_restored:
  assumes more: "more_tunnels {nh} T0 T"
    and idle: "\<forall>u. T0 nh = Some u \<longrightarrow> tn_FIPServed u \<noteq> 0 \<and> unat (tn_FIPServed u) < 2 ^ 32 - 1"
  shows "drop_tunnels {nh} (add_tunnels {nh} T) = T0"
proof
  fix x
  show "drop_tunnels {nh} (add_tunnels {nh} T) x = T0 x"
  proof (cases "T0 x")
    case None
    show ?thesis
    proof (cases "T x")
      case (Some u)
      then have "x = nh" "tn_FIPServed u = 0" using more_tunnels_new [OF more None Some] by auto
      then show ?thesis using None Some by (simp add: drop_tunnels_def add_tunnels_def)
    qed (use None in \<open>auto simp: drop_tunnels_def add_tunnels_def\<close>)
  next
    case (Some u)
    then have T: "T x = Some u" using more_tunnels_keep [OF more] by simp
    show ?thesis
    proof (cases "x = nh")
      case True
      then have n: "tn_FIPServed u \<noteq> 0" "unat (tn_FIPServed u) < 2 ^ 32 - 1" using Some idle by auto
      then show ?thesis
        using True Some T dec_inc32 [OF n(2)] by (simp add: drop_tunnels_def add_tunnels_def unat_eq_0)
    qed (use Some T in \<open>simp add: drop_tunnels_def add_tunnels_def\<close>)
  qed
qed

lemma vrf_restored:
  assumes "\<forall>v. V i = Some v \<longrightarrow> unat (vv_FIPServed v) < 2 ^ 32 - 1"
  shows "bump vrf_dec i (bump vrf_inc i V) = V"
  using assms dec_inc32(2) by (cases "V i") (auto simp: bump_def fun_eq_iff)

lemma gw_inv_counts:
  assumes inv: "gw_inv M C s" and big: "card (dom (stored M s)) + 1 < 2 ^ 32"
  shows "tun_view M (st_tuns s) nh = Some u \<Longrightarrow> unat (tn_FIPServed u) < 2 ^ 32 - 1"
    and "vvrf_view M (st_vvrfs s) i = Some v \<Longrightarrow> unat (vv_FIPServed v) < 2 ^ 32 - 1"
proof -
  have finv: "fip_inv (stored M s) (tun_view M (st_tuns s)) (vvrf_view M (st_vvrfs s))"
    using inv by (simp add: gw_inv_def)
  have le: "card (served (stored M s) nh) \<le> card (dom (stored M s))" "card (in_vrf (stored M s) i) \<le> card (dom (stored M s))"
    using card_mono [OF gw_inv_finite [OF inv] served_subset] card_mono [OF gw_inv_finite [OF inv] in_vrf_subset] .
  show "tun_view M (st_tuns s) nh = Some u \<Longrightarrow> unat (tn_FIPServed u) < 2 ^ 32 - 1"
    using finv le(1) big unfolding fip_inv_def by fastforce
  show "vvrf_view M (st_vvrfs s) i = Some v \<Longrightarrow> unat (vv_FIPServed v) < 2 ^ 32 - 1"
    using finv le(2) big unfolding fip_inv_def by fastforce
qed

lemma vrf_count_small:
  assumes inv: "gw_inv M C s" and big: "card (dom (stored M s)) + 1 < 2 ^ 32"
    and vrf: "vvrf_view M (st_vvrfs s) vid = Some v0"
  shows "vv_FIPServed v0 + 1 > 2 \<longleftrightarrow> \<not> card (in_vrf (stored M s) vid) < 2"
proof -
  have "unat (vv_FIPServed v0) = card (in_vrf (stored M s) vid)" using inv vrf by (auto simp: gw_inv_def fip_inv_def)
  moreover have "card (in_vrf (stored M s) vid) \<le> card (dom (stored M s))"
    using card_mono [OF gw_inv_finite [OF inv] in_vrf_subset] .
  ultimately have "unat (vv_FIPServed v0 + 1) = Suc (card (in_vrf (stored M s) vid))"
    using big by (intro unat_suc) auto
  then show ?thesis by (simp add: word_less_nat_alt) linarith
qed

text \<open>The tunnel to a new vRouter, and the new floating IP through it.\<close>

lemma ensure_new_tunnel:
  assumes new: "tun_view M (st_tuns s) nh = None" and rand: "next_rand w = (x, w0)"
    and world: "w_sends w = []" "w_replies w = Inr (UDPEncapAddReply ret i) # rs"
      "RetvalToVPPApiError P ret = None" "i \<noteq> UndefinedTunnelID"
    and parse: "ParseAddress P (Addr (vc_TunLocalIP (cfg_VPP cfg))) = Inr src" "ParseAddress P nh = Inr dst"
    and u: "u = NewVPPUDPTunnel i (Addr (vc_TunLocalIP (cfg_VPP cfg))) nh (RandUDPTunnelSrcPort x)"
    and req: "req = UDPEncapAdd \<lparr>ue_TableID = 0, ue_SrcPort = RandUDPTunnelSrcPort x, ue_DstPort = 6635,
      ue_SrcIP = src, ue_DstIP = dst, ue_ID = 0\<rparr>"
  shows "ensure_tunnels M P cfg (enumerate 0 [nh]) [UndefinedTunnelID] s w =
    Some (Some [i], s\<lparr>st_tuns := snd (AddUDPTunnel M u (st_tuns s))\<rparr>,
      w0\<lparr>w_replies := rs, w_sent := w_sent w @ [req], w_acked := w_acked w @ [req]\<rparr>)"
proof -
  note w0 = next_rand_frame [OF rand]
  have "AddUDPTunnel_vpp P (NewVPPUDPTunnel UndefinedTunnelID (Addr (vc_TunLocalIP (cfg_VPP cfg))) nh (RandUDPTunnelSrcPort x)) w0
      = Some (Inr u, w0\<lparr>w_replies := rs, w_sent := w_sent w @ [req], w_acked := w_acked w @ [req]\<rparr>)"
    using AddUDPTunnel_vpp_responsive [of w0 ret i rs P
        "NewVPPUDPTunnel UndefinedTunnelID (Addr (vc_TunLocalIP (cfg_VPP cfg))) nh (RandUDPTunnelSrcPort x)" src dst] w0 world parse
    by (simp add: NewVPPUDPTunnel_def Let_def u req)
  then show ?thesis
    using new rand by (simp add: IsUDPTunnelExist_def tun_view_def set_at_def) (simp add: u NewVPPUDPTunnel_def)
qed

lemma store_new_fip:
  assumes M: "memdb_models M C" and wf: "storage_wf C s" and q: "rt_NextHops q = [nh]" "rt_Prefix q = p" "rt_VRFID q = vid"
    and names: "p \<noteq> ''''" "nh \<noteq> ''''" and u: "tn_DstIP u = nh" "tn_FIPServed u = 0"
    and vrf: "vvrf_view M (st_vvrfs s) vid = Some v0"
    and s2: "s2 = store_fip M q (s\<lparr>st_tuns := snd (AddUDPTunnel M u (st_tuns s))\<rparr>)"
  shows "stored M s2 = (stored M s)(p \<mapsto> q)"
    "tun_view M (st_tuns s2) = (tun_view M (st_tuns s))(nh \<mapsto> u\<lparr>tn_FIPServed := 1\<rparr>)"
    "vvrf_view M (st_vvrfs s2) = (vvrf_view M (st_vvrfs s))(vid \<mapsto> v0\<lparr>vv_FIPServed := vv_FIPServed v0 + 1\<rparr>)"
    "VRF_GetFIPServed M (st_vvrfs s2) vid = vv_FIPServed v0 + 1"
proof -
  let ?s1 = "s\<lparr>st_tuns := snd (AddUDPTunnel M u (st_tuns s))\<rparr>"
  have twf: "tbl_wf C tun_keys (st_tuns s)" using wf by (simp add: storage_wf_def)
  have s1: "storage_wf C ?s1" "tun_view M (st_tuns ?s1) = (tun_view M (st_tuns s))(nh \<mapsto> u)"
    using AddUDPTunnel_ok [OF M twf, of u] wf names(2) by (simp_all add: storage_wf_def u)
  have "distinct (rt_NextHops q)" "rt_Prefix q \<noteq> ''''" using q names by simp_all
  note s2_ok = store_fip_ok [OF M s1(1) this, folded s2, unfolded q]
  show "stored M s2 = (stored M s)(p \<mapsto> q)"
    "tun_view M (st_tuns s2) = (tun_view M (st_tuns s))(nh \<mapsto> u\<lparr>tn_FIPServed := 1\<rparr>)"
    "vvrf_view M (st_vvrfs s2) = (vvrf_view M (st_vvrfs s))(vid \<mapsto> v0\<lparr>vv_FIPServed := vv_FIPServed v0 + 1\<rparr>)"
    using s2_ok s1 vrf u by (auto simp: add_tunnels_def bump_def fun_eq_iff)
  then show "VRF_GetFIPServed M (st_vvrfs s2) vid = vv_FIPServed v0 + 1"
    by (simp add: VRF_GetFIPServed_count vrf_count_def)
qed

text \<open>The counters reach zero with the last floating IP of a vRouter and of a VRF.\<close>

lemma card_le_1: "x \<in> A \<Longrightarrow> finite A \<Longrightarrow> card A \<le> 1 \<longleftrightarrow> A = {x}"
  using card_mono [of A "{x}"] by (auto simp: card_le_Suc0_iff_eq)

lemma last_of_tunnel:
  assumes inv: "gw_inv M C s" and r: "stored M s p = Some r" and nh: "nh \<in> set (rt_NextHops r)"
  obtains u where "tun_view M (st_tuns s) nh = Some u" "tn_FIPServed u \<noteq> 0"
    "unat (tn_FIPServed u) \<le> 1 \<longleftrightarrow> served (stored M s) nh = {p}"
proof -
  have finv: "fip_inv (stored M s) (tun_view M (st_tuns s)) (vvrf_view M (st_vvrfs s))" using inv by (simp add: gw_inv_def)
  obtain u where u: "tun_view M (st_tuns s) nh = Some u"
    using finv r nh unfolding fip_inv_def route_ok_def by (metis in_set_conv_nth)
  have c: "unat (tn_FIPServed u) = card (served (stored M s) nh)" using finv u by (auto simp: fip_inv_def)
  have p: "p \<in> served (stored M s) nh" "finite (served (stored M s) nh)"
    using r nh finite_subset [OF served_subset gw_inv_finite [OF inv]] by (auto simp: served_def)
  then have "tn_FIPServed u \<noteq> 0" using c by auto
  then show ?thesis using that [OF u] card_le_1 [OF p] c by simp
qed

lemma last_of_vrf:
  assumes inv: "gw_inv M C s" and r: "stored M s p = Some r" and v: "vvrf_view M (st_vvrfs s) (rt_VRFID r) = Some v0"
  shows "unat (vv_FIPServed v0) \<le> 1 \<longleftrightarrow> in_vrf (stored M s) (rt_VRFID r) = {p}"
proof -
  have c: "unat (vv_FIPServed v0) = card (in_vrf (stored M s) (rt_VRFID r))" using inv v by (auto simp: gw_inv_def fip_inv_def)
  have p: "p \<in> in_vrf (stored M s) (rt_VRFID r)" "finite (in_vrf (stored M s) (rt_VRFID r))"
    using r finite_subset [OF in_vrf_subset gw_inv_finite [OF inv]] by (auto simp: in_vrf_def)
  show ?thesis using card_le_1 [OF p] c by simp
qed

text \<open>A new floating IP that was advertised and stored, and how its removal starts.\<close>

lemma advertised_new:
  assumes M: "memdb_models M C" and P: "refuses_empty P" and inv: "gw_inv M C s"
    and r: "r = NewVPPIPRoute vid mainif sub p [nh] [UndefinedTunnelID] [l]"
    and new: "stored M s p = None" "p \<noteq> ''''" and big: "card (dom (stored M s)) + 1 < 2 ^ 32"
    and adv: "tf_advertise M P cfg nets r nh l v b s w = Some (s1, w1)" and ok: "stored M s1 p \<noteq> None"
  obtains q T where "rt_NextHops q = [nh]" "rt_VRFID q = vid" "rt_Prefix q = p" "has_path q nh l" "gw_inv M C s1"
    "stored M s1 = (stored M s)(p \<mapsto> q)" "more_tunnels {nh} (tun_view M (st_tuns s)) T"
    "vvrf_view M (st_vvrfs s1) = bump vrf_inc vid (vvrf_view M (st_vvrfs s))" "tun_view M (st_tuns s1) = add_tunnels {nh} T"
proof -
  have wf: "storage_wf C s" using inv by (simp add: gw_inv_def)
  have rk: "rt_NextHops r = [nh]" "rt_Prefix r = p" "rt_VRFID r = vid" "wf_route r" "rt_FIPMPLSLabels r = [l]"
    by (simp_all add: r NewVPPIPRoute_def wf_route_def)
  have add: "AddFIPAndTunnelInVPPAndStorage M P cfg r v b s w = Some (s1, w1)"
    using adv ok new(1) IsFIPWithNHAndLabelExist_ok [OF M inv, of p nh l]
    by (auto simp: tf_advertise_def rk GetFIPRoute_def simp flip: fip_view_def split: if_splits)
  have rk': "rt_Prefix r \<noteq> ''''" using rk new by simp
  note a = AddFIPAndTunnel_ok [OF M P wf rk(4) rk' add]
  have "add_done M cfg r v b s w s1 w1" using a ok new by (auto simp: add_failed_def)
  then obtain T tids where T: "more_tunnels {nh} (tun_view M (st_tuns s)) T" "route_ok T (r\<lparr>rt_TunnelIDs := tids\<rparr>)"
      "stored M s1 = (stored M s)(p \<mapsto> r\<lparr>rt_TunnelIDs := tids\<rparr>)"
      "vvrf_view M (st_vvrfs s1) = bump vrf_inc vid (vvrf_view M (st_vvrfs s))"
      "tun_view M (st_tuns s1) = add_tunnels {nh} T"
    by (auto simp: add_done_def rk)
  let ?q = "r\<lparr>rt_TunnelIDs := tids\<rparr>"
  obtain t where "tids = [t]" using T(2) by (auto simp: route_ok_def wf_route_def rk length_Suc_conv)
  then have path: "has_path ?q nh l" by (auto simp: has_path_def paths_def rk)
  have "gw_inv M C s1" using add_gw_inv [OF M P inv rk(4) rk' _ _ add] new big by (simp add: rk)
  then show ?thesis using that [of ?q T] T path by (simp add: rk)
qed

lemma withdrawn_known:
  assumes M: "memdb_models M C" and inv: "gw_inv M C s" and q: "stored M s p = Some q" "rt_NextHops q = [nh]" "has_path q nh l"
    and wdr: "tf_withdraw M P cfg p nh l v b s w = Some (s', w')"
  shows "DelFIPAndTunnelFromVPPAndStorage M P cfg q v b s w = Some (s', w')"
proof -
  have known: "IsFIPWithNHAndLabelExist M (st_fips s) p nh l = Some True"
    using IsFIPWithNHAndLabelExist_ok [OF M inv, of p nh l] q by simp
  have nh: "nh \<in> set (rt_NextHops q)" using q(2) by simp
  obtain u where "tun_view M (st_tuns s) nh = Some u" by (rule last_of_tunnel [OF inv q(1) nh])
  then show ?thesis
    using wdr known q by (auto simp: tf_withdraw_def GetUDPTunnel_def GetFIPRoute_def
        simp flip: tun_view_def fip_view_def split: Option.bind_splits)
qed

section \<open>Properties\<close>

text \<open>
  C3: the advertisement of a new floating IP. When the prefix is inside an aggregate, neither it nor
  a tunnel to the vRouter is stored, the addresses parse, and VPP grants the tunnel and the route,
  then: VPP acknowledged exactly the creation of the tunnel and of the route through it with the
  received label; the route is stored with the tunnel's id, the tunnel with a counter of one; the
  VRF's counter goes up; and its aggregates are advertised to the physical network exactly when it
  served fewer than two floating IPs before.
\<close>

theorem tf_advertise_new:
  fixes w :: world
  assumes M: "memdb_models M C" and inv: "gw_inv M C s" and big: "card (dom (stored M s)) + 1 < 2 ^ 32"
    and new: "stored M s p = None" "tun_view M (st_tuns s) nh = None" and fip: "IsFIP p nets"
    and names: "p \<noteq> ''''" "nh \<noteq> ''''"
    and r: "r = NewVPPIPRoute vid mainif sub p [nh] [UndefinedTunnelID] [l]"
    and vrf: "vvrf_view M (st_vvrfs s) vid = Some v0" and rt: "bv_ImportRT b \<noteq> []"
    and world: "w_sends w = []" "w_bgps w = []"
      "w_replies w = Inr (UDPEncapAddReply ret i) # Inr (IPRouteAddDelV2Reply ret') # rs"
      "RetvalToVPPApiError P ret = None" "RetvalToVPPApiError P ret' = None" "i \<noteq> UndefinedTunnelID"
    and parse: "ParseAddress P (Addr (vc_TunLocalIP (cfg_VPP cfg))) = Inr src" "ParseAddress P nh = Inr dst"
      "ParsePrefix P p = Inr pre" "ParseIP4Address P nh = Inr nh4"
  shows "\<exists>s' w' port. tf_advertise M P cfg nets r nh l v b s w = Some (s', w') \<and>
     stored M s' = (stored M s)(p \<mapsto> r\<lparr>rt_TunnelIDs := [i]\<rparr>) \<and>
     tun_view M (st_tuns s') = (tun_view M (st_tuns s))(nh \<mapsto>
       (NewVPPUDPTunnel i (Addr (vc_TunLocalIP (cfg_VPP cfg))) nh port)\<lparr>tn_FIPServed := 1\<rparr>) \<and>
     vvrf_view M (st_vvrfs s') = (vvrf_view M (st_vvrfs s))(vid \<mapsto> v0\<lparr>vv_FIPServed := vv_FIPServed v0 + 1\<rparr>) \<and>
     w_acked w' = w_acked w @
       [UDPEncapAdd \<lparr>ue_TableID = 0, ue_SrcPort = port, ue_DstPort = 6635, ue_SrcIP = src, ue_DstIP = dst, ue_ID = 0\<rparr>,
        IPRouteAddDelV2 True False \<lparr>rv_TableID = vid, rv_Prefix = pre, rv_NPaths = 1, rv_Src = 0,
          rv_Paths = [fip_path P mainif nh4 i l]\<rparr>] \<and>
     w_bgp w' = w_bgp w @ (if card (in_vrf (stored M s) vid) < 2
       then map (aggregate_req True cfg v b) (vv_FIPPrefixes v) else [])"
proof -
  have wf: "storage_wf C s" using inv by (simp add: gw_inv_def)
  obtain x w0 where rand: "next_rand w = (x, w0)" by (cases "next_rand w")
  note w0 = next_rand_frame [OF rand]
  define port where "port = RandUDPTunnelSrcPort x"
  define u where "u = NewVPPUDPTunnel i (Addr (vc_TunLocalIP (cfg_VPP cfg))) nh port"
  define req1 where "req1 = UDPEncapAdd \<lparr>ue_TableID = 0, ue_SrcPort = port, ue_DstPort = 6635,
    ue_SrcIP = src, ue_DstIP = dst, ue_ID = 0\<rparr>"
  define req2 where "req2 = IPRouteAddDelV2 True False \<lparr>rv_TableID = vid, rv_Prefix = pre, rv_NPaths = 1,
    rv_Src = 0, rv_Paths = [fip_path P mainif nh4 i l]\<rparr>"
  define w1 where "w1 = w0\<lparr>w_replies := Inr (IPRouteAddDelV2Reply ret') # rs,
    w_sent := w_sent w @ [req1], w_acked := w_acked w @ [req1]\<rparr>"
  define w2 where "w2 = w1\<lparr>w_replies := rs, w_sent := w_sent w1 @ [req2], w_acked := w_acked w1 @ [req2]\<rparr>"
  define q where "q = r\<lparr>rt_TunnelIDs := [i]\<rparr>"
  define s2 where "s2 = store_fip M q (s\<lparr>st_tuns := snd (AddUDPTunnel M u (st_tuns s))\<rparr>)"
  define w3 where "w3 = (if card (in_vrf (stored M s) vid) < 2
    then w2\<lparr>w_bgp := w_bgp w2 @ map (aggregate_req True cfg v b) (vv_FIPPrefixes v)\<rparr> else w2)"
  note tunnel = ensure_new_tunnel [OF new(2) rand world(1,3,4,6) parse(1,2) u_def [unfolded port_def] req1_def [unfolded port_def],
      folded w1_def]
  have route: "AddDelFIPRoute P True q w1 = Some (Inr (), w2)"
    using AddDelFIPRoute_responsive [of w1 ret' rs P q pre "[nh4]" "[fip_path P mainif nh4 i l]" True] world parse w0
    by (simp add: w1_def w2_def q_def r NewVPPIPRoute_def fip_request_def req2_def)
  have q: "rt_NextHops q = [nh]" "rt_Prefix q = p" "rt_VRFID q = vid" by (simp_all add: q_def r NewVPPIPRoute_def)
  have uk: "tn_DstIP u = nh" "tn_FIPServed u = 0" by (simp_all add: u_def NewVPPUDPTunnel_def)
  note views = store_new_fip [OF M wf q names uk vrf s2_def]
  have quiet: "w_bgps w2 = []" using world w0 by (simp add: w2_def w1_def)
  have add: "AddFIPAndTunnelInVPPAndStorage M P cfg r v b s w = Some (s2, w3)"
    using tunnel route aggregates_log [OF rt quiet, of True cfg v "vv_FIPPrefixes v"] views(4) vrf_count_small [OF inv big vrf]
    by (simp add: AddFIPAndTunnelInVPPAndStorage_def r NewVPPIPRoute_def q_def s2_def w3_def Let_def)
  have adv: "tf_advertise M P cfg nets r nh l v b s w = Some (s2, w3)"
    using IsFIPWithNHAndLabelExist_ok [OF M inv, of p nh l] new(1) fip add
    by (simp add: tf_advertise_def r NewVPPIPRoute_def GetFIPRoute_def fip_view_def)
  have logs: "w_acked w3 = w_acked w @ [req1, req2]" "w_bgp w3 = w_bgp w @ (if card (in_vrf (stored M s) vid) < 2
       then map (aggregate_req True cfg v b) (vv_FIPPrefixes v) else [])"
    using w0 by (simp_all add: w3_def w2_def w1_def)
  show ?thesis
    using adv views logs by (intro exI [of _ s2] exI [of _ w3] exI [of _ port]) (simp add: q_def u_def req1_def req2_def)
qed

text \<open>
  C4: the removal of a floating IP. When a stored floating IP is removed, its route goes and nothing
  else does; the tunnel to one of its vRouters goes exactly when that vRouter served no other
  floating IP, and otherwise serves one less; and the VRF's aggregates are withdrawn from the
  physical network exactly when it was the last floating IP of the VRF (the GoBGP server accepting).
  This holds whatever VPP answers.
\<close>

theorem DelFIPAndTunnel_effect:
  assumes M: "memdb_models M C" and inv: "gw_inv M C s" and r: "stored M s p = Some r"
    and vrf: "vvrf_view M (st_vvrfs s) (rt_VRFID r) = Some v0"
    and bgp: "bv_ImportRT b \<noteq> []" "w_bgps w = []"
    and run: "DelFIPAndTunnelFromVPPAndStorage M P cfg r v b s w = Some (s', w')"
  shows "stored M s' = (stored M s)(p := None) \<and>
     (\<forall>nh. tun_view M (st_tuns s') nh =
        (if nh \<notin> set (rt_NextHops r) then tun_view M (st_tuns s) nh
         else if served (stored M s) nh = {p} then None
         else map_option (\<lambda>u. u\<lparr>tn_FIPServed := tn_FIPServed u - 1\<rparr>) (tun_view M (st_tuns s) nh))) \<and>
     w_bgp w' = w_bgp w @ (if in_vrf (stored M s) (rt_VRFID r) = {p}
       then map (aggregate_req False cfg v b) (vv_FIPPrefixes v) else [])"
proof -
  note g = gw_inv_route [OF M inv r]
  have wf: "storage_wf C s" using inv by (simp add: gw_inv_def)
  have d: "del_done M cfg r v b s w s' w'" using DelFIPAndTunnel_ok [OF M wf _ run] g by simp
  have "tun_view M (st_tuns s') nh =
      (if nh \<notin> set (rt_NextHops r) then tun_view M (st_tuns s) nh
       else if served (stored M s) nh = {p} then None
       else map_option (\<lambda>u. u\<lparr>tn_FIPServed := tn_FIPServed u - 1\<rparr>) (tun_view M (st_tuns s) nh))" for nh
  proof (cases "nh \<in> set (rt_NextHops r)")
    case True
    obtain u where "tun_view M (st_tuns s) nh = Some u" "tn_FIPServed u \<noteq> 0"
      "unat (tn_FIPServed u) \<le> 1 \<longleftrightarrow> served (stored M s) nh = {p}" by (rule last_of_tunnel [OF inv r True])
    then show ?thesis using d True by (simp add: del_done_def drop_tunnels_def dec32_def)
  qed (use d in \<open>simp add: del_done_def drop_tunnels_def\<close>)
  moreover have "w_bgp w' = w_bgp w @ (if in_vrf (stored M s) (rt_VRFID r) = {p}
       then map (aggregate_req False cfg v b) (vv_FIPPrefixes v) else [])"
  proof -
    have "vrf_count (vvrf_view M (st_vvrfs s')) (rt_VRFID r) = dec32 (vv_FIPServed v0)"
      using d vrf by (simp add: del_done_def vrf_count_def bump_def)
    then have z: "vrf_count (vvrf_view M (st_vvrfs s')) (rt_VRFID r) = 0 \<longleftrightarrow> in_vrf (stored M s) (rt_VRFID r) = {p}"
      using last_of_vrf [OF inv r vrf] dec32_0 by simp
    obtain w1 where w1: "bgp_quiet w w1"
        "if vrf_count (vvrf_view M (st_vvrfs s')) (rt_VRFID r) = 0
         then aggregates False cfg v b (vv_FIPPrefixes v) w1 = Some w' else w' = w1"
      using d by (auto simp: del_done_def)
    have "w_bgps w1 = []" "w_bgp w1 = w_bgp w" using w1(1) bgp(2) by (simp_all add: bgp_quiet_def)
    then show ?thesis
      using w1(2) z aggregates_log [OF bgp(1), of w1 False cfg v "vv_FIPPrefixes v"] by (auto split: if_splits)
  qed
  ultimately show ?thesis using d g by (simp add: del_done_def)
qed

text \<open>
  C6: a withdrawal undoes an advertisement. If a new floating IP is advertised and stored, and then
  withdrawn with the same next hop and label, then the routes, the tunnels and the VRF counters are
  as they were, whatever VPP and the GoBGP server answered; only a tunnel to that vRouter that served
  nothing before would be gone.
\<close>

theorem advertise_withdraw_roundtrip:
  assumes M: "memdb_models M C" and P: "refuses_empty P" and inv: "gw_inv M C s"
    and r: "r = NewVPPIPRoute vid mainif sub p [nh] [UndefinedTunnelID] [l]"
    and new: "stored M s p = None" "p \<noteq> ''''" and idle: "\<forall>u. tun_view M (st_tuns s) nh = Some u \<longrightarrow> tn_FIPServed u \<noteq> 0"
    and big: "card (dom (stored M s)) + 1 < 2 ^ 32"
    and adv: "tf_advertise M P cfg nets r nh l v b s w = Some (s1, w1)" and ok: "stored M s1 p \<noteq> None"
    and wdr: "tf_withdraw M P cfg p nh l v b s1 w2 = Some (s2, w3)"
  shows "stored M s2 = stored M s \<and> tun_view M (st_tuns s2) = tun_view M (st_tuns s) \<and>
     vvrf_view M (st_vvrfs s2) = vvrf_view M (st_vvrfs s)"
proof -
  obtain q T where q: "rt_NextHops q = [nh]" "rt_VRFID q = vid" "rt_Prefix q = p" "has_path q nh l" "gw_inv M C s1"
    "stored M s1 = (stored M s)(p \<mapsto> q)" and T: "more_tunnels {nh} (tun_view M (st_tuns s)) T"
    "vvrf_view M (st_vvrfs s1) = bump vrf_inc vid (vvrf_view M (st_vvrfs s))" "tun_view M (st_tuns s1) = add_tunnels {nh} T"
    by (rule advertised_new [OF M P inv r new big adv ok])
  have sq: "stored M s1 p = Some q" using q(6) by simp
  have "storage_wf C s1" using q(5) by (simp add: gw_inv_def)
  then have d: "del_done M cfg q v b s1 w2 s2 w3"
    using DelFIPAndTunnel_ok [OF M, of s1 q] withdrawn_known [OF M q(5) sq q(1,4) wdr] q(1) by simp
  have "tun_view M (st_tuns s2) = tun_view M (st_tuns s)"
    using d T(3) q tunnels_restored [OF T(1)] idle gw_inv_counts(1) [OF inv big] by (auto simp: del_done_def)
  moreover have "vvrf_view M (st_vvrfs s2) = vvrf_view M (st_vvrfs s)"
    using d T(2) q vrf_restored [of "vvrf_view M (st_vvrfs s)" vid] gw_inv_counts(2) [OF inv big]
    by (auto simp: del_done_def)
  moreover have "stored M s2 = stored M s"
    using d q new(1) by (auto simp: del_done_def fun_eq_iff)
  ultimately show ?thesis by simp
qed

section \<open>The properties on a sample gateway\<close>

text \<open>
  A gateway with one VRF, one floating IP with two paths, and the two tunnels they use.
\<close>

definition sample_cfg :: Config where
  "sample_cfg = \<lparr>
     cfg_Logging = \<lparr>lo_Level = ''info'', lo_Format = ''json'', lo_Output = ''stdout'', lo_Source = False\<rparr>,
     cfg_HTTP = \<lparr>ht_Enable = False, ht_Address = ''''\<rparr>,
     cfg_Pyroscope = \<lparr>py_Enable = False, py_URL = ''''\<rparr>,
     cfg_TFController = \<lparr>tf_BGPPeerASN = 64512, tf_BGPTTL = 10, tf_BGPKeepAlive = 30, tf_BGPHoldTimer = 90, tf_Address = [''10.0.0.9'']\<rparr>,
     cfg_GoBGP = \<lparr>gb_GRPCListenAddress = '''', gb_BGPLocalASN = 65000, gb_BGPLocalPort = 179, gb_RID = ''10.0.0.2'',
       gb_MetricPollingInterval = 3\<rparr>,
     cfg_VPP = \<lparr>vc_BinAPISock = ''/run/vpp/api.sock'', vc_MainInterfaceID = 1, vc_TunLocalIP = ''10.0.0.2/24'',
       vc_TunDefaultGW = ''10.0.0.254'', vc_InterfaceMonitorEnable = True, vc_MetricPollingInterval = 3\<rparr>,
     cfg_VRF = []\<rparr>"

definition sample_tunnel :: "u32 \<Rightarrow> string \<Rightarrow> VPPUDPTunnel" where
  "sample_tunnel i nh = NewVPPUDPTunnel i ''10.0.0.2'' nh 50000"

definition sample_route2 :: VPPIPRoute where
  "sample_route2 = NewVPPIPRoute 1 1 5 ''203.0.113.7/32'' [''10.0.0.1'', ''10.0.0.3''] [3, 4] [77, 78]"

definition sample_storage2 :: "(key \<times> keys \<times> addr) list storage" where
  "sample_storage2 = store_fip alist_memdb sample_route2 (sample_storage\<lparr>st_tuns :=
     snd (AddUDPTunnel alist_memdb (sample_tunnel 4 ''10.0.0.3'')
       (snd (AddUDPTunnel alist_memdb (sample_tunnel 3 ''10.0.0.1'') (st_tuns sample_storage))))\<rparr>)"

definition sample_nets :: "ipnet list" where
  "sample_nets = parsed_nets [([203, 0, 113, 0], 24)]"

definition sample_env :: handler_env where
  "sample_env = \<lparr>he_peerTypes = [''10.0.0.9'' \<mapsto> 0], he_vrfNextHops = [1 \<mapsto> ''192.0.2.1''],
     he_aggregates = sample_nets\<rparr>"

definition ok_world :: world where
  "ok_world = empty_world\<lparr>w_replies := [Inr (IPRouteAddDelV2Reply 0)]\<rparr>"

definition sample_new :: VPPIPRoute where
  "sample_new = NewVPPIPRoute 1 1 5 ''203.0.113.8/32'' [''10.0.0.1''] [UndefinedTunnelID] [79]"

lemma sample_refuses: "refuses_empty sample_govpp"
  by (simp add: refuses_empty_def sample_govpp_def sample_bytes_def)

lemma sample_vrf_simps: "vv_FIPServed sample_vrf = 0" "bv_ImportRT sample_bvrf \<noteq> []"
  by (simp_all add: sample_vrf_def NewVPPVRFTable_def sample_bvrf_def NewBGPVRFTable_def)

lemma sample_route2_simps:
  "rt_NextHops sample_route2 = [''10.0.0.1'', ''10.0.0.3'']" "rt_TunnelIDs sample_route2 = [3, 4]"
  "rt_FIPMPLSLabels sample_route2 = [77, 78]" "rt_Prefix sample_route2 = ''203.0.113.7/32''"
  "rt_VRFID sample_route2 = 1"
  by (simp_all add: sample_route2_def NewVPPIPRoute_def)

lemma sample_gw_inv0: "gw_inv alist_memdb map_of sample_storage"
  using sample_vrf_simps by (simp add: gw_inv_def sample_storage_views fip_inv_def in_vrf_def)

definition sample_tunnels :: "string \<rightharpoonup> VPPUDPTunnel" where
  "sample_tunnels = [''10.0.0.1'' \<mapsto> sample_tunnel 3 ''10.0.0.1'', ''10.0.0.3'' \<mapsto> sample_tunnel 4 ''10.0.0.3'']"

lemma sample_storage2_views:
  "gw_inv alist_memdb map_of sample_storage2"
  "fip_view alist_memdb (st_fips sample_storage2) = [''203.0.113.7/32'' \<mapsto> sample_route2]"
  "tun_view alist_memdb (st_tuns sample_storage2) = add_tunnels {''10.0.0.1'', ''10.0.0.3''} sample_tunnels"
  "vvrf_view alist_memdb (st_vvrfs sample_storage2) = [1 \<mapsto> sample_vrf\<lparr>vv_FIPServed := 1\<rparr>]"
proof -
  have t0: "tbl_wf map_of tun_keys (st_tuns sample_storage)" using sample_storage_views(1) by (simp add: storage_wf_def)
  have dst: "tn_DstIP (sample_tunnel i nh) = nh" for i nh by (simp add: sample_tunnel_def NewVPPUDPTunnel_def)
  note t1 = AddUDPTunnel_ok [OF alist_memdb_models t0, of "sample_tunnel 3 ''10.0.0.1''", unfolded dst]
  note t2 = AddUDPTunnel_ok [OF alist_memdb_models t1(3), of "sample_tunnel 4 ''10.0.0.3''", unfolded dst]
  define s where "s = sample_storage\<lparr>st_tuns := snd (AddUDPTunnel alist_memdb (sample_tunnel 4 ''10.0.0.3'')
       (snd (AddUDPTunnel alist_memdb (sample_tunnel 3 ''10.0.0.1'') (st_tuns sample_storage))))\<rparr>"
  have s2: "sample_storage2 = store_fip alist_memdb sample_route2 s" by (simp add: sample_storage2_def s_def)
  have tun: "tun_view alist_memdb (st_tuns s) = sample_tunnels"
    using t1(2) t2(2) by (simp add: s_def sample_tunnels_def sample_storage_views)
  have wf: "storage_wf map_of s" using sample_storage_views(1) t1 t2 by (simp add: storage_wf_def s_def)
  have d: "distinct (rt_NextHops sample_route2)" "rt_Prefix sample_route2 \<noteq> ''''" by (simp_all add: sample_route2_simps)
  note st = store_fip_ok [OF alist_memdb_models wf d]
  have F: "fip_view alist_memdb (st_fips s) = Map.empty" "vvrf_view alist_memdb (st_vvrfs s) = [1 \<mapsto> sample_vrf]"
    using sample_storage_views by (simp_all add: s_def)
  show views: "fip_view alist_memdb (st_fips sample_storage2) = [''203.0.113.7/32'' \<mapsto> sample_route2]"
    "tun_view alist_memdb (st_tuns sample_storage2) = add_tunnels {''10.0.0.1'', ''10.0.0.3''} sample_tunnels"
    "vvrf_view alist_memdb (st_vvrfs sample_storage2) = [1 \<mapsto> sample_vrf\<lparr>vv_FIPServed := 1\<rparr>]"
    using st F tun sample_vrf_simps by (simp_all add: s2 sample_route2_simps bump_def)
  have served0: "tn_FIPServed (sample_tunnel i nh) = 0" "tn_TunnelID (sample_tunnel i nh) = i" for i nh
    by (simp_all add: sample_tunnel_def NewVPPUDPTunnel_def)
  have inv0: "fip_inv Map.empty sample_tunnels [1 \<mapsto> sample_vrf]"
    using sample_vrf_simps served0 by (auto simp: fip_inv_def in_vrf_def served_def sample_tunnels_def split: if_splits)
  have rok: "route_ok sample_tunnels sample_route2"
    using served0 by (auto simp: route_ok_def wf_route_def sample_route2_simps sample_tunnels_def less_Suc_eq)
  have "fip_inv [''203.0.113.7/32'' \<mapsto> sample_route2] (add_tunnels (set (rt_NextHops sample_route2)) sample_tunnels)
      (bump vrf_inc (rt_VRFID sample_route2) [1 \<mapsto> sample_vrf])"
    by (rule fip_inv_add [OF inv0 _ rok]) simp_all
  then show "gw_inv alist_memdb map_of sample_storage2"
    using st(1) views sample_vrf_simps by (simp add: gw_inv_def s2 sample_route2_simps bump_def)
qed

lemma not_none: "\<not> Option.is_none x \<Longrightarrow> \<exists>s w. x = Some (s, w)"
  by (cases x) auto

lemma sample_parse:
  "ParseBGPUpdate sample_json (sample_path True) (he_vrfNextHops sample_env) [] (he_peerTypes sample_env)
     (tf_BGPPeerASN (cfg_TFController sample_cfg)) (gb_BGPLocalASN (cfg_GoBGP sample_cfg)) =
     Some (True, False, NewBGPNLRIAttrs ''203.0.113.7/32'' ''10.0.0.1'' 1 None [] [77], None)"
proof -
  have atoi: "Atoi ''64512'' = Inr 64512" "Atoi ''1'' = Inr 1" "Atoi ''77'' = Inr 77" by code_simp+
  have field: "sample_field ''prefix'' = ''203.0.113.7''" "sample_field ''prefix_len'' = ''32''"
    "sample_field ''rd.admin'' = ''10.0.0.1''" "sample_field ''labels.0'' = ''77''" by code_simp+
  show ?thesis
    by (simp add: ParseBGPUpdate_def ParseVPNv4UpdateFromTF_def sample_json_def sample_path_def own_text_def
        parsed_prefix_def parsed_len_def atoi field Let_def sample_cfg_def sample_env_def at_def)
qed

lemma sample_lookups:
  "IsConfiguredBGPPeer alist_memdb (st_peers sample_storage2) ''10.0.0.9'' = False"
  "VPP_GetVRF alist_memdb (st_vvrfs sample_storage2) 1 = Some (sample_vrf\<lparr>vv_FIPServed := 1\<rparr>)"
  "BGP_GetVRF alist_memdb (st_bvrfs sample_storage2) 1 = Some sample_bvrf"
proof -
  show "IsConfiguredBGPPeer alist_memdb (st_peers sample_storage2) ''10.0.0.9'' = False" by code_simp
  show "VPP_GetVRF alist_memdb (st_vvrfs sample_storage2) 1 = Some (sample_vrf\<lparr>vv_FIPServed := 1\<rparr>)"
    using sample_storage2_views(4) by (simp add: VPP_GetVRF_def vvrf_view_def fun_eq_iff)
  have "st_bvrfs sample_storage2 = st_bvrfs sample_storage" by (simp add: sample_storage2_def store_fip_def)
  then show "BGP_GetVRF alist_memdb (st_bvrfs sample_storage2) 1 = Some sample_bvrf"
    using sample_storage_views(3) by (simp add: BGP_GetVRF_def bvrf_view_def fun_eq_iff)
qed

theorem handle_tf_paths_invariant_witness:
  "\<exists>s' w'. handle_tf_paths alist_memdb sample_govpp sample_json sample_cfg sample_env [([], sample_path True)]
       sample_storage2 empty_world = Some (s', w') \<and> storage_wf map_of s'"
proof -
  have "\<not> Option.is_none (tf_withdraw alist_memdb sample_govpp sample_cfg ''203.0.113.7/32'' ''10.0.0.1'' 77
      (sample_vrf\<lparr>vv_FIPServed := 1\<rparr>) sample_bvrf sample_storage2 empty_world)"
    by code_simp
  then obtain s' w' where "tf_withdraw alist_memdb sample_govpp sample_cfg ''203.0.113.7/32'' ''10.0.0.1'' 77
      (sample_vrf\<lparr>vv_FIPServed := 1\<rparr>) sample_bvrf sample_storage2 empty_world = Some (s', w')" using not_none by blast
  then have run: "handle_tf_paths alist_memdb sample_govpp sample_json sample_cfg sample_env
      [([], sample_path True)] sample_storage2 empty_world = Some (s', w')"
    using sample_parse sample_lookups by (simp add: handle_tf_path_def NewBGPNLRIAttrs_def sample_path_def)
  have wf: "storage_wf map_of sample_storage2" "fip_inv (fip_view alist_memdb (st_fips sample_storage2))
      (tun_view alist_memdb (st_tuns sample_storage2)) (vvrf_view alist_memdb (st_vvrfs sample_storage2))"
    using sample_storage2_views(1) by (simp_all add: gw_inv_def)
  show ?thesis
    using handle_tf_paths_invariant [OF alist_memdb_models sample_refuses wf _ run] run
    by (auto simp: sample_storage2_views)
qed

lemma sample_paths: "paths sample_route2 = [(''10.0.0.1'', 3, 77), (''10.0.0.3'', 4, 78)]"
  by (simp add: paths_def sample_route2_simps)

theorem tf_update_noop_witness:
  "tf_withdraw alist_memdb sample_govpp sample_cfg ''203.0.113.8/32'' ''10.0.0.1'' 79 sample_vrf sample_bvrf
     sample_storage2 empty_world = Some (sample_storage2, empty_world)"
proof -
  have "rt_Prefix sample_new = ''203.0.113.8/32''" by (simp add: sample_new_def NewVPPIPRoute_def)
  then show ?thesis
    using tf_update_noop [OF alist_memdb_models sample_storage2_views(1), of sample_new "''203.0.113.8/32''"]
    by (simp add: sample_storage2_views)
qed

theorem tf_advertise_panics_witness:
  "tf_advertise alist_memdb sample_govpp sample_cfg sample_nets
     (NewVPPIPRoute 1 1 5 ''203.0.113.7/32'' [''10.0.0.1''] [UndefinedTunnelID] [99]) ''10.0.0.1'' 99
     sample_vrf sample_bvrf sample_storage2 empty_world = None"
proof (rule tf_advertise_panics [OF alist_memdb_models sample_storage2_views(1), of _ sample_route2])
  let ?r = "NewVPPIPRoute 1 1 5 ''203.0.113.7/32'' [''10.0.0.1''] [UndefinedTunnelID] [99]"
  have p: "rt_Prefix ?r = ''203.0.113.7/32''" by (simp add: NewVPPIPRoute_def)
  show "fip_view alist_memdb (st_fips sample_storage2) (rt_Prefix ?r) = Some sample_route2"
    by (simp add: p sample_storage2_views)
  show "IsFIP (rt_Prefix ?r) sample_nets" unfolding p by code_simp
qed (simp_all add: sample_route2_simps has_path_def sample_paths)

theorem tf_advertise_new_witness:
  "\<exists>s' w' port. tf_advertise alist_memdb sample_govpp sample_cfg sample_nets sample_new ''10.0.0.1'' 79 sample_vrf sample_bvrf
       sample_storage (empty_world\<lparr>w_replies := [Inr (UDPEncapAddReply 0 9), Inr (IPRouteAddDelV2Reply 0)]\<rparr>) = Some (s', w') \<and>
     fip_view alist_memdb (st_fips s') ''203.0.113.8/32'' = Some (sample_new\<lparr>rt_TunnelIDs := [9]\<rparr>) \<and>
     w_bgp w' = map (aggregate_req True sample_cfg sample_vrf sample_bvrf) (vv_FIPPrefixes sample_vrf) \<and>
     tun_view alist_memdb (st_tuns s') ''10.0.0.1'' =
       Some ((NewVPPUDPTunnel 9 ''10.0.0.2'' ''10.0.0.1'' port)\<lparr>tn_FIPServed := 1\<rparr>)"
proof -
  let ?w = "empty_world\<lparr>w_replies := [Inr (UDPEncapAddReply 0 9), Inr (IPRouteAddDelV2Reply 0)]\<rparr>"
  have fip: "IsFIP ''203.0.113.8/32'' sample_nets" by code_simp
  have addr: "Addr (vc_TunLocalIP (cfg_VPP sample_cfg)) = ''10.0.0.2''" by code_simp
  have world: "w_sends ?w = []" "w_bgps ?w = []"
      "w_replies ?w = Inr (UDPEncapAddReply 0 9) # Inr (IPRouteAddDelV2Reply 0) # []" "w_bgp ?w = []"
    by (simp_all add: empty_world_def)
  have ret: "RetvalToVPPApiError sample_govpp 0 = None" by (simp add: sample_govpp_def)
  obtain src dst pre nh4 where parse: "ParseAddress sample_govpp ''10.0.0.2'' = Inr src"
      "ParseAddress sample_govpp ''10.0.0.1'' = Inr dst"
      "ParsePrefix sample_govpp ''203.0.113.8/32'' = Inr pre" "ParseIP4Address sample_govpp ''10.0.0.1'' = Inr nh4"
    by (simp add: sample_govpp_def sample_bytes_def)
  show ?thesis
    using tf_advertise_new [OF alist_memdb_models sample_gw_inv0 _ _ _ fip _ _ sample_new_def _ sample_vrf_simps(2)
        world(1-3) ret ret _ parse(1) [folded addr] parse(2-4), of sample_vrf sample_vrf]
    by (fastforce simp: sample_storage_views addr in_vrf_def world)
qed

theorem DelFIPAndTunnel_effect_witness:
  "\<exists>s' w'. DelFIPAndTunnelFromVPPAndStorage alist_memdb sample_govpp sample_cfg sample_route2 sample_vrf sample_bvrf
       sample_storage2 empty_world = Some (s', w') \<and>
     fip_view alist_memdb (st_fips s') = Map.empty \<and>
     w_bgp w' = map (aggregate_req False sample_cfg sample_vrf sample_bvrf) (vv_FIPPrefixes sample_vrf)"
proof -
  have "\<not> Option.is_none (DelFIPAndTunnelFromVPPAndStorage alist_memdb sample_govpp sample_cfg sample_route2
      sample_vrf sample_bvrf sample_storage2 empty_world)"
    by code_simp
  then obtain s' w' where run: "DelFIPAndTunnelFromVPPAndStorage alist_memdb sample_govpp sample_cfg sample_route2
      sample_vrf sample_bvrf sample_storage2 empty_world = Some (s', w')" using not_none by blast
  have r: "fip_view alist_memdb (st_fips sample_storage2) ''203.0.113.7/32'' = Some sample_route2"
    by (simp add: sample_storage2_views)
  have v: "vvrf_view alist_memdb (st_vvrfs sample_storage2) (rt_VRFID sample_route2) = Some (sample_vrf\<lparr>vv_FIPServed := 1\<rparr>)"
    by (simp add: sample_storage2_views sample_route2_simps)
  have w: "w_bgps empty_world = []" "w_bgp empty_world = []" by (simp_all add: empty_world_def)
  show ?thesis
    using DelFIPAndTunnel_effect [OF alist_memdb_models sample_storage2_views(1) r v sample_vrf_simps(2) w(1) run] run
    by (auto simp: sample_storage2_views in_vrf_def sample_route2_simps w)
qed

theorem advertise_withdraw_roundtrip_witness:
  "\<exists>s1 w1 s2 w3. tf_advertise alist_memdb sample_govpp sample_cfg sample_nets sample_new ''10.0.0.1'' 79
       sample_vrf sample_bvrf sample_storage2 ok_world = Some (s1, w1) \<and>
     tf_withdraw alist_memdb sample_govpp sample_cfg ''203.0.113.8/32'' ''10.0.0.1'' 79
       sample_vrf sample_bvrf s1 empty_world = Some (s2, w3) \<and>
     tun_view alist_memdb (st_tuns s2) = tun_view alist_memdb (st_tuns sample_storage2)"
proof -
  let ?adv = "tf_advertise alist_memdb sample_govpp sample_cfg sample_nets sample_new ''10.0.0.1'' 79
       sample_vrf sample_bvrf sample_storage2 ok_world"
  let ?wdr = "\<lambda>s1. tf_withdraw alist_memdb sample_govpp sample_cfg ''203.0.113.8/32'' ''10.0.0.1'' 79
       sample_vrf sample_bvrf s1 empty_world"
  have stored: "case ?adv of None \<Rightarrow> False | Some (s1, w1) \<Rightarrow>
      \<not> Option.is_none (fip_view alist_memdb (st_fips s1) ''203.0.113.8/32'')" by code_simp
  have gone: "case ?adv of None \<Rightarrow> False | Some (s1, w1) \<Rightarrow> \<not> Option.is_none (?wdr s1)" by code_simp
  obtain s1 w1 where adv: "?adv = Some (s1, w1)" using gone by (auto split: option.splits)
  have "\<not> Option.is_none (?wdr s1)" using gone adv by simp
  then obtain s2 w3 where wdr: "?wdr s1 = Some (s2, w3)" using not_none by blast
  have ok: "fip_view alist_memdb (st_fips s1) ''203.0.113.8/32'' \<noteq> None"
    using stored adv by (auto simp: Option.is_none_def)
  have idle: "\<forall>u. tun_view alist_memdb (st_tuns sample_storage2) ''10.0.0.1'' = Some u \<longrightarrow> tn_FIPServed u \<noteq> 0"
    by (simp add: sample_storage2_views add_tunnels_def sample_tunnels_def sample_tunnel_def NewVPPUDPTunnel_def)
  show ?thesis
    using advertise_withdraw_roundtrip [OF alist_memdb_models sample_refuses sample_storage2_views(1) sample_new_def
        _ _ idle _ adv ok wdr] adv wdr
    by (auto simp: sample_storage2_views)
qed

end
