(* ===== verification/Phynet_Service.thy ===== *)
theory Phynet_Service
  imports Fip_Effects
begin

text \<open>
  \<^verbatim>\<open>handle_bgp_update.go\<close>, the updates from the physical network: each installs or removes a route in
  VPP and is passed on to the controllers as a VPNv4 prefix with the local label of its VRF. The
  handler only reads the storage, so its result is the world.
\<close>

section \<open>The handler\<close>

text \<open>
  An error of the parser is logged and the iteration goes on; a missing VRF is dereferenced all the
  same, before anything is sent.
\<close>

definition handle_pn_path :: "'d memdb \<Rightarrow> govpp \<Rightarrow> 'j json \<Rightarrow> Config \<Rightarrow> handler_env \<Rightarrow> (u32 \<times> string) list
    \<Rightarrow> Path \<Rightarrow> 'd storage \<Rightarrow> world \<Rightarrow> world go" where
  "handle_pn_path M P J cfg env entries path s w =
     (if IsConfiguredBGPPeer M (st_peers s) (p_NeighborIp path) \<and> IsTF M (st_peers s) (p_NeighborIp path)
      then Some w
      else do {
        (fromTF, fromPN, a, e) \<leftarrow> ParseBGPUpdate J path (he_vrfNextHops env) entries (he_peerTypes env)
          (tf_BGPPeerASN (cfg_TFController cfg)) (gb_BGPLocalASN (cfg_GoBGP cfg));
        (if \<not> fromPN then Some w
         else do {
           v \<leftarrow> VPP_GetVRF M (st_vvrfs s) (na_VRFID a);
           b \<leftarrow> BGP_GetVRF M (st_bvrfs s) (na_VRFID a);
           default \<leftarrow> VPP_GetVRF M (st_vvrfs s) 0;
           (let route = NewVPPIPRoute (na_VRFID a) (vc_MainInterfaceID (cfg_VPP cfg)) (vv_SubInterfaceID v)
                  (na_Prefix a) [na_NextHop a] [] [];
                attrs = NewBGPNLRIAttrs (na_Prefix a) (vv_LocalAddr default) 0 (bv_RD b) (bv_ExportRT b)
                  [vv_MPLSLocalLabel v]
            in if p_IsWithdraw path then do {
                 (res, w) \<leftarrow> AddDelIPRoute P False route w;
                 (e, w) \<leftarrow> AdvWdrawVpnv4Prefix False attrs (bv_PeerASN b) w;
                 Some w
               }
               else do {
                 (res, w) \<leftarrow> AddDelIPRoute P True route w;
                 (e, w) \<leftarrow> AdvWdrawVpnv4Prefix True attrs (bv_PeerASN b) w;
                 Some w
               })
         })
      })"

fun handle_pn_paths :: "'d memdb \<Rightarrow> govpp \<Rightarrow> 'j json \<Rightarrow> Config \<Rightarrow> handler_env
    \<Rightarrow> ((u32 \<times> string) list \<times> Path) list \<Rightarrow> 'd storage \<Rightarrow> world \<Rightarrow> world go" where
  "handle_pn_paths M P J cfg env [] s w = Some w"
| "handle_pn_paths M P J cfg env ((entries, path) # rest) s w = do {
     w \<leftarrow> handle_pn_path M P J cfg env entries path s w;
     handle_pn_paths M P J cfg env rest s w
   }"

section \<open>What an update asks for\<close>

text \<open>
  The VPNv4 path the controllers get for a prefix of a VRF, and the request that carries it: the
  VRF's route distinguisher, first export target and local label, the gateway's own tunnel address as
  next hop, and the AS number of the physical network for loop prevention.
\<close>

definition pn_vpn_path :: "VPPVRFTable \<Rightarrow> BGPVRFTable \<Rightarrow> any \<Rightarrow> string \<Rightarrow> string \<Rightarrow> Path" where
  "pn_vpn_path v b rt gateway prefix =
     (let nlri = LabeledVPNIPAddressPrefix [vv_MPLSLocalLabel v] (bv_RD b) (Addr prefix) (MaskLen prefix) in
      \<lparr>p_Nlri = nlri,
       p_Pattrs = [OriginAttribute 2, MultiExitDiscAttribute 0, LocalPrefAttribute 100,
         ExtendedCommunitiesAttribute [rt, EncapExtended 13],
         MpReachNLRIAttribute AFI_IP SAFI_MPLS_VPN [nlri] [gateway], AsPathAttribute [(2, [bv_PeerASN b])]],
       p_Afi = AFI_IP, p_Safi = SAFI_MPLS_VPN, p_IsWithdraw = False, p_SourceAsn = 0, p_NeighborIp = ''''\<rparr>)"

definition pn_bgp_req :: "bool \<Rightarrow> Path \<Rightarrow> bgp_req" where
  "pn_bgp_req withdraw path = (if withdraw then BgpDeletePath GLOBAL path else BgpAddPath GLOBAL path)"

text \<open>
  What identifies an update of the physical network and the VRF it is for: a neighbor of that type,
  whose address is the next hop of exactly one VRF, a foreign source AS and an NLRI that marshals.
\<close>

definition pn_update :: "'d memdb \<Rightarrow> 'j json \<Rightarrow> Config \<Rightarrow> handler_env \<Rightarrow> 'd storage \<Rightarrow> (u32 \<times> string) list \<Rightarrow> Path
    \<Rightarrow> u32 \<Rightarrow> string \<Rightarrow> bool" where
  "pn_update M J cfg env s entries path i nlri \<longleftrightarrow>
     he_peerTypes env (p_NeighborIp path) = Some PHYNET \<and> \<not> IsTF M (st_peers s) (p_NeighborIp path) \<and>
     p_SourceAsn path \<noteq> gb_BGPLocalASN (cfg_GoBGP cfg) \<and> Marshal J (p_Nlri path) = Inr nlri \<and>
     (i, p_NeighborIp path) \<in> set entries \<and> (\<forall>j. (j, p_NeighborIp path) \<in> set entries \<longrightarrow> j = i)"

lemma vrf_of_neighbor_found: "(i, ip) \<in> set es \<Longrightarrow> (vrf_of_neighbor es ip, ip) \<in> set es"
  by (induction es) (auto split: if_splits)

lemma vrf_of_neighbor_unique:
  "(i, ip) \<in> set es \<Longrightarrow> \<forall>j. (j, ip) \<in> set es \<longrightarrow> j = i \<Longrightarrow> vrf_of_neighbor es ip = i"
  using vrf_of_neighbor_found by blast

lemma ParseBGPUpdate_PN:
  assumes "pn_update M J cfg env s entries path i nlri"
  shows "ParseBGPUpdate J path vrfs entries (he_peerTypes env) tfASN (gb_BGPLocalASN (cfg_GoBGP cfg)) =
     Some (False, True, NewBGPNLRIAttrs (parsed_prefix J nlri) (p_NeighborIp path) i None [] [UndefinedLabel], None)"
  using assms vrf_of_neighbor_unique [of i "p_NeighborIp path" entries]
  by (simp add: pn_update_def ParseBGPUpdate_def ParseVPNv4UpdateFromPHYNET_def)

lemma vpnv4_path_pn:
  "bv_ExportRT b = rt # rts \<Longrightarrow>
     vpnv4_path (NewBGPNLRIAttrs prefix gateway 0 (bv_RD b) (bv_ExportRT b) [vv_MPLSLocalLabel v]) (bv_PeerASN b) =
     Some (pn_vpn_path v b rt gateway prefix)"
  by (simp add: vpnv4_path_def NewBGPNLRIAttrs_def pn_vpn_path_def Let_def)

lemma AdvWdraw_pn:
  assumes "bv_ExportRT b = rt # rts" "w_bgps w = []"
  shows "AdvWdrawVpnv4Prefix adv (NewBGPNLRIAttrs prefix gateway 0 (bv_RD b) (bv_ExportRT b) [vv_MPLSLocalLabel v])
     (bv_PeerASN b) w = Some (None, w\<lparr>w_bgp := w_bgp w @ [pn_bgp_req (\<not> adv) (pn_vpn_path v b rt gateway prefix)]\<rparr>)"
  using assms vpnv4_path_pn [OF assms(1)] by (simp add: AdvWdrawVpnv4Prefix_def bgp_call_def pn_bgp_req_def)

text \<open>The two steps of an update that is accepted.\<close>

lemma handle_pn_path_steps:
  assumes u: "pn_update M J cfg env s entries path i nlri"
    and v: "VPP_GetVRF M (st_vvrfs s) i = Some v" "BGP_GetVRF M (st_bvrfs s) i = Some b"
      "VPP_GetVRF M (st_vvrfs s) 0 = Some d"
    and rt: "bv_ExportRT b = rt # rts"
  shows "handle_pn_path M P J cfg env entries path s w = do {
     (res, w) \<leftarrow> AddDelIPRoute P (\<not> p_IsWithdraw path)
       (NewVPPIPRoute i (vc_MainInterfaceID (cfg_VPP cfg)) (vv_SubInterfaceID v) (parsed_prefix J nlri)
          [p_NeighborIp path] [] []) w;
     (e, w) \<leftarrow> AdvWdrawVpnv4Prefix (\<not> p_IsWithdraw path)
       (NewBGPNLRIAttrs (parsed_prefix J nlri) (vv_LocalAddr d) 0 (bv_RD b) (bv_ExportRT b) [vv_MPLSLocalLabel v])
       (bv_PeerASN b) w;
     Some w
   }"
proof -
  have notTF: "\<not> IsTF M (st_peers s) (p_NeighborIp path)" using u by (simp add: pn_update_def)
  have a: "na_VRFID (NewBGPNLRIAttrs x y i z rd l) = i" "na_Prefix (NewBGPNLRIAttrs x y i z rd l) = x"
    "na_NextHop (NewBGPNLRIAttrs x y i z rd l) = y" for x y z rd l
    by (simp_all add: NewBGPNLRIAttrs_def)
  show ?thesis
    using v notTF ParseBGPUpdate_PN [OF u] by (simp add: handle_pn_path_def a Let_def)
qed

lemma AddDelIPRoute_vpp_only: "AddDelIPRoute P adv r w = Some (x, w') \<Longrightarrow> vpp_only w w'"
  by (auto simp: AddDelIPRoute_def liftE_def failE_def elim!: bindE_SomeE dest!: roundtrip_cases
      split: if_splits)

lemma AddDelIPRoute_responsive:
  assumes "w_sends w = []" "w_replies w = Inr (IPRouteAddDelV2Reply ret) # rs" "RetvalToVPPApiError P ret = None"
    "ParsePrefix P (rt_Prefix r) = Inr pre" "parse_nhs P (rt_NextHops r) = Inr nhs"
    "rt_VRFID r \<noteq> 0" "rt_SubInterfaceID r \<noteq> UndefinedSubIf"
  shows "AddDelIPRoute P isAdd r w = (let req = IPRouteAddDelV2 isAdd True
       \<lparr>rv_TableID = rt_VRFID r, rv_Prefix = pre, rv_NPaths = of_nat (length (rt_NextHops r)), rv_Src = 0,
        rv_Paths = map (ip_path P (rt_VRFID r) (rt_SubInterfaceID r)) nhs\<rparr>
     in Some (Inr (), w\<lparr>w_replies := rs, w_sent := w_sent w @ [req], w_acked := w_acked w @ [req]\<rparr>))"
  using assms by (simp add: AddDelIPRoute_def liftE_def re_IPRoute_def Let_def
      roundtrip_ok [where m = "IPRouteAddDelV2Reply ret" and ret = ret and a = "()" and rs = rs])

text \<open>The request an update leads to, and the updates this is stated for.\<close>

definition pn_request :: "'j json \<Rightarrow> (Path \<Rightarrow> string) \<Rightarrow> (Path \<Rightarrow> VPPVRFTable) \<Rightarrow> (Path \<Rightarrow> BGPVRFTable) \<Rightarrow> (Path \<Rightarrow> any)
    \<Rightarrow> VPPVRFTable \<Rightarrow> (u32 \<times> string) list \<times> Path \<Rightarrow> bgp_req" where
  "pn_request J nlri v b rt d = (\<lambda>(_, path). pn_bgp_req (p_IsWithdraw path)
     (pn_vpn_path (v path) (b path) (rt path) (vv_LocalAddr d) (parsed_prefix J (nlri path))))"

definition pn_known :: "'d memdb \<Rightarrow> 'j json \<Rightarrow> Config \<Rightarrow> handler_env \<Rightarrow> 'd storage \<Rightarrow> (Path \<Rightarrow> u32) \<Rightarrow> (Path \<Rightarrow> string)
    \<Rightarrow> (Path \<Rightarrow> VPPVRFTable) \<Rightarrow> (Path \<Rightarrow> BGPVRFTable) \<Rightarrow> (Path \<Rightarrow> any) \<Rightarrow> (u32 \<times> string) list \<times> Path \<Rightarrow> bool" where
  "pn_known M J cfg env s vrf nlri v b rt = (\<lambda>(entries, path).
     pn_update M J cfg env s entries path (vrf path) (nlri path) \<and>
     VPP_GetVRF M (st_vvrfs s) (vrf path) = Some (v path) \<and> BGP_GetVRF M (st_bvrfs s) (vrf path) = Some (b path) \<and>
     bv_ExportRT (b path) = [rt path])"

lemma handle_pn_path_request:
  assumes known: "pn_known M J cfg env s vrf nlri v b rt (entries, path)"
    and d: "VPP_GetVRF M (st_vvrfs s) 0 = Some d" and w: "w_bgps w = []"
    and run: "handle_pn_path M P J cfg env entries path s w = Some w1"
  shows "w_bgps w1 = []" "w_bgp w1 = w_bgp w @ [pn_request J nlri v b rt d (entries, path)]"
proof -
  note facts = known [unfolded pn_known_def prod.case]
  obtain res w0 where w0: "vpp_only w w0" "AdvWdrawVpnv4Prefix (\<not> p_IsWithdraw path)
      (NewBGPNLRIAttrs (parsed_prefix J (nlri path)) (vv_LocalAddr d) 0 (bv_RD (b path)) (bv_ExportRT (b path))
        [vv_MPLSLocalLabel (v path)]) (bv_PeerASN (b path)) w0 = Some (res, w1)"
    using run handle_pn_path_steps [of M J cfg env s entries path "vrf path" "nlri path" "v path" "b path" d "rt path" "[]"] facts d
    by (auto split: Option.bind_splits dest!: AddDelIPRoute_vpp_only)
  have "w_bgps w0 = []" "w_bgp w0 = w_bgp w" using w0(1) w by (simp_all add: vpp_only_def)
  then show "w_bgps w1 = []" "w_bgp w1 = w_bgp w @ [pn_request J nlri v b rt d (entries, path)]"
    using w0(2) AdvWdraw_pn [of "b path" "rt path" "[]" w0] facts by (auto simp: pn_request_def)
qed

text \<open>The watcher of the updates of the physical network is an event loop traced by the requests.\<close>

interpretation pn_loop: traced_loop "\<lambda>(entries, path) w. handle_pn_path M P J cfg env entries path s w"
    "\<lambda>ups w. handle_pn_paths M P J cfg env ups s w" "\<lambda>_. pn_known M J cfg env s vrf nlri v b rt"
    "\<lambda>_ w. VPP_GetVRF M (st_vvrfs s) 0 = Some d \<and> w_bgps w = []" w_bgp "pn_request J nlri v b rt d"
    for M P J cfg env s vrf nlri v b rt d
  by unfold_locales (auto simp: handle_pn_path_request split: Option.bind_split)

section \<open>Properties\<close>

text \<open>
  C8: an update from the physical network, when VPP answers. VPP is asked exactly for the route of
  the prefix in the table of the neighbor's VRF, over that VRF's sub-interface and to the neighbor,
  added or removed as the update says; the GoBGP server is asked exactly for the VPNv4 path of the
  prefix with the VRF's distinguisher, export target and local label, announced or withdrawn.
\<close>

theorem pn_update_effect:
  assumes u: "pn_update M J cfg env s entries path i nlri" and p: "p = parsed_prefix J nlri"
    and v: "VPP_GetVRF M (st_vvrfs s) i = Some v" "BGP_GetVRF M (st_bvrfs s) i = Some b"
      "VPP_GetVRF M (st_vvrfs s) 0 = Some d"
    and rt: "bv_ExportRT b = rt # rts" and ids: "i \<noteq> 0" "vv_SubInterfaceID v \<noteq> UndefinedSubIf"
    and world: "w_sends w = []" "w_bgps w = []" "w_replies w = Inr (IPRouteAddDelV2Reply ret) # rs"
      "RetvalToVPPApiError P ret = None"
    and parse: "ParsePrefix P p = Inr pre" "ParseIP4Address P (p_NeighborIp path) = Inr nh4"
  shows "\<exists>w'. handle_pn_path M P J cfg env entries path s w = Some w' \<and>
     w_acked w' = w_acked w @ [IPRouteAddDelV2 (\<not> p_IsWithdraw path) True
       \<lparr>rv_TableID = i, rv_Prefix = pre, rv_NPaths = 1, rv_Src = 0,
        rv_Paths = [ip_path P i (vv_SubInterfaceID v) nh4]\<rparr>] \<and>
     w_bgp w' = w_bgp w @ [pn_bgp_req (p_IsWithdraw path) (pn_vpn_path v b rt (vv_LocalAddr d) p)]"
proof -
  define r where "r = NewVPPIPRoute i (vc_MainInterfaceID (cfg_VPP cfg)) (vv_SubInterfaceID v) p
    [p_NeighborIp path] [] []"
  have r: "rt_Prefix r = p" "rt_NextHops r = [p_NeighborIp path]" "rt_VRFID r = i"
    "rt_SubInterfaceID r = vv_SubInterfaceID v" by (simp_all add: r_def NewVPPIPRoute_def)
  have nhs: "parse_nhs P (rt_NextHops r) = Inr [nh4]" using parse(2) by (simp add: r)
  note route = AddDelIPRoute_responsive [OF world(1,3,4) parse(1) [folded r(1)] nhs]
  show ?thesis
    using handle_pn_path_steps [OF u v rt] route ids world(2)
    by (simp add: r r_def [symmetric] p [symmetric] Let_def AdvWdraw_pn [OF rt])
qed

text \<open>
  C18: the controllers follow the physical network. Over any sequence of updates from the physical
  network, and whatever VPP answers, the GoBGP server gets one request per update, in their order,
  and each carries the prefix, VRF and direction of its update.
\<close>

theorem pn_updates_forwarded:
  assumes "\<forall>(entries, path) \<in> set ups. pn_update M J cfg env s entries path (vrf path) (nlri path) \<and>
      VPP_GetVRF M (st_vvrfs s) (vrf path) = Some (v path) \<and> BGP_GetVRF M (st_bvrfs s) (vrf path) = Some (b path) \<and>
      bv_ExportRT (b path) = [rt path]"
    and "VPP_GetVRF M (st_vvrfs s) 0 = Some d" "w_bgps w = []"
    and "handle_pn_paths M P J cfg env ups s w = Some w'"
  shows "w_bgp w' = w_bgp w @ map (\<lambda>(_, path). pn_bgp_req (p_IsWithdraw path)
     (pn_vpn_path (v path) (b path) (rt path) (vv_LocalAddr d) (parsed_prefix J (nlri path)))) ups"
proof -
  have "\<forall>i < length ups. pn_known M J cfg env s vrf nlri v b rt (ups ! i)" using assms(1) by (simp add: pn_known_def)
  from pn_loop.log.run_spec [OF this conjI [OF assms(2,3)] assms(4)] show ?thesis by (simp add: pn_request_def)
qed

text \<open>
  C25: the gateway's own routes. An update from the physical network that carries the local AS number
  is meant to be ignored, but is reported as an update of VRF 0 all the same: when there is no BGP
  VRF 0, as in every gateway whose VRFs are numbered from 1, handling it panics.
\<close>

theorem pn_own_route_panics:
  assumes "he_peerTypes env (p_NeighborIp path) = Some PHYNET" "\<not> IsTF M (st_peers s) (p_NeighborIp path)"
    "p_SourceAsn path = gb_BGPLocalASN (cfg_GoBGP cfg)" "Marshal J (p_Nlri path) = Inr nlri"
    "BGP_GetVRF M (st_bvrfs s) 0 = None"
  shows "handle_pn_path M P J cfg env entries path s w = None"
  using assms by (simp add: handle_pn_path_def ParseBGPUpdate_def ParseVPNv4UpdateFromPHYNET_def zero_attrs_def
      split: Option.bind_split)

section \<open>The properties on a sample gateway\<close>

text \<open>The sample gateway with its default table and a neighbor in the physical network.\<close>

definition sample_grt :: VPPVRFTable where
  "sample_grt = NewVPPVRFTable ''ipv4-VRF:0'' 0 1 UndefinedSubIf 0 ''10.0.0.2'' 24 ''10.0.0.254'' UndefinedLabel []"

definition sample_pn_storage :: "(key \<times> keys \<times> addr) list storage" where
  "sample_pn_storage = sample_storage\<lparr>
     st_vvrfs := snd (VPP_AddVRF alist_memdb sample_grt (st_vvrfs sample_storage))\<rparr>"

definition sample_pn_env :: handler_env where
  "sample_pn_env = \<lparr>he_peerTypes = [''192.0.2.1'' \<mapsto> 1], he_vrfNextHops = [1 \<mapsto> ''192.0.2.1''],
     he_aggregates = sample_nets\<rparr>"

definition sample_pn_path :: "bool \<Rightarrow> u32 \<Rightarrow> Path" where
  "sample_pn_path withdraw asn = (sample_path withdraw)\<lparr>p_SourceAsn := asn, p_NeighborIp := ''192.0.2.1''\<rparr>"

lemma sample_pn_views:
  "VPP_GetVRF alist_memdb (st_vvrfs sample_pn_storage) 1 = Some sample_vrf"
  "BGP_GetVRF alist_memdb (st_bvrfs sample_pn_storage) 1 = Some sample_bvrf"
  "VPP_GetVRF alist_memdb (st_vvrfs sample_pn_storage) 0 = Some sample_grt"
  "BGP_GetVRF alist_memdb (st_bvrfs sample_pn_storage) 0 = None"
  "\<not> IsTF alist_memdb (st_peers sample_pn_storage) ''192.0.2.1''"
  by code_simp+

lemma sample_pn_update:
  assumes "asn \<noteq> 65000"
  shows "pn_update alist_memdb sample_json sample_cfg sample_pn_env sample_pn_storage
     [(1, ''192.0.2.1'')] (sample_pn_path withdraw asn) 1 ''nlri''"
  using assms sample_pn_views(5)
  by (simp add: pn_update_def sample_pn_env_def sample_pn_path_def sample_path_def sample_json_def sample_cfg_def)

lemma sample_pn_simps:
  "vv_SubInterfaceID sample_vrf = 5" "vv_LocalAddr sample_grt = ''10.0.0.2''" "bv_ExportRT sample_bvrf = [RT 64512 1]"
  "p_IsWithdraw (sample_pn_path withdraw asn) = withdraw" "p_NeighborIp (sample_pn_path withdraw asn) = ''192.0.2.1''"
  by (simp_all add: sample_vrf_def sample_grt_def NewVPPVRFTable_def sample_bvrf_def NewBGPVRFTable_def
      sample_pn_path_def sample_path_def)

theorem pn_update_effect_witness:
  "\<exists>w'. handle_pn_path alist_memdb sample_govpp sample_json sample_cfg sample_pn_env [(1, ''192.0.2.1'')]
       (sample_pn_path False 64900) sample_pn_storage ok_world = Some w' \<and>
     w_bgp w' = [BgpAddPath GLOBAL (pn_vpn_path sample_vrf sample_bvrf (RT 64512 1) ''10.0.0.2''
       (parsed_prefix sample_json ''nlri''))]"
proof -
  have u: "pn_update alist_memdb sample_json sample_cfg sample_pn_env sample_pn_storage
     [(1, ''192.0.2.1'')] (sample_pn_path False 64900) 1 ''nlri''" by (rule sample_pn_update) simp
  have w: "w_sends ok_world = []" "w_bgps ok_world = []" "w_bgp ok_world = []"
    "w_replies ok_world = Inr (IPRouteAddDelV2Reply 0) # []"
    by (simp_all add: ok_world_def empty_world_def)
  have p: "\<exists>pre. ParsePrefix sample_govpp (parsed_prefix sample_json ''nlri'') = Inr pre"
    "\<exists>nh. ParseIP4Address sample_govpp ''192.0.2.1'' = Inr nh" "RetvalToVPPApiError sample_govpp 0 = None"
    by (simp_all add: sample_govpp_def sample_bytes_def)
  then obtain pre nh where q: "ParsePrefix sample_govpp (parsed_prefix sample_json ''nlri'') = Inr pre"
    "ParseIP4Address sample_govpp ''192.0.2.1'' = Inr nh" by blast
  show ?thesis
    using pn_update_effect [OF u refl sample_pn_views(1-3) sample_pn_simps(3) _ _ w(1,2,4) p(3) q(1)] q(2)
    by (auto simp: sample_pn_simps w pn_bgp_req_def)
qed

theorem pn_updates_forwarded_witness:
  "\<exists>w'. handle_pn_paths alist_memdb sample_govpp sample_json sample_cfg sample_pn_env
       [([(1, ''192.0.2.1'')], sample_pn_path False 64900), ([(1, ''192.0.2.1'')], sample_pn_path True 64900)]
       sample_pn_storage empty_world = Some w' \<and>
     w_bgp w' = [BgpAddPath GLOBAL (pn_vpn_path sample_vrf sample_bvrf (RT 64512 1) ''10.0.0.2''
         (parsed_prefix sample_json ''nlri'')),
       BgpDeletePath GLOBAL (pn_vpn_path sample_vrf sample_bvrf (RT 64512 1) ''10.0.0.2''
         (parsed_prefix sample_json ''nlri''))]"
proof -
  let ?ups = "[([(1, ''192.0.2.1'')], sample_pn_path False 64900), ([(1, ''192.0.2.1'')], sample_pn_path True 64900)]"
  let ?run = "handle_pn_paths alist_memdb sample_govpp sample_json sample_cfg sample_pn_env ?ups
     sample_pn_storage empty_world"
  have ups: "\<forall>(entries, path) \<in> set ?ups.
      pn_update alist_memdb sample_json sample_cfg sample_pn_env sample_pn_storage entries path 1 ''nlri'' \<and>
      VPP_GetVRF alist_memdb (st_vvrfs sample_pn_storage) 1 = Some sample_vrf \<and>
      BGP_GetVRF alist_memdb (st_bvrfs sample_pn_storage) 1 = Some sample_bvrf \<and> bv_ExportRT sample_bvrf = [RT 64512 1]"
    using sample_pn_views sample_pn_simps by (simp add: sample_pn_update)
  have "\<not> Option.is_none ?run" by code_simp
  then obtain w' where run: "?run = Some w'" by (cases ?run) auto
  have "w_bgps empty_world = []" "w_bgp empty_world = []" by (simp_all add: empty_world_def)
  then show ?thesis
    using pn_updates_forwarded [where vrf = "\<lambda>_. 1" and nlri = "\<lambda>_. ''nlri''" and v = "\<lambda>_. sample_vrf"
        and b = "\<lambda>_. sample_bvrf" and rt = "\<lambda>_. RT 64512 1", OF ups sample_pn_views(3) _ run] run
    by (simp add: sample_pn_simps pn_bgp_req_def)
qed

theorem pn_own_route_panics_witness:
  "handle_pn_path alist_memdb sample_govpp sample_json sample_cfg sample_pn_env [(1, ''192.0.2.1'')]
     (sample_pn_path False 65000) sample_pn_storage empty_world = None"
  using sample_pn_views(4,5)
  by (intro pn_own_route_panics [where nlri = "''nlri''"])
    (simp_all add: sample_pn_env_def sample_pn_path_def sample_path_def sample_json_def sample_cfg_def)

end
