(* ===== verification/Peer_Events.thy ===== *)
theory Peer_Events
  imports Imdb
begin

text \<open>
  \<^verbatim>\<open>handle_bgp_update.go\<close>, the events of the BGP peers, and the general metrics of
  \<^verbatim>\<open>gobgpexporter/metrics.go\<close> that they update: the state of a peer is kept in the storage, the number
  of established peers in a 32 bit counter, and a BFD session is started once per peer.
\<close>

section \<open>gobgpexporter/metrics.go\<close>

text \<open>The fields are \<^verbatim>\<open>int32\<close>; the atomic additions wrap around.\<close>

record GoBGPGeneralMetric =
  gm_VRFCount :: "32 word"
  gm_PeerCount :: "32 word"
  gm_ActivePeerCount :: "32 word"

definition IncVRFCount :: "GoBGPGeneralMetric \<Rightarrow> GoBGPGeneralMetric" where
  "IncVRFCount m = m\<lparr>gm_VRFCount := gm_VRFCount m + 1\<rparr>"

definition IncActivePeerCount :: "GoBGPGeneralMetric \<Rightarrow> GoBGPGeneralMetric" where
  "IncActivePeerCount m = m\<lparr>gm_ActivePeerCount := gm_ActivePeerCount m + 1\<rparr>"

definition DecActivePeerCount :: "GoBGPGeneralMetric \<Rightarrow> GoBGPGeneralMetric" where
  "DecActivePeerCount m = m\<lparr>gm_ActivePeerCount := gm_ActivePeerCount m + - 1\<rparr>"

section \<open>The handler\<close>

text \<open>
  \<open>ev_bfd\<close> are the peers handed to \<^verbatim>\<open>go CheckBFDPeerStatus\<close>, newest last. The handler holds the pointer
  it got before the update, so that it reads the new states through it. A peer that is not stored is
  logged and then dereferenced.
\<close>

record 'd event_state =
  ev_peers :: "('d, BGPPeer) table"
  ev_metrics :: GoBGPGeneralMetric
  ev_bfd :: "BGPPeer list"

definition handle_peer_event :: "'d memdb \<Rightarrow> string \<times> SessionState \<Rightarrow> 'd event_state \<Rightarrow> 'd event_state go" where
  "handle_peer_event M ev st = (let (peerIP, sessionState) = ev in
     if peerIP = ''<nil>'' then Some st
     else do {
       pointer \<leftarrow> tbl_get M (KStr peerIP) (ev_peers st);
       old \<leftarrow> tb_heap (ev_peers st) pointer;
       (let (e, peers) = UpdateBGPPeerState M peerIP (bp_State old) sessionState (ev_peers st) in do {
         p \<leftarrow> tb_heap peers pointer;
         (let m = (if bp_State p = PeerState_ESTABLISHED then IncActivePeerCount (ev_metrics st) else ev_metrics st);
              m = (if bp_PrevState p = PeerState_ESTABLISHED then DecActivePeerCount m else m);
              st = st\<lparr>ev_peers := peers, ev_metrics := m\<rparr>
          in if bp_PeerType p \<noteq> PHYNET then Some st
             else do {
               bfd \<leftarrow> bp_BFDPeering p;
               (if bfd_Enabled bfd \<and> bp_State p = PeerState_ESTABLISHED \<and> \<not> bfd_PeerEstablished bfd then do {
                  peers \<leftarrow> UpdateBFDPeerState M peerIP True peers;
                  Some (st\<lparr>ev_peers := peers, ev_bfd := ev_bfd st @ [p]\<rparr>)
                }
                else Some st)
             })
       })
     })"

fun handle_peer_events :: "'d memdb \<Rightarrow> (string \<times> SessionState) list \<Rightarrow> 'd event_state \<Rightarrow> 'd event_state go" where
  "handle_peer_events M [] st = Some st"
| "handle_peer_events M (ev # evs) st = do {
     st \<leftarrow> handle_peer_event M ev st;
     handle_peer_events M evs st
   }"

section \<open>The handler on the view of the storage\<close>

context keyed_table
begin

lemma modify_heap:
  assumes M: "memdb_models M C" and wf: "tbl_wf C ixs t" and g: "tbl_get M k t = Some a"
    and v: "tbl_view M t k = Some x"
  shows "tb_heap (snd (tbl_modify M w ixs k f t)) a = Some (f x)"
  using tbl_row(2) [OF M wf g v] g
  by (auto simp: tbl_modify_def tbl_reinsert_def tbl_poke_def Let_def split: option.splits)

end

text \<open>The two updates of a peer's record, and what one event does to it.\<close>

definition new_state :: "SessionState \<Rightarrow> BGPPeer \<Rightarrow> BGPPeer" where
  "new_state x p = p\<lparr>bp_PrevState := bp_State p, bp_State := x\<rparr>"

definition bfd_on :: "BGPPeer \<Rightarrow> BGPPeer" where
  "bfd_on p = p\<lparr>bp_BFDPeering := map_option (\<lambda>b. b\<lparr>bfd_PeerEstablished := True\<rparr>) (bp_BFDPeering p)\<rparr>"

definition starts_bfd :: "SessionState \<Rightarrow> BGPPeer \<Rightarrow> bool" where
  "starts_bfd x p \<longleftrightarrow> bp_PeerType p = PHYNET \<and> x = PeerState_ESTABLISHED \<and>
     (\<exists>b. bp_BFDPeering p = Some b \<and> bfd_Enabled b \<and> \<not> bfd_PeerEstablished b)"

definition active_change :: "SessionState \<Rightarrow> SessionState \<Rightarrow> 32 word" where
  "active_change old new =
     (if new = PeerState_ESTABLISHED then 1 else 0) - (if old = PeerState_ESTABLISHED then 1 else 0)"

lemma same_address [simp]:
  "bp_PeerAddress (new_state x p) = bp_PeerAddress p" "bp_PeerAddress (bfd_on p) = bp_PeerAddress p"
  "bp_PeerType (new_state x p) = bp_PeerType p" "bp_BFDPeering (new_state x p) = bp_BFDPeering p"
  "bp_State (new_state x p) = x" "bp_PrevState (new_state x p) = bp_State p" "bp_State (bfd_on p) = bp_State p"
  "bp_PeerType (bfd_on p) = bp_PeerType p"
  by (simp_all add: new_state_def bfd_on_def)

lemma UpdateBGPPeerState_ok:
  assumes M: "memdb_models M C" and wf: "tbl_wf C peer_keys t" and v: "peer_view M t ip = Some p"
    and g: "tbl_get M (KStr ip) t = Some a"
  shows "fst (UpdateBGPPeerState M ip (bp_State p) x t) = None"
    and "peer_view M (snd (UpdateBGPPeerState M ip (bp_State p) x t)) = (peer_view M t)(ip \<mapsto> new_state x p)"
    and "tbl_wf C peer_keys (snd (UpdateBGPPeerState M ip (bp_State p) x t))"
    and "tb_heap (snd (UpdateBGPPeerState M ip (bp_State p) x t)) a = Some (new_state x p)"
proof -
  let ?f = "\<lambda>q. q\<lparr>bp_PrevState := bp_State p, bp_State := x\<rparr>"
  obtain r t' where m: "tbl_modify M True peer_keys (KStr ip) ?f t = (r, t')"
    by (cases "tbl_modify M True peer_keys (KStr ip) ?f t")
  have v': "tbl_view M t (KStr ip) = Some p" using v by (simp add: peer_view_def)
  have same: "peer_keys (?f p) = peer_keys p" by (simp add: peer_keys_def)
  note ok = peers.modify_ok [OF M wf v', where f = ?f and w = True, OF same, unfolded m]
  note h = peers.modify_heap [OF M wf g v', where f = ?f and w = True, unfolded m]
  show "fst (UpdateBGPPeerState M ip (bp_State p) x t) = None"
    "tbl_wf C peer_keys (snd (UpdateBGPPeerState M ip (bp_State p) x t))"
    "tb_heap (snd (UpdateBGPPeerState M ip (bp_State p) x t)) a = Some (new_state x p)"
    using ok h by (simp_all add: UpdateBGPPeerState_def m new_state_def)
  show "peer_view M (snd (UpdateBGPPeerState M ip (bp_State p) x t)) = (peer_view M t)(ip \<mapsto> new_state x p)"
    using ok h by (auto simp: UpdateBGPPeerState_def m new_state_def peer_view_def fun_eq_iff)
qed

lemma UpdateBFDPeerState_ok:
  assumes M: "memdb_models M C" and wf: "tbl_wf C peer_keys t" and v: "peer_view M t ip = Some p"
    and b: "bp_BFDPeering p = Some b"
  shows "\<exists>t'. UpdateBFDPeerState M ip True t = Some t' \<and> peer_view M t' = (peer_view M t)(ip \<mapsto> bfd_on p) \<and>
     tbl_wf C peer_keys t'"
proof -
  let ?f = "\<lambda>q. q\<lparr>bp_BFDPeering := Some (b\<lparr>bfd_PeerEstablished := True\<rparr>)\<rparr>"
  have v': "tbl_view M t (KStr ip) = Some p" using v by (simp add: peer_view_def)
  have same: "peer_keys (?f p) = peer_keys p" by (simp add: peer_keys_def)
  have on: "?f p = bfd_on p" using b by (simp add: bfd_on_def)
  note ok = peers.modify_ok [OF M wf v', where f = ?f and w = True, OF same, unfolded on]
  show ?thesis
    using ok(1,2) v' b
    by (intro exI [of _ "snd (tbl_modify M True peer_keys (KStr ip) ?f t)"])
      (auto simp: UpdateBFDPeerState_def peer_view_def fun_eq_iff)
qed

definition event_wf :: "('d \<Rightarrow> key \<rightharpoonup> keys \<times> addr) \<Rightarrow> 'd event_state \<Rightarrow> bool" where
  "event_wf C st \<longleftrightarrow> tbl_wf C peer_keys (ev_peers st)"

abbreviation peer_of :: "'d memdb \<Rightarrow> 'd event_state \<Rightarrow> string \<rightharpoonup> BGPPeer" where
  "peer_of M st \<equiv> peer_view M (ev_peers st)"

text \<open>When an event is handled, and what its handling does.\<close>

definition event_handled :: "'d memdb \<Rightarrow> 'd event_state \<Rightarrow> string \<Rightarrow> BGPPeer \<Rightarrow> bool" where
  "event_handled M st ip p \<longleftrightarrow> peer_of M st ip = Some p \<and> (bp_PeerType p = PHYNET \<longrightarrow> bp_BFDPeering p \<noteq> None)"

definition event_done :: "'d memdb \<Rightarrow> ('d \<Rightarrow> key \<rightharpoonup> keys \<times> addr) \<Rightarrow> string \<Rightarrow> SessionState \<Rightarrow> BGPPeer
    \<Rightarrow> 'd event_state \<Rightarrow> 'd event_state \<Rightarrow> bool" where
  "event_done M C ip x p st st' \<longleftrightarrow> event_wf C st' \<and>
     peer_of M st' = (peer_of M st)(ip \<mapsto> (if starts_bfd x p then bfd_on (new_state x p) else new_state x p)) \<and>
     gm_ActivePeerCount (ev_metrics st') = gm_ActivePeerCount (ev_metrics st) + active_change (bp_State p) x \<and>
     ev_bfd st' = ev_bfd st @ (if starts_bfd x p then [new_state x p] else [])"

text \<open>What follows the update of the peer's record, which leaves the table \<open>t\<close>.\<close>

definition event_rest :: "'d memdb \<Rightarrow> string \<Rightarrow> SessionState \<Rightarrow> BGPPeer \<Rightarrow> 'd event_state \<Rightarrow> ('d, BGPPeer) table \<Rightarrow> 'd event_state go" where
  "event_rest M ip x p st t =
    (let m = (if x = PeerState_ESTABLISHED then IncActivePeerCount (ev_metrics st) else ev_metrics st);
         m = (if bp_State p = PeerState_ESTABLISHED then DecActivePeerCount m else m);
         st = st\<lparr>ev_peers := t, ev_metrics := m\<rparr>
     in if bp_PeerType p \<noteq> PHYNET then Some st
        else do {
          bfd \<leftarrow> bp_BFDPeering p;
          (if bfd_Enabled bfd \<and> x = PeerState_ESTABLISHED \<and> \<not> bfd_PeerEstablished bfd then do {
             peers \<leftarrow> UpdateBFDPeerState M ip True t;
             Some (st\<lparr>ev_peers := peers, ev_bfd := ev_bfd st @ [new_state x p]\<rparr>)
           }
           else Some st)
        })"

lemma handle_peer_event_rest:
  assumes M: "memdb_models M C" and wf: "event_wf C st" and nil: "ip \<noteq> ''<nil>''" and v: "peer_of M st ip = Some p"
  obtains t where "tbl_wf C peer_keys t" "peer_view M t = (peer_of M st)(ip \<mapsto> new_state x p)"
    "handle_peer_event M (ip, x) st = event_rest M ip x p st t"
proof -
  have wf': "tbl_wf C peer_keys (ev_peers st)" using wf by (simp add: event_wf_def)
  obtain a where g: "tbl_get M (KStr ip) (ev_peers st) = Some a"
    using tbl_view_None(2) [OF M wf', of "KStr ip"] v by (auto simp: peer_view_def)
  have h: "tb_heap (ev_peers st) a = Some p" using v g by (simp add: peer_view_def tbl_view_def)
  obtain e t where u: "UpdateBGPPeerState M ip (bp_State p) x (ev_peers st) = (e, t)"
    by (cases "UpdateBGPPeerState M ip (bp_State p) x (ev_peers st)")
  note ok = UpdateBGPPeerState_ok [OF M wf' v g, of x, unfolded u]
  show ?thesis
    using that [of t] ok g h u nil by (simp add: handle_peer_event_def event_rest_def Let_def)
qed

lemma event_rest_done:
  assumes M: "memdb_models M C" and t: "tbl_wf C peer_keys t" "peer_view M t = (peer_of M st)(ip \<mapsto> new_state x p)"
    and handled: "event_handled M st ip p"
  shows "\<exists>st'. event_rest M ip x p st t = Some st' \<and> event_done M C ip x p st st'"
proof (cases "starts_bfd x p")
  case True
  then obtain b where b: "bp_BFDPeering (new_state x p) = Some b" by (auto simp: starts_bfd_def)
  have v2: "peer_view M t ip = Some (new_state x p)" using t(2) by simp
  obtain t' where "UpdateBFDPeerState M ip True t = Some t'" "tbl_wf C peer_keys t'"
      "peer_view M t' = (peer_view M t)(ip \<mapsto> bfd_on (new_state x p))"
    using UpdateBFDPeerState_ok [OF M t(1) v2 b] by blast
  then show ?thesis using True t(2)
    by (auto simp: event_rest_def event_done_def event_wf_def starts_bfd_def IncActivePeerCount_def DecActivePeerCount_def
        active_change_def Let_def)
next
  case False
  then show ?thesis using handled t
    by (auto simp: event_rest_def event_done_def event_wf_def starts_bfd_def event_handled_def IncActivePeerCount_def
        DecActivePeerCount_def active_change_def Let_def)
qed

lemma handle_peer_event_ok:
  assumes M: "memdb_models M C" and wf: "event_wf C st" and nil: "ip \<noteq> ''<nil>''"
  shows "event_handled M st ip p \<Longrightarrow> \<exists>st'. handle_peer_event M (ip, x) st = Some st' \<and> event_done M C ip x p st st'"
    and "(\<And>p. \<not> event_handled M st ip p) \<Longrightarrow> handle_peer_event M (ip, x) st = None"
proof -
  have wf': "tbl_wf C peer_keys (ev_peers st)" using wf by (simp add: event_wf_def)
  show "\<exists>st'. handle_peer_event M (ip, x) st = Some st' \<and> event_done M C ip x p st st'" if h: "event_handled M st ip p"
  proof -
    have v: "peer_of M st ip = Some p" using h by (simp add: event_handled_def)
    obtain t where "tbl_wf C peer_keys t" "peer_view M t = (peer_of M st)(ip \<mapsto> new_state x p)"
      "handle_peer_event M (ip, x) st = event_rest M ip x p st t" by (rule handle_peer_event_rest [OF M wf nil v])
    then show ?thesis using event_rest_done [OF M _ _ h] by metis
  qed
  show "handle_peer_event M (ip, x) st = None" if none: "\<And>p. \<not> event_handled M st ip p"
  proof (cases "peer_of M st ip")
    case None
    then have "tbl_get M (KStr ip) (ev_peers st) = None"
      using tbl_view_None(2) [OF M wf', of "KStr ip"] by (simp add: peer_view_def)
    then show ?thesis using nil by (simp add: handle_peer_event_def)
  next
    case (Some p)
    obtain t where "handle_peer_event M (ip, x) st = event_rest M ip x p st t"
      by (rule handle_peer_event_rest [OF M wf nil Some])
    then show ?thesis using none [of p] Some by (auto simp: event_handled_def event_rest_def Let_def)
  qed
qed

section \<open>The invariant\<close>

text \<open>
  The counter is the number of established peers; the BFD sessions started are to distinct peers, and
  they are those marked in the storage, among which is every established neighbor with BFD enabled.
\<close>

definition established :: "(string \<rightharpoonup> BGPPeer) \<Rightarrow> string set" where
  "established V = {ip. \<exists>p. V ip = Some p \<and> bp_State p = PeerState_ESTABLISHED}"

definition bfd_marked :: "(string \<rightharpoonup> BGPPeer) \<Rightarrow> string set" where
  "bfd_marked V = {ip. \<exists>p b. V ip = Some p \<and> bp_BFDPeering p = Some b \<and> bfd_PeerEstablished b}"

definition bfd_wanted :: "(string \<rightharpoonup> BGPPeer) \<Rightarrow> string set" where
  "bfd_wanted V = {ip. \<exists>p b. V ip = Some p \<and> bp_PeerType p = PHYNET \<and> bp_State p = PeerState_ESTABLISHED \<and>
     bp_BFDPeering p = Some b \<and> bfd_Enabled b}"

definition event_inv :: "'d memdb \<Rightarrow> 'd event_state \<Rightarrow> bool" where
  "event_inv M st \<longleftrightarrow> finite (dom (peer_of M st)) \<and>
     gm_ActivePeerCount (ev_metrics st) = of_nat (card (established (peer_of M st))) \<and>
     distinct (map bp_PeerAddress (ev_bfd st)) \<and>
     bp_PeerAddress ` set (ev_bfd st) = bfd_marked (peer_of M st) \<and>
     bfd_wanted (peer_of M st) \<subseteq> bfd_marked (peer_of M st)"

lemma established_upd:
  "established (V(ip \<mapsto> q)) =
     (if bp_State q = PeerState_ESTABLISHED then insert ip (established V) else established V - {ip})"
  by (auto simp: established_def)

lemma card_established:
  assumes fin: "finite (dom V)" and p: "V ip = Some p" and q: "bp_State q = x"
  shows "(of_nat (card (established (V(ip \<mapsto> q)))) :: 32 word) =
     of_nat (card (established V)) + active_change (bp_State p) x"
proof -
  have f: "finite (established V)" by (rule finite_subset [OF _ fin]) (auto simp: established_def)
  have mem: "ip \<in> established V \<longleftrightarrow> bp_State p = PeerState_ESTABLISHED" using p by (simp add: established_def)
  show ?thesis
  proof (cases "bp_State p = PeerState_ESTABLISHED")
    case True
    then obtain n where "card (established V) = Suc n"
      using f mem by (metis card.remove)
    then show ?thesis using True f mem q by (auto simp: established_upd active_change_def insert_absorb)
  next
    case False
    then show ?thesis using f mem q by (auto simp: established_upd active_change_def)
  qed
qed

lemma bfd_marked_upd:
  assumes "V ip = Some p"
  shows "bfd_marked (V(ip \<mapsto> (if starts_bfd x p then bfd_on (new_state x p) else new_state x p))) =
     (if starts_bfd x p then insert ip (bfd_marked V) else bfd_marked V)"
  using assms by (auto simp: bfd_marked_def bfd_on_def starts_bfd_def split: if_splits)

lemma bfd_wanted_upd:
  assumes "V ip = Some p" "bfd_wanted V \<subseteq> bfd_marked V"
  shows "bfd_wanted (V(ip \<mapsto> (if starts_bfd x p then bfd_on (new_state x p) else new_state x p)))
     \<subseteq> bfd_marked (V(ip \<mapsto> (if starts_bfd x p then bfd_on (new_state x p) else new_state x p)))"
proof
  let ?q = "if starts_bfd x p then bfd_on (new_state x p) else new_state x p"
  fix a
  assume a: "a \<in> bfd_wanted (V(ip \<mapsto> ?q))"
  show "a \<in> bfd_marked (V(ip \<mapsto> ?q))"
  proof (cases "a = ip")
    case True
    show ?thesis
    proof (cases "starts_bfd x p")
      case False
      then show ?thesis using a True assms(1) unfolding bfd_wanted_def bfd_marked_def starts_bfd_def
        by (auto split: if_splits)
    qed (use True assms(1) bfd_marked_upd [of V ip p x] in simp)
  next
    case False
    then have "a \<in> bfd_wanted V" using a by (auto simp: bfd_wanted_def)
    then show ?thesis using assms False by (auto simp: bfd_marked_def)
  qed
qed

lemma event_inv_step:
  assumes M: "memdb_models M C" and wf: "event_wf C st" and inv: "event_inv M st"
    and h: "event_handled M st ip p" and d: "event_done M C ip x p st st'"
  shows "event_inv M st'"
proof -
  let ?V = "peer_of M st" and ?V' = "peer_of M st'"
  let ?q = "if starts_bfd x p then bfd_on (new_state x p) else new_state x p"
  have v: "?V ip = Some p" and V': "?V' = ?V(ip \<mapsto> ?q)" using h d by (simp_all add: event_handled_def event_done_def)
  have addr: "bp_PeerAddress p = ip" using M wf v view_key_simps(5) by (auto simp: event_wf_def)
  have state: "bp_State ?q = x" by simp
  have fin: "finite (dom ?V)" using inv by (simp add: event_inv_def)
  have marked: "bfd_marked ?V' = (if starts_bfd x p then insert ip (bfd_marked ?V) else bfd_marked ?V)"
    using bfd_marked_upd [where V = "peer_of M st" and x = x, OF v] V' by simp
  have fresh: "ip \<notin> bfd_marked ?V" if "starts_bfd x p" using that v by (auto simp: bfd_marked_def starts_bfd_def)
  have "gm_ActivePeerCount (ev_metrics st') = of_nat (card (established ?V'))"
    using card_established [OF fin v state] V' d inv by (simp add: event_done_def event_inv_def)
  moreover have "distinct (map bp_PeerAddress (ev_bfd st'))"
    using d inv fresh addr by (auto simp: event_done_def event_inv_def)
  moreover have "bp_PeerAddress ` set (ev_bfd st') = bfd_marked ?V'"
    using d inv marked addr by (auto simp: event_done_def event_inv_def)
  moreover have "bfd_wanted ?V' \<subseteq> bfd_marked ?V'"
    using bfd_wanted_upd [where V = "peer_of M st" and x = x, OF v] V' inv by (simp add: event_inv_def)
  ultimately show ?thesis using V' fin by (simp add: event_inv_def)
qed

lemma handle_peer_event_cases:
  assumes M: "memdb_models M C" and wf: "event_wf C st" and run: "handle_peer_event M (ip, x) st = Some st'"
  shows "(ip = ''<nil>'' \<and> st' = st) \<or> (ip \<noteq> ''<nil>'' \<and> (\<exists>p. event_handled M st ip p \<and> event_done M C ip x p st st'))"
proof (cases "ip = ''<nil>''")
  case True
  then show ?thesis using run by (simp add: handle_peer_event_def)
next
  case False
  then show ?thesis
    using handle_peer_event_ok [OF M wf False, where x = x] run by (metis option.distinct(1) option.inject)
qed

lemma handle_peer_event_inv:
  assumes M: "memdb_models M C" and wf: "event_wf C st" and inv: "event_inv M st"
    and run: "handle_peer_event M ev st = Some st'"
  shows "event_wf C st' \<and> event_inv M st' \<and> dom (peer_of M st') = dom (peer_of M st)"
proof -
  obtain ip x where ev: "ev = (ip, x)" by (cases ev)
  have keep: "event_wf C st' \<and> dom (peer_of M st') = dom (peer_of M st)"
    if "event_handled M st ip p" "event_done M C ip x p st st'" for p
  proof -
    have "ip \<in> dom (peer_of M st)" using that(1) by (simp add: event_handled_def domIff)
    then show ?thesis using that(2) by (simp only: event_done_def dom_fun_upd option.distinct if_False insert_absorb)
  qed
  show ?thesis
    using handle_peer_event_cases [OF M wf run [unfolded ev]] wf inv keep event_inv_step [OF M wf inv] by blast
qed

text \<open>The watcher of the peer events is an event loop that keeps the invariant and the set of peers.\<close>

interpretation peer_loop: event_loop "handle_peer_event M" "handle_peer_events M" "\<lambda>_ _. True"
    "\<lambda>_ st. memdb_models M C \<and> event_wf C st \<and> event_inv M st \<and> dom (peer_of M st) = D" for M C D
proof (unfold_locales, goal_cases)
  case (3 n e s s')
  then show ?case using handle_peer_event_inv [of M C s e s'] by simp
qed simp_all

lemma handle_peer_events_inv:
  assumes M: "memdb_models M C" and st: "event_wf C st" "event_inv M st"
    and run: "handle_peer_events M evs st = Some st'"
  shows "event_wf C st' \<and> event_inv M st' \<and> dom (peer_of M st') = dom (peer_of M st)"
  using peer_loop.run_inv [OF _ _ run, of C "dom (peer_of M st)"] M st by simp

section \<open>Properties\<close>

text \<open>
  C9: the counters and sessions follow the peers. Whatever events the GoBGP server reports, in
  whatever order, as long as none stops the handler: the active peer counter is the number of stored
  peers in state ESTABLISHED, no peer gets more than one BFD session, and every neighbor in the
  physical network that is established and has BFD enabled has one.
\<close>

theorem peer_events_consistent:
  assumes "memdb_models M C" "event_wf C st" "event_inv M st" "handle_peer_events M evs st = Some st'"
  shows "gm_ActivePeerCount (ev_metrics st') = of_nat (card (established (peer_of M st'))) \<and>
     distinct (map bp_PeerAddress (ev_bfd st')) \<and>
     bfd_wanted (peer_of M st') \<subseteq> bp_PeerAddress ` set (ev_bfd st')"
  using handle_peer_events_inv [OF assms] by (simp add: event_inv_def)

text \<open>
  C19: one event of a stored peer, and when the handler stops. The peer's record gets the reported
  state and keeps the one it had as its previous state, every other peer is left alone, and the
  counter moves by one when the peer comes up or goes down and not otherwise. The handler panics
  exactly on the events of peers that are not stored, and of neighbors without BFD settings.
\<close>

theorem peer_event_effect:
  assumes M: "memdb_models M C" and wf: "event_wf C st" and nil: "ip \<noteq> ''<nil>''"
  shows "(handle_peer_event M (ip, x) st = None \<longleftrightarrow>
       (case peer_of M st ip of None \<Rightarrow> True | Some p \<Rightarrow> bp_PeerType p = PHYNET \<and> bp_BFDPeering p = None)) \<and>
     (\<forall>st'. handle_peer_event M (ip, x) st = Some st' \<longrightarrow>
       (\<exists>p q. peer_of M st ip = Some p \<and> peer_of M st' = (peer_of M st)(ip \<mapsto> q) \<and>
          bp_State q = x \<and> bp_PrevState q = bp_State p \<and>
          gm_ActivePeerCount (ev_metrics st') = gm_ActivePeerCount (ev_metrics st) +
            (if x = PeerState_ESTABLISHED then 1 else 0) - (if bp_State p = PeerState_ESTABLISHED then 1 else 0)))"
proof (intro conjI allI impI)
  note ok = handle_peer_event_ok [OF M wf nil, where x = x]
  have "(\<exists>p. event_handled M st ip p) \<longleftrightarrow> handle_peer_event M (ip, x) st \<noteq> None"
    using ok by (metis option.distinct(1))
  then show "handle_peer_event M (ip, x) st = None \<longleftrightarrow>
       (case peer_of M st ip of None \<Rightarrow> True | Some p \<Rightarrow> bp_PeerType p = PHYNET \<and> bp_BFDPeering p = None)"
    by (auto simp: event_handled_def split: option.splits)
  show "\<exists>p q. peer_of M st ip = Some p \<and> peer_of M st' = (peer_of M st)(ip \<mapsto> q) \<and>
          bp_State q = x \<and> bp_PrevState q = bp_State p \<and>
          gm_ActivePeerCount (ev_metrics st') = gm_ActivePeerCount (ev_metrics st) +
            (if x = PeerState_ESTABLISHED then 1 else 0) - (if bp_State p = PeerState_ESTABLISHED then 1 else 0)"
    if run: "handle_peer_event M (ip, x) st = Some st'" for st'
  proof -
    obtain p where p: "event_handled M st ip p" "event_done M C ip x p st st'"
      using handle_peer_event_cases [OF M wf run] nil by blast
    then show ?thesis
      by (intro exI [of _ p] exI [of _ "if starts_bfd x p then bfd_on (new_state x p) else new_state x p"])
        (simp add: event_handled_def event_done_def active_change_def bfd_on_def new_state_def)
  qed
qed

section \<open>The properties on a sample\<close>

definition sample_neighbor :: BGPPeer where
  "sample_neighbor = (NewBGPPeer 0 PHYNET 64900 ''192.0.2.1'' 179 '''' True 1 ''blue'' 30 90)
     \<lparr>bp_BFDPeering := Some (NewBFDPeer True ''192.0.2.1'' ''192.0.2.2'' 400 400 5)\<rparr>"

definition sample_events :: "(key \<times> keys \<times> addr) list event_state" where
  "sample_events = \<lparr>ev_peers = snd (AddBGPPeer alist_memdb sample_neighbor (NewBGPPeerStorage alist_memdb)),
     ev_metrics = \<lparr>gm_VRFCount = 0, gm_PeerCount = 1, gm_ActivePeerCount = 0\<rparr>, ev_bfd = []\<rparr>"

lemma sample_events_view:
  "event_wf map_of sample_events" "peer_of alist_memdb sample_events = [''192.0.2.1'' \<mapsto> sample_neighbor]"
proof -
  have addr: "bp_PeerAddress sample_neighbor = ''192.0.2.1''" by (simp add: sample_neighbor_def NewBGPPeer_def)
  note new = peers.wf_new [OF alist_memdb_models]
  note ok = peers.add_ok [OF alist_memdb_models new, of sample_neighbor]
  show "event_wf map_of sample_events"
    using ok(3) addr by (simp add: event_wf_def sample_events_def AddBGPPeer_def NewBGPPeerStorage_def)
  show "peer_of alist_memdb sample_events = [''192.0.2.1'' \<mapsto> sample_neighbor]"
    using ok(2) addr peers.view_new [OF alist_memdb_models]
    by (auto simp: sample_events_def AddBGPPeer_def NewBGPPeerStorage_def peer_view_def fun_eq_iff)
qed

lemma sample_events_inv: "event_inv alist_memdb sample_events"
  unfolding event_inv_def sample_events_view(2)
  by (simp add: established_def bfd_marked_def bfd_wanted_def sample_neighbor_def NewBGPPeer_def NewBFDPeer_def
      sample_events_def)

theorem peer_events_consistent_witness:
  "\<exists>st'. handle_peer_events alist_memdb [(''192.0.2.1'', PeerState_ESTABLISHED), (''192.0.2.1'', PeerState_other 1),
       (''192.0.2.1'', PeerState_ESTABLISHED)] sample_events = Some st' \<and>
     distinct (map bp_PeerAddress (ev_bfd st'))"
proof -
  let ?run = "handle_peer_events alist_memdb [(''192.0.2.1'', PeerState_ESTABLISHED), (''192.0.2.1'', PeerState_other 1),
       (''192.0.2.1'', PeerState_ESTABLISHED)] sample_events"
  have "\<not> Option.is_none ?run" by code_simp
  then obtain st' where run: "?run = Some st'" by (cases ?run) auto
  then show ?thesis
    using peer_events_consistent [OF alist_memdb_models sample_events_view(1) sample_events_inv run] by blast
qed

theorem peer_event_effect_witness:
  "handle_peer_event alist_memdb (''192.0.2.77'', PeerState_ESTABLISHED) sample_events = None"
  using peer_event_effect [OF alist_memdb_models sample_events_view(1), of "''192.0.2.77''" PeerState_ESTABLISHED]
  by (simp add: sample_events_view(2))

end
