(* ===== verification/App_Init.thy ===== *)
theory App_Init
  imports Phynet_Service Peer_Events
begin

text \<open>
  \<^verbatim>\<open>internal/app\<close>: the storages built from the configuration (\<^verbatim>\<open>init_imdb.go\<close>) and the configuration of
  the GoBGP server (\<^verbatim>\<open>init_gobgp.go\<close>). The lemmas show that the initial storage satisfies the
  invariants of the handlers, so that these hold from the start of the program on.
\<close>

section \<open>init_imdb.go\<close>

text \<open>A \<^verbatim>\<open>for\<close> loop that returns the first error, and the wrapping of an error of the storage.\<close>

fun foldE :: "('x \<Rightarrow> 's \<Rightarrow> err + 's) \<Rightarrow> 'x list \<Rightarrow> 's \<Rightarrow> err + 's" where
  "foldE f [] s = Inr s"
| "foldE f (x # xs) s = (case f x s of Inl e \<Rightarrow> Inl e | Inr s \<Rightarrow> foldE f xs s)"

definition wrap_add :: "string \<Rightarrow> err option \<times> 't \<Rightarrow> err + 't" where
  "wrap_add msg r = (case r of (Some e, _) \<Rightarrow> Inl (Wrap msg e) | (None, t) \<Rightarrow> Inr t)"

text \<open>\<open>now\<close> gives the time of the n-th call of \<^verbatim>\<open>time.Now()\<close>.\<close>

definition tf_peer :: "Config \<Rightarrow> nat \<Rightarrow> string \<Rightarrow> BGPPeer" where
  "tf_peer cfg now ip = (let tf = cfg_TFController cfg in
     NewBGPPeer now TF (tf_BGPPeerASN tf) ip 179 '''' True (tf_BGPTTL tf) '''' (tf_BGPKeepAlive tf) (tf_BGPHoldTimer tf))"

definition phynet_peer :: "nat \<Rightarrow> VRF_cfg \<Rightarrow> BGPPeer" where
  "phynet_peer now vrf =
     (NewBGPPeer now PHYNET (vr_BGPPeerASN vrf) (vr_BGPPeerIP vrf) 179 (vr_BGPPassword vrf) True (vr_BGPTTL vrf)
        (vr_VRFName vrf) (vr_BGPKeepAlive vrf) (vr_BGPHoldTimer vrf))
     \<lparr>bp_BFDPeering := Some (NewBFDPeer (vr_BFDEnable vrf) (vr_BGPPeerIP vrf) (vr_BFDLocalIP vrf) (vr_BFDTxRate vrf)
        (vr_BFDRxMin vrf) (vr_BFDMultiplier vrf))\<rparr>"

definition initBGPPeerStorage :: "'d memdb \<Rightarrow> (nat \<Rightarrow> nat) \<Rightarrow> Config \<Rightarrow> err + ('d, BGPPeer) table" where
  "initBGPPeerStorage M now cfg = (let addresses = tf_Address (cfg_TFController cfg) in
     case foldE (\<lambda>(n, ip) t. wrap_add (''failed to add bgp peer '' @ ip) (AddBGPPeer M (tf_peer cfg (now n) ip) t))
            (enumerate 0 addresses) (NewBGPPeerStorage M) of
       Inl e \<Rightarrow> Inl e
     | Inr t \<Rightarrow>
         (case foldE (\<lambda>(n, vrf) t. wrap_add (''failed to add bgp peer ip '' @ vr_BGPPeerIP vrf)
                  (AddBGPPeer M (phynet_peer (now n) vrf) t))
                (enumerate (length addresses) (cfg_VRF cfg)) t of
            Inl e \<Rightarrow> Inl e
          | Inr t \<Rightarrow> (let bgpPeers = GetBGPPeers M t in
              if length bgpPeers < 2
              then Inl (Errorf (''found '' @ itoa (length bgpPeers) @ '' bgp peers (needed at least 2)''))
              else Inr t)))"

definition bgp_vrf_of :: "Config \<Rightarrow> VRF_cfg \<Rightarrow> BGPVRFTable" where
  "bgp_vrf_of cfg vrf = NewBGPVRFTable (vr_VRFName vrf) (vr_VRFID vrf) (gb_BGPLocalASN (cfg_GoBGP cfg))
     (vr_BGPPeerASN vrf) (Some (RD (gb_RID (cfg_GoBGP cfg)) (vr_VRFID vrf)))
     [RT (tf_BGPPeerASN (cfg_TFController cfg)) (vr_VRFID vrf)]
     [RT (tf_BGPPeerASN (cfg_TFController cfg)) (vr_VRFID vrf)]"

definition initBGPVRFStorage :: "'d memdb \<Rightarrow> Config \<Rightarrow> err + ('d, BGPVRFTable) table" where
  "initBGPVRFStorage M cfg =
     (case foldE (\<lambda>vrf t. wrap_add (''failed to add bgp vrf '' @ vr_VRFName vrf) (BGP_AddVRF M (bgp_vrf_of cfg vrf) t))
             (cfg_VRF cfg) (NewBGPVRFStorage M) of
        Inl e \<Rightarrow> Inl e
      | Inr t \<Rightarrow> (let bgpVRFs = BGP_GetVRFs M t in
          if length bgpVRFs < 1
          then Inl (Errorf (''found '' @ itoa (length bgpVRFs) @ '' bgp vrfs (needed at least 1)''))
          else Inr t))"

definition global_table :: "Config \<Rightarrow> VPPVRFTable" where
  "global_table cfg = NewVPPVRFTable ''ipv4-VRF:0'' 0 (vc_MainInterfaceID (cfg_VPP cfg)) UndefinedSubIf 0
     (Addr (vc_TunLocalIP (cfg_VPP cfg))) (MaskLen (vc_TunLocalIP (cfg_VPP cfg))) (vc_TunDefaultGW (cfg_VPP cfg))
     UndefinedLabel []"

definition vpp_vrf_of :: "Config \<Rightarrow> u32 \<Rightarrow> VRF_cfg \<Rightarrow> VPPVRFTable" where
  "vpp_vrf_of cfg label vrf = NewVPPVRFTable (vr_VRFName vrf) (vr_VRFID vrf) (vc_MainInterfaceID (cfg_VPP cfg))
     UndefinedSubIf (vr_VLANID vrf) (Addr (vr_LocalIP vrf)) (MaskLen (vr_LocalIP vrf)) (vr_BGPPeerIP vrf) label
     (vr_FIPPrefixes vrf)"

text \<open>The message of a failed addition names the global table, not the VRF at hand.\<close>

definition initVPPVRFStorage :: "'d memdb \<Rightarrow> Config \<Rightarrow> err + ('d, VPPVRFTable) table" where
  "initVPPVRFStorage M cfg = (let msg = ''failed to add vpp vrf id '' @ itoa (unat (vv_ID (global_table cfg))) in
     case wrap_add msg (VPP_AddVRF M (global_table cfg) (NewVPPVRFStorage M)) of
       Inl e \<Rightarrow> Inl e
     | Inr t \<Rightarrow>
         (case foldE (\<lambda>vrf t. case MPLSLabel (vr_LocalIP vrf) of
                  Inl e \<Rightarrow> Inl (Wrap ''failed to create mpls local label'' e)
                | Inr label \<Rightarrow> wrap_add msg (VPP_AddVRF M (vpp_vrf_of cfg label vrf) t)) (cfg_VRF cfg) t of
            Inl e \<Rightarrow> Inl e
          | Inr t \<Rightarrow>
              if length (VPP_GetVRFs M t) < 2
              then Inl (Errorf (''found '' @ itoa (length (VPP_GetVRFs M t)) @ '' vrf(s) in storage (need at least 2)''))
              else Inr t))"

definition initStorages :: "'d memdb \<Rightarrow> (nat \<Rightarrow> nat) \<Rightarrow> Config \<Rightarrow> err + 'd storage" where
  "initStorages M now cfg = (case initBGPPeerStorage M now cfg of
      Inl e \<Rightarrow> Inl e
    | Inr peers \<Rightarrow> (case initBGPVRFStorage M cfg of
        Inl e \<Rightarrow> Inl e
      | Inr bvrfs \<Rightarrow> (case initVPPVRFStorage M cfg of
          Inl e \<Rightarrow> Inl e
        | Inr vvrfs \<Rightarrow> Inr \<lparr>st_peers = peers, st_bvrfs = bvrfs, st_vvrfs = vvrfs,
            st_fips = NewVPPFIPRouteStorage M, st_tuns = NewVPPUDPTunnelStorage M\<rparr>)))"

section \<open>init_gobgp.go\<close>

definition initGoBGPServer :: "Config \<Rightarrow> world \<Rightarrow> err option \<times> world" where
  "initGoBGPServer cfg w = (let g = cfg_GoBGP cfg in
     case SetGoBGPLocalConfig (gb_BGPLocalASN g) (gb_RID g) (gb_BGPLocalPort g) w of
       (Some e, w) \<Rightarrow> (Some (Wrap ''failed to create local bgp configuration'' e), w)
     | (None, w) \<Rightarrow> (None, w))"

text \<open>The VRFs and the peers of the server; the loops stop at the first error.\<close>

fun configure_vrfs :: "BGPVRFTable list \<Rightarrow> GoBGPGeneralMetric \<Rightarrow> world \<Rightarrow> err option \<times> GoBGPGeneralMetric \<times> world" where
  "configure_vrfs [] m w = (None, m, w)"
| "configure_vrfs (vrf # vrfs) m w = (case AddGoBGPVRF vrf w of
      (Some e, w) \<Rightarrow> (Some (Wrap (''failed to create bgp vrf '' @ bv_Name vrf) e), m, w)
    | (None, w) \<Rightarrow> configure_vrfs vrfs (IncVRFCount m) w)"

fun configure_peers :: "BGPPeer list \<Rightarrow> world \<Rightarrow> err option \<times> world" where
  "configure_peers [] w = (None, w)"
| "configure_peers (peer # peers) w = (case AddBGPPeer_srv peer w of
      (Some e, w) \<Rightarrow> (Some (Wrap (''failed to create bgp peer '' @ bp_PeerAddress peer) e), w)
    | (None, w) \<Rightarrow> configure_peers peers w)"

definition peers_of_type :: "int \<Rightarrow> BGPPeer list \<Rightarrow> string list" where
  "peers_of_type ty peers = map (\<lambda>p. bp_PeerAddress p @ ''/32'') (filter (\<lambda>p. bp_PeerType p = ty) peers)"

text \<open>
  The value of a success is the list of peers that the returned function \<^verbatim>\<open>deletePeers\<close> deletes; a
  failure to create the policy is only logged.
\<close>

definition ConfigureGoBGP :: "'d memdb \<Rightarrow> (string \<Rightarrow> string) \<Rightarrow> 'd storage \<Rightarrow> GoBGPGeneralMetric \<Rightarrow> world
    \<Rightarrow> ((err + BGPPeer list) \<times> GoBGPGeneralMetric \<times> world) go" where
  "ConfigureGoBGP M md5hex s m w = (case configure_vrfs (BGP_GetVRFs M (st_bvrfs s)) m w of
      (Some e, m, w) \<Rightarrow> Some (Inl e, m, w)
    | (None, m, w) \<Rightarrow> (let bgpPeers = GetBGPPeers M (st_peers s); m = m\<lparr>gm_PeerCount := of_nat (length bgpPeers)\<rparr> in
        case configure_peers bgpPeers w of
          (Some e, w) \<Rightarrow> Some (Inl e, m, w)
        | (None, w) \<Rightarrow> do {
            (res, w) \<leftarrow> CreateGoBGPPolicy md5hex (peers_of_type TF bgpPeers) (peers_of_type PHYNET bgpPeers) w;
            Some (Inr bgpPeers, m, w)
          }))"

definition deletePeers :: "BGPPeer list \<Rightarrow> world \<Rightarrow> world" where
  "deletePeers bgpPeers w = fold (\<lambda>peer w. snd (DelBGPPeer peer w)) bgpPeers w"

section \<open>Building a table\<close>

lemma fold_upd_other: "k \<notin> set (map key xs) \<Longrightarrow> fold (\<lambda>x V. V(key x \<mapsto> val x)) xs V k = V k"
  by (induction xs arbitrary: V) auto

lemma fold_upd_at:
  "distinct (map key xs) \<Longrightarrow> x \<in> set xs \<Longrightarrow> fold (\<lambda>x V. V(key x \<mapsto> val x)) xs V (key x) = Some (val x)"
proof (induction xs arbitrary: V)
  case (Cons y xs)
  show ?case
  proof (cases "x = y")
    case True
    have "fold (\<lambda>x V. V(key x \<mapsto> val x)) xs (V(key y \<mapsto> val y)) (key y) = Some (val y)"
      using Cons.prems(1) fold_upd_other [of "key y" key xs val "V(key y \<mapsto> val y)"] by simp
    then show ?thesis using True by (simp only: fold_simps)
  next
    case False
    then show ?thesis using Cons by simp
  qed
qed simp

lemma fold_upd_cases:
  "fold (\<lambda>x V. V(key x \<mapsto> val x)) xs V k = Some v \<Longrightarrow> V k = Some v \<or> (\<exists>x \<in> set xs. k = key x \<and> v = val x)"
  by (induction xs arbitrary: V) (fastforce split: if_splits)+

lemma foldE_each: "foldE f xs t = Inr t' \<Longrightarrow> x \<in> set xs \<Longrightarrow> \<exists>t t'. f x t = Inr t'"
proof (induction xs arbitrary: t)
  case (Cons y xs)
  then obtain t1 where "f y t = Inr t1" "foldE f xs t1 = Inr t'" by (auto split: sum.splits)
  then show ?case using Cons by auto
qed simp

lemma wrap_add_Inr: "wrap_add msg r = Inr t \<longleftrightarrow> r = (None, t)"
  by (auto simp: wrap_add_def split: prod.splits option.splits)

context keyed_table
begin

lemma add_None:
  assumes "memdb_models M C" "tbl_wf C ixs t" "tbl_add M ixs x t = (None, t')"
  shows "keys_present (ixs x)" "tbl_wf C ixs t'" "tbl_view M t' = (tbl_view M t)(idk x \<mapsto> x)"
  using add_ok [OF assms(1,2), of x] add_missing(1) [OF assms(1,2), of x] assms(3) by auto

lemma foldE_add:
  assumes M: "memdb_models M C"
    and f: "\<And>x t t'. f x t = Inr t' \<Longrightarrow> tbl_add M ixs (g x) t = (None, t')"
  shows "tbl_wf C ixs t \<Longrightarrow> foldE f xs t = Inr t' \<Longrightarrow>
     tbl_wf C ixs t' \<and> tbl_view M t' = fold (\<lambda>x V. V(idk (g x) \<mapsto> g x)) xs (tbl_view M t) \<and>
     (\<forall>x \<in> set xs. keys_present (ixs (g x)))"
proof (induction xs arbitrary: t)
  case (Cons x xs)
  then obtain t1 where t1: "f x t = Inr t1" "foldE f xs t1 = Inr t'" by (auto split: sum.splits)
  note a = add_None [OF M Cons.prems(1) f [OF t1(1)]]
  show ?case using Cons.IH [OF a(2) t1(2)] a by simp
qed simp

end

section \<open>The initial storage\<close>

lemma peer_simps [simp]:
  "bp_PeerAddress (tf_peer cfg n ip) = ip" "bp_PeerType (tf_peer cfg n ip) = TF"
  "bp_State (tf_peer cfg n ip) = PeerState_UNKNOWN" "bp_BFDPeering (tf_peer cfg n ip) = None"
  "bp_PeerAddress (phynet_peer n vrf) = vr_BGPPeerIP vrf" "bp_PeerType (phynet_peer n vrf) = PHYNET"
  "bp_State (phynet_peer n vrf) = PeerState_UNKNOWN" "bp_VRFName (phynet_peer n vrf) = vr_VRFName vrf"
  "bp_PeerASN (phynet_peer n vrf) = vr_BGPPeerASN vrf"
  "bp_BFDPeering (phynet_peer n vrf) = Some (NewBFDPeer (vr_BFDEnable vrf) (vr_BGPPeerIP vrf) (vr_BFDLocalIP vrf)
     (vr_BFDTxRate vrf) (vr_BFDRxMin vrf) (vr_BFDMultiplier vrf))"
  by (simp_all add: tf_peer_def phynet_peer_def NewBGPPeer_def Let_def)

lemma vrf_simps [simp]:
  "bv_ID (bgp_vrf_of cfg r) = vr_VRFID r" "bv_Name (bgp_vrf_of cfg r) = vr_VRFName r"
  "vv_ID (vpp_vrf_of cfg l r) = vr_VRFID r" "vv_Name (vpp_vrf_of cfg l r) = vr_VRFName r"
  "vv_FIPServed (vpp_vrf_of cfg l r) = 0" "vv_ID (global_table cfg) = 0" "vv_FIPServed (global_table cfg) = 0"
  by (simp_all add: bgp_vrf_of_def NewBGPVRFTable_def vpp_vrf_of_def global_table_def NewVPPVRFTable_def)

text \<open>The peers of the configuration with the time of their creation, and the labels of the VRFs.\<close>

definition all_peers :: "(nat \<Rightarrow> nat) \<Rightarrow> Config \<Rightarrow> BGPPeer list" where
  "all_peers now cfg = (let addresses = tf_Address (cfg_TFController cfg) in
     map (\<lambda>(n, ip). tf_peer cfg (now n) ip) (enumerate 0 addresses) @
     map (\<lambda>(n, vrf). phynet_peer (now n) vrf) (enumerate (length addresses) (cfg_VRF cfg)))"

definition label_of :: "VRF_cfg \<Rightarrow> u32" where
  "label_of vrf = (case MPLSLabel (vr_LocalIP vrf) of Inl _ \<Rightarrow> 0 | Inr l \<Rightarrow> l)"

lemma map_enumerate: "map (\<lambda>p. f (snd p)) (enumerate k xs) = map f xs"
  by (induction xs arbitrary: k) auto

lemma all_peers_addresses:
  "map bp_PeerAddress (all_peers now cfg) = tf_Address (cfg_TFController cfg) @ map vr_BGPPeerIP (cfg_VRF cfg)"
  using map_enumerate [of "\<lambda>x. x"] map_enumerate [of vr_BGPPeerIP]
  by (simp add: all_peers_def Let_def case_prod_unfold comp_def)

abbreviation upd_peer :: "BGPPeer \<Rightarrow> (string \<rightharpoonup> BGPPeer) \<Rightarrow> (string \<rightharpoonup> BGPPeer)" where
  "upd_peer p V \<equiv> V(bp_PeerAddress p \<mapsto> p)"

lemma fold_KStr:
  "(\<lambda>k. fold (\<lambda>p V. V(KStr (a p) \<mapsto> p)) xs V (KStr k)) = fold (\<lambda>p V. V(a p \<mapsto> p)) xs (\<lambda>k. V (KStr k))"
  by (induction xs arbitrary: V) (auto simp: fun_upd_def intro!: arg_cong [where f = "fold _ _"] ext)

lemma fold_KUint:
  "(\<lambda>k. fold (\<lambda>p V. V(KUint (a p) \<mapsto> g p)) xs V (KUint k)) = fold (\<lambda>p V. V(a p \<mapsto> g p)) xs (\<lambda>k. V (KUint k))"
  by (induction xs arbitrary: V) (auto simp: fun_upd_def intro!: arg_cong [where f = "fold _ _"] ext)

lemma initBGPPeerStorage_ok:
  assumes M: "memdb_models M C" and run: "initBGPPeerStorage M now cfg = Inr t"
  shows "tbl_wf C peer_keys t" "peer_view M t = fold upd_peer (all_peers now cfg) Map.empty"
    "\<forall>p \<in> set (all_peers now cfg). bp_PeerAddress p \<noteq> ''''"
proof -
  let ?as = "enumerate 0 (tf_Address (cfg_TFController cfg))"
  let ?vs = "enumerate (length (tf_Address (cfg_TFController cfg))) (cfg_VRF cfg)"
  let ?g = "\<lambda>(n, ip). tf_peer cfg (now n) ip" and ?h = "\<lambda>(n, vrf). phynet_peer (now n) vrf"
  obtain t1 where t1: "foldE (\<lambda>(n, ip) t. wrap_add (''failed to add bgp peer '' @ ip) (AddBGPPeer M (tf_peer cfg (now n) ip) t))
        ?as (NewBGPPeerStorage M) = Inr t1"
    and t2: "foldE (\<lambda>(n, vrf) t. wrap_add (''failed to add bgp peer ip '' @ vr_BGPPeerIP vrf)
        (AddBGPPeer M (phynet_peer (now n) vrf) t)) ?vs t1 = Inr t"
    using run by (auto simp: initBGPPeerStorage_def Let_def split: sum.splits if_splits)
  note new = peers.wf_new [OF M]
  have a: "tbl_wf C peer_keys t1 \<and> tbl_view M t1 = fold (\<lambda>x V. V(KStr (bp_PeerAddress (?g x)) \<mapsto> ?g x)) ?as (tbl_view M (tbl_new M)) \<and>
      (\<forall>x \<in> set ?as. keys_present (peer_keys (?g x)))"
    by (rule peers.foldE_add [OF M _ new t1 [unfolded NewBGPPeerStorage_def]])
      (auto simp: wrap_add_Inr AddBGPPeer_def)
  have b: "tbl_wf C peer_keys t \<and> tbl_view M t = fold (\<lambda>x V. V(KStr (bp_PeerAddress (?h x)) \<mapsto> ?h x)) ?vs (tbl_view M t1) \<and>
      (\<forall>x \<in> set ?vs. keys_present (peer_keys (?h x)))"
    by (rule peers.foldE_add [OF M _ _ t2]) (use a in \<open>auto simp: wrap_add_Inr AddBGPPeer_def\<close>)
  show "tbl_wf C peer_keys t" using b by simp
  show "\<forall>p \<in> set (all_peers now cfg). bp_PeerAddress p \<noteq> ''''"
    using a b unfolding all_peers_def Let_def set_append set_map by fastforce
  have "tbl_view M t = fold (\<lambda>p V. V(KStr (bp_PeerAddress p) \<mapsto> p)) (all_peers now cfg) Map.empty"
    using a b by (simp add: all_peers_def Let_def fold_map comp_def peers.view_new [OF M])
  then show "peer_view M t = fold upd_peer (all_peers now cfg) Map.empty"
    using fold_KStr [of bp_PeerAddress "all_peers now cfg" Map.empty] by (simp add: peer_view_def fun_eq_iff)
qed

lemma initBGPVRFStorage_ok:
  assumes M: "memdb_models M C" and run: "initBGPVRFStorage M cfg = Inr t"
  shows "tbl_wf C bvrf_keys t"
    "bvrf_view M t = fold (\<lambda>r V. V(vr_VRFID r \<mapsto> bgp_vrf_of cfg r)) (cfg_VRF cfg) Map.empty"
proof -
  have t: "foldE (\<lambda>vrf t. wrap_add (''failed to add bgp vrf '' @ vr_VRFName vrf) (BGP_AddVRF M (bgp_vrf_of cfg vrf) t))
        (cfg_VRF cfg) (tbl_new M) = Inr t"
    using run by (auto simp: initBGPVRFStorage_def NewBGPVRFStorage_def Let_def split: sum.splits if_splits)
  have a: "tbl_wf C bvrf_keys t \<and> tbl_view M t =
      fold (\<lambda>r V. V(KUint (bv_ID (bgp_vrf_of cfg r)) \<mapsto> bgp_vrf_of cfg r)) (cfg_VRF cfg) (tbl_view M (tbl_new M)) \<and>
      (\<forall>x \<in> set (cfg_VRF cfg). keys_present (bvrf_keys (bgp_vrf_of cfg x)))"
    by (rule bvrfs.foldE_add [OF M _ bvrfs.wf_new [OF M] t]) (auto simp: wrap_add_Inr BGP_AddVRF_def)
  show "tbl_wf C bvrf_keys t" using a by simp
  show "bvrf_view M t = fold (\<lambda>r V. V(vr_VRFID r \<mapsto> bgp_vrf_of cfg r)) (cfg_VRF cfg) Map.empty"
  proof -
    have t: "tbl_view M t = fold (\<lambda>r V. V(KUint (vr_VRFID r) \<mapsto> bgp_vrf_of cfg r)) (cfg_VRF cfg) Map.empty"
      using a by (simp add: bvrfs.view_new [OF M])
    have "bvrf_view M t = (\<lambda>k. tbl_view M t (KUint k))" by (rule ext) (simp add: bvrf_view_def)
    also have "\<dots> = fold (\<lambda>r V. V(vr_VRFID r \<mapsto> bgp_vrf_of cfg r)) (cfg_VRF cfg) (\<lambda>k. Map.empty (KUint k))"
      unfolding t by (rule fold_KUint)
    finally show ?thesis .
  qed
qed

lemma initVPPVRFStorage_ok:
  assumes M: "memdb_models M C" and run: "initVPPVRFStorage M cfg = Inr t"
  shows "tbl_wf C vvrf_keys t"
    "\<forall>r \<in> set (cfg_VRF cfg). MPLSLabel (vr_LocalIP r) = Inr (label_of r)"
    "vvrf_view M t = fold (\<lambda>r V. V(vr_VRFID r \<mapsto> vpp_vrf_of cfg (label_of r) r)) (cfg_VRF cfg) [0 \<mapsto> global_table cfg]"
proof -
  let ?msg = "''failed to add vpp vrf id '' @ itoa (unat (vv_ID (global_table cfg)))"
  let ?f = "\<lambda>vrf t. case MPLSLabel (vr_LocalIP vrf) of
                  Inl e \<Rightarrow> Inl (Wrap ''failed to create mpls local label'' e)
                | Inr label \<Rightarrow> wrap_add ?msg (VPP_AddVRF M (vpp_vrf_of cfg label vrf) t)"
  obtain t1 where w: "wrap_add ?msg (VPP_AddVRF M (global_table cfg) (NewVPPVRFStorage M)) = Inr t1"
    using run unfolding initVPPVRFStorage_def Let_def
    by (cases "wrap_add ?msg (VPP_AddVRF M (global_table cfg) (NewVPPVRFStorage M))") (simp_all del: vrf_simps)
  then have t1: "VPP_AddVRF M (global_table cfg) (tbl_new M) = (None, t1)"
    by (simp only: wrap_add_Inr NewVPPVRFStorage_def)
  have t: "foldE ?f (cfg_VRF cfg) t1 = Inr t"
    using run w unfolding initVPPVRFStorage_def Let_def
    by (cases "foldE ?f (cfg_VRF cfg) t1") (simp_all del: vrf_simps split: if_splits)
  note a = vvrfs.add_None [OF M vvrfs.wf_new [OF M] t1 [unfolded VPP_AddVRF_def]]
  have b: "tbl_wf C vvrf_keys t \<and> tbl_view M t =
      fold (\<lambda>r V. V(KUint (vv_ID (vpp_vrf_of cfg (label_of r) r)) \<mapsto> vpp_vrf_of cfg (label_of r) r)) (cfg_VRF cfg) (tbl_view M t1) \<and>
      (\<forall>x \<in> set (cfg_VRF cfg). keys_present (vvrf_keys (vpp_vrf_of cfg (label_of x) x)))"
    by (rule vvrfs.foldE_add [OF M _ a(2) t])
      (auto simp: wrap_add_Inr VPP_AddVRF_def label_of_def split: sum.splits)
  show "tbl_wf C vvrf_keys t" using b by simp
  show "\<forall>r \<in> set (cfg_VRF cfg). MPLSLabel (vr_LocalIP r) = Inr (label_of r)"
  proof
    fix r assume "r \<in> set (cfg_VRF cfg)"
    from foldE_each [OF t this] show "MPLSLabel (vr_LocalIP r) = Inr (label_of r)"
      by (auto simp: label_of_def split: sum.splits)
  qed
  show "vvrf_view M t = fold (\<lambda>r V. V(vr_VRFID r \<mapsto> vpp_vrf_of cfg (label_of r) r)) (cfg_VRF cfg) [0 \<mapsto> global_table cfg]"
  proof -
    have "tbl_view M t1 = [KUint 0 \<mapsto> global_table cfg]" using a(3) by (simp add: vvrfs.view_new [OF M])
    then have t: "tbl_view M t = fold (\<lambda>r V. V(KUint (vr_VRFID r) \<mapsto> vpp_vrf_of cfg (label_of r) r)) (cfg_VRF cfg)
        [KUint 0 \<mapsto> global_table cfg]" using b by simp
    have "vvrf_view M t = (\<lambda>k. tbl_view M t (KUint k))" by (rule ext) (simp add: vvrf_view_def)
    also have "\<dots> = fold (\<lambda>r V. V(vr_VRFID r \<mapsto> vpp_vrf_of cfg (label_of r) r)) (cfg_VRF cfg)
        (\<lambda>k. [KUint 0 \<mapsto> global_table cfg] (KUint k))"
      unfolding t by (rule fold_KUint)
    also have "(\<lambda>k. [KUint 0 \<mapsto> global_table cfg] (KUint k)) = [0 \<mapsto> global_table cfg]" by auto
    finally show ?thesis .
  qed
qed

lemma initStorages_parts:
  assumes "initStorages M now cfg = Inr s"
  shows "initBGPPeerStorage M now cfg = Inr (st_peers s)" "initBGPVRFStorage M cfg = Inr (st_bvrfs s)"
    "initVPPVRFStorage M cfg = Inr (st_vvrfs s)" "st_fips s = tbl_new M" "st_tuns s = tbl_new M"
  using assms by (auto simp: initStorages_def NewVPPFIPRouteStorage_def NewVPPUDPTunnelStorage_def split: sum.splits)

lemma initStorages_ok:
  assumes M: "memdb_models M C" and run: "initStorages M now cfg = Inr s"
  shows "storage_wf C s" "fip_view M (st_fips s) = Map.empty" "tun_view M (st_tuns s) = Map.empty"
    "peer_view M (st_peers s) = fold upd_peer (all_peers now cfg) Map.empty"
    "bvrf_view M (st_bvrfs s) = fold (\<lambda>r V. V(vr_VRFID r \<mapsto> bgp_vrf_of cfg r)) (cfg_VRF cfg) Map.empty"
    "vvrf_view M (st_vvrfs s) =
       fold (\<lambda>r V. V(vr_VRFID r \<mapsto> vpp_vrf_of cfg (label_of r) r)) (cfg_VRF cfg) [0 \<mapsto> global_table cfg]"
    "\<forall>r \<in> set (cfg_VRF cfg). MPLSLabel (vr_LocalIP r) = Inr (label_of r)"
proof -
  note parts = initStorages_parts [OF run]
  note p = initBGPPeerStorage_ok [OF M parts(1)] and b = initBGPVRFStorage_ok [OF M parts(2)]
    and v = initVPPVRFStorage_ok [OF M parts(3)]
  show "storage_wf C s"
    using p(1) b(1) v(1) parts(4,5) by (simp add: storage_wf_def fips.wf_new [OF M] tuns.wf_new [OF M])
  show "fip_view M (st_fips s) = Map.empty" "tun_view M (st_tuns s) = Map.empty"
    using parts(4,5) by (simp_all add: fip_view_def tun_view_def fips.view_new [OF M] tuns.view_new [OF M] fun_eq_iff)
  show "peer_view M (st_peers s) = fold upd_peer (all_peers now cfg) Map.empty" by (rule p(2))
  show "bvrf_view M (st_bvrfs s) = fold (\<lambda>r V. V(vr_VRFID r \<mapsto> bgp_vrf_of cfg r)) (cfg_VRF cfg) Map.empty" by (rule b(2))
  show "vvrf_view M (st_vvrfs s) =
       fold (\<lambda>r V. V(vr_VRFID r \<mapsto> vpp_vrf_of cfg (label_of r) r)) (cfg_VRF cfg) [0 \<mapsto> global_table cfg]" by (rule v(3))
  show "\<forall>r \<in> set (cfg_VRF cfg). MPLSLabel (vr_LocalIP r) = Inr (label_of r)" by (rule v(2))
qed

lemma init_gw_inv:
  assumes M: "memdb_models M C" and run: "initStorages M now cfg = Inr s"
  shows "gw_inv M C s"
proof -
  note ok = initStorages_ok [OF M run]
  have "vv_FIPServed v = 0" if "vvrf_view M (st_vvrfs s) i = Some v" for i v
    using that fold_upd_cases [of vr_VRFID "\<lambda>r. vpp_vrf_of cfg (label_of r) r" "cfg_VRF cfg" "[0 \<mapsto> global_table cfg]" i v]
    unfolding ok(6) by (auto split: if_splits)
  then show ?thesis using ok(1-3) by (simp add: gw_inv_def fip_inv_def in_vrf_def)
qed

text \<open>The metrics as the program starts, and the state of the peer events.\<close>

definition no_metrics :: GoBGPGeneralMetric where
  "no_metrics = \<lparr>gm_VRFCount = 0, gm_PeerCount = 0, gm_ActivePeerCount = 0\<rparr>"

definition initial_events :: "'d storage \<Rightarrow> 'd event_state" where
  "initial_events s = \<lparr>ev_peers = st_peers s, ev_metrics = no_metrics, ev_bfd = []\<rparr>"

lemma finite_fold_upd: "finite (dom V) \<Longrightarrow> finite (dom (fold upd_peer ps V))"
proof (induction ps arbitrary: V)
  case (Cons p ps)
  have "finite (dom (upd_peer p V))" using Cons.prems by simp
  then show ?case using Cons.IH by (simp only: fold_simps)
qed simp

lemma init_event_inv:
  assumes M: "memdb_models M C" and run: "initStorages M now cfg = Inr s"
  shows "event_wf C (initial_events s)" "event_inv M (initial_events s)"
proof -
  note ok = initStorages_ok [OF M run]
  show "event_wf C (initial_events s)" using ok(1) by (simp add: event_wf_def initial_events_def storage_wf_def)
  let ?V = "peer_view M (st_peers s)"
  have fin: "finite (dom ?V)" unfolding ok(4) by (rule finite_fold_upd) simp
  have each: "bp_State p = PeerState_UNKNOWN \<and> (\<forall>b. bp_BFDPeering p = Some b \<longrightarrow> \<not> bfd_PeerEstablished b)"
    if "?V ip = Some p" for ip p
  proof -
    have "p \<in> set (all_peers now cfg)"
      using that fold_upd_cases [of bp_PeerAddress "\<lambda>p. p" "all_peers now cfg" Map.empty ip p] unfolding ok(4) by auto
    then show ?thesis by (auto simp: all_peers_def Let_def NewBFDPeer_def)
  qed
  then have "established ?V = {}" "bfd_marked ?V = {}" "bfd_wanted ?V = {}"
    by (fastforce simp: established_def bfd_marked_def bfd_wanted_def)+
  then show "event_inv M (initial_events s)" using fin by (simp add: event_inv_def initial_events_def no_metrics_def)
qed

section \<open>The GoBGP server\<close>

text \<open>The requests for a VRF and for a peer.\<close>

definition vrf_request :: "BGPVRFTable \<Rightarrow> bgp_req" where
  "vrf_request v = AddVrf \<lparr>gv_Name = bv_Name v, gv_Id = bv_ID v, gv_Rd = bv_RD v,
     gv_ImportRt = bv_ImportRT v, gv_ExportRt = bv_ExportRT v\<rparr>"

definition peer_request :: "BGPPeer \<Rightarrow> bgp_req" where
  "peer_request p = AddPeer
     \<lparr>gp_NeighborAddress = bp_PeerAddress p, gp_PeerAsn = bp_PeerASN p, gp_AuthPassword = bp_Md5Password p,
      gp_Vrf = bp_VRFName p, gp_MultihopEnabled = bp_EbgpMultiHop p, gp_MultihopTtl = bp_EbgpMultiHopTTL p,
      gp_KeepaliveInterval = bp_KeepAliveTimer p, gp_HoldTime = bp_HoldTimer p,
      gp_RemotePort = bp_PeerPort p, gp_Afi = bp_AFI p, gp_Safi = bp_SAFI p\<rparr>"

lemma configure_vrfs_accepted:
  "w_bgps w = [] \<Longrightarrow> configure_vrfs vs m w =
     (None, m\<lparr>gm_VRFCount := gm_VRFCount m + of_nat (length vs)\<rparr>, w\<lparr>w_bgp := w_bgp w @ map vrf_request vs\<rparr>)"
  by (induction vs arbitrary: m w)
    (simp_all add: AddGoBGPVRF_def bgp_call_def vrf_request_def IncVRFCount_def)

lemma configure_peers_accepted:
  "w_bgps w = [] \<Longrightarrow> configure_peers ps w = (None, w\<lparr>w_bgp := w_bgp w @ map peer_request ps\<rparr>)"
  by (induction ps arbitrary: w) (simp_all add: AddBGPPeer_srv_def bgp_call_def peer_request_def)

lemma deletePeers_accepted:
  "w_bgps w = [] \<Longrightarrow> w_bgp (deletePeers ps w) = w_bgp w @ map (\<lambda>p. DeletePeer (bp_PeerAddress p)) ps"
  unfolding deletePeers_def
proof (induction ps arbitrary: w)
  case (Cons p ps)
  let ?w = "snd (DelBGPPeer p w)"
  have w: "?w = w\<lparr>w_bgp := w_bgp w @ [DeletePeer (bp_PeerAddress p)]\<rparr>"
    using Cons.prems by (simp add: DelBGPPeer_def bgp_call_def)
  then have "w_bgps ?w = []" using Cons.prems by simp
  from Cons.IH [OF this] show ?case using w by simp
qed simp

lemma no_sets_before:
  "defined_sets (map vrf_request vs @ map peer_request ps) = []" "assigned (map vrf_request vs @ map peer_request ps) = []"
proof -
  have none: "List.map_filter f xs = []" if "\<And>x. x \<in> set xs \<Longrightarrow> f x = None" for f and xs :: "bgp_req list"
    using that by (induction xs) (auto simp: List.map_filter_simps)
  show "defined_sets (map vrf_request vs @ map peer_request ps) = []"
    "assigned (map vrf_request vs @ map peer_request ps) = []"
    unfolding defined_sets_def assigned_def by (auto intro!: none simp: vrf_request_def peer_request_def)
qed

section \<open>The tables of the handler\<close>

text \<open>A map built from the objects of a table is the table's view of the field.\<close>

lemma fold_upd_view:
  assumes all: "set xs = ran V" and key: "\<And>k x. V k = Some x \<Longrightarrow> key x = k" and dist: "distinct (map key xs)"
  shows "foldl (\<lambda>R x. R(key x \<mapsto> val x)) Map.empty xs k = map_option val (V k)"
proof (cases "V k")
  case None
  then have "k \<notin> set (map key xs)" using all key by (auto simp: ran_def)
  then show ?thesis using None fold_upd_other [of k key xs val Map.empty] by (simp add: foldl_conv_fold)
next
  case (Some x)
  then have x: "x \<in> set xs" "key x = k" using all key by (auto simp: ran_def)
  from fold_upd_at [OF dist x(1), of val Map.empty] show ?thesis using Some x(2) by (simp add: foldl_conv_fold)
qed

lemma sorted_distinct: "sorted_wrt (<) (map f xs) \<Longrightarrow> (\<And>x y. g x = g y \<Longrightarrow> f x = f y) \<Longrightarrow> distinct (map g xs)"
  for f :: "'a \<Rightarrow> key"
proof (induction xs)
  case (Cons x xs)
  have less: "f x < f y" if "y \<in> set xs" for y using Cons.prems(1) that by simp
  have "g x \<noteq> g y" if "y \<in> set xs" for y
    using Cons.prems(2) [of x y] less [OF that] by (metis less_irrefl)
  moreover have "distinct (map g xs)"
    by (rule Cons.IH) (use Cons.prems(1) in simp, rule Cons.prems(2))
  ultimately show ?case by auto
qed simp

lemma parse_aggregates_set:
  "parse_aggregates ps = Inr ns \<Longrightarrow> set ns = {n. \<exists>p \<in> set ps. \<exists>a. ParseCIDR p = Inr (a, n)}"
  by (induction ps arbitrary: ns) (auto split: sum.splits)

text \<open>The tables \<^verbatim>\<open>GetVRFs\<close> returns, in the order of their names.\<close>

lemma vvrf_view_ran:
  assumes "memdb_models M C" "tbl_wf C vvrf_keys t"
  shows "ran (vvrf_view M t) = ran (tbl_view M t)"
proof -
  have "k = KUint (vv_ID v)" if "tbl_view M t k = Some v" for k v
    using vvrfs.view_key [OF assms that] by simp
  then show ?thesis unfolding ran_def vvrf_view_def by blast
qed

lemma VPP_GetVRFs_ok:
  assumes M: "memdb_models M C" and wf: "tbl_wf C vvrf_keys t" and names: "inj_on vv_Name (ran (vvrf_view M t))"
  shows "set (VPP_GetVRFs M t) = ran (vvrf_view M t)"
    and "sorted_wrt (<) (map (\<lambda>v. KStr (vv_Name v)) (VPP_GetVRFs M t))"
proof -
  have inj: "inj_on (\<lambda>v. KStr (vv_Name v)) (ran (tbl_view M t))"
    using names unfolding vvrf_view_ran [OF M wf] by (simp add: inj_on_def)
  have "set (tbl_all M ''name'' t) = ran (tbl_view M t)"
    "sorted_wrt (<) (map (\<lambda>v. KStr (vv_Name v)) (tbl_all M ''name'' t))"
    by (rule vvrfs.all_ok [OF M wf _ inj], simp add: vvrf_keys_def)+
  then show "set (VPP_GetVRFs M t) = ran (vvrf_view M t)"
    "sorted_wrt (<) (map (\<lambda>v. KStr (vv_Name v)) (VPP_GetVRFs M t))"
    by (simp_all add: VPP_GetVRFs_def vvrf_view_ran [OF M wf])
qed

text \<open>What is stored under an address and under an identifier.\<close>

lemma stored_peer:
  assumes M: "memdb_models M C" and run: "initStorages M now cfg = Inr s"
    and addrs: "distinct (tf_Address (cfg_TFController cfg) @ map vr_BGPPeerIP (cfg_VRF cfg))"
    and p: "p \<in> set (all_peers now cfg)"
  shows "GetBGPPeer M (st_peers s) (bp_PeerAddress p) = Some p"
proof -
  have "distinct (map bp_PeerAddress (all_peers now cfg))" using addrs by (simp only: all_peers_addresses)
  from fold_upd_at [OF this p, of "\<lambda>p. p" Map.empty] show ?thesis
    using initStorages_ok(4) [OF M run] by (simp add: GetBGPPeer_def peer_view_def fun_eq_iff)
qed

lemma all_peers_TF: "ip \<in> set (tf_Address (cfg_TFController cfg)) \<Longrightarrow> \<exists>n. tf_peer cfg (now n) ip \<in> set (all_peers now cfg)"
proof -
  assume "ip \<in> set (tf_Address (cfg_TFController cfg))"
  then obtain n where "(n, ip) \<in> set (enumerate 0 (tf_Address (cfg_TFController cfg)))"
    by (metis in_set_conv_nth in_set_enumerate_eq fst_conv snd_conv add_0 length_enumerate nth_enumerate_eq nth_mem)
  then show ?thesis by (force simp: all_peers_def Let_def)
qed

lemma all_peers_PHYNET: "r \<in> set (cfg_VRF cfg) \<Longrightarrow> \<exists>n. phynet_peer (now n) r \<in> set (all_peers now cfg)"
proof -
  assume "r \<in> set (cfg_VRF cfg)"
  then obtain n where "(n, r) \<in> set (enumerate (length (tf_Address (cfg_TFController cfg))) (cfg_VRF cfg))"
    by (metis in_set_conv_nth nth_enumerate_eq length_enumerate nth_mem)
  then show ?thesis by (force simp: all_peers_def Let_def)
qed

lemma stored_vrfs:
  assumes M: "memdb_models M C" and run: "initStorages M now cfg = Inr s"
    and ids: "distinct (map vr_VRFID (cfg_VRF cfg))" "0 \<notin> vr_VRFID ` set (cfg_VRF cfg)"
  shows "r \<in> set (cfg_VRF cfg) \<Longrightarrow> VPP_GetVRF M (st_vvrfs s) (vr_VRFID r) = Some (vpp_vrf_of cfg (label_of r) r)"
    and "r \<in> set (cfg_VRF cfg) \<Longrightarrow> BGP_GetVRF M (st_bvrfs s) (vr_VRFID r) = Some (bgp_vrf_of cfg r)"
    and "{i. IsVRFExist M (st_vvrfs s) i} = insert 0 (vr_VRFID ` set (cfg_VRF cfg))"
proof -
  note ok = initStorages_ok [OF M run]
  let ?V = "fold (\<lambda>r V. V(vr_VRFID r \<mapsto> vpp_vrf_of cfg (label_of r) r)) (cfg_VRF cfg) [0 \<mapsto> global_table cfg]"
  note V = fold_upd_at [OF ids(1), of _ "\<lambda>r. vpp_vrf_of cfg (label_of r) r" "[0 \<mapsto> global_table cfg]"]
  show "r \<in> set (cfg_VRF cfg) \<Longrightarrow> VPP_GetVRF M (st_vvrfs s) (vr_VRFID r) = Some (vpp_vrf_of cfg (label_of r) r)"
    using V ok(6) by (simp add: VPP_GetVRF_def vvrf_view_def fun_eq_iff)
  show "r \<in> set (cfg_VRF cfg) \<Longrightarrow> BGP_GetVRF M (st_bvrfs s) (vr_VRFID r) = Some (bgp_vrf_of cfg r)"
    using fold_upd_at [OF ids(1), of r "bgp_vrf_of cfg" Map.empty] ok(5)
    by (simp add: BGP_GetVRF_def bvrf_view_def fun_eq_iff)
  have "(?V i \<noteq> None) = (i = 0 \<or> i \<in> vr_VRFID ` set (cfg_VRF cfg))" for i
    using fold_upd_other [of i vr_VRFID "cfg_VRF cfg" "\<lambda>r. vpp_vrf_of cfg (label_of r) r" "[0 \<mapsto> global_table cfg]"] V ids(2)
    by (cases "i \<in> vr_VRFID ` set (cfg_VRF cfg)") auto
  then show "{i. IsVRFExist M (st_vvrfs s) i} = insert 0 (vr_VRFID ` set (cfg_VRF cfg))"
    using ok(6) by (auto simp: IsVRFExist_def vvrf_view_def fun_eq_iff)
qed

text \<open>An address is that of one stored peer.\<close>

lemma one_peer_per_address:
  assumes M: "memdb_models M C" and wf: "storage_wf C s"
  shows "inj_on bp_PeerAddress (set (GetBGPPeers M (st_peers s)))"
proof -
  have pw: "tbl_wf C peer_keys (st_peers s)" using wf by (simp add: storage_wf_def)
  have "set (GetBGPPeers M (st_peers s)) = ran (tbl_view M (st_peers s))"
    using peers.all_id(1) [OF M pw] by (simp add: GetBGPPeers_def)
  moreover have "inj_on (\<lambda>p. KStr (bp_PeerAddress p)) (ran (tbl_view M (st_peers s)))" by (rule peers.inj_idk [OF M pw])
  ultimately show ?thesis by (simp add: inj_on_def)
qed

text \<open>The lists the handler's tables are computed from, as the views of the storage.\<close>

lemma peer_type_table:
  assumes M: "memdb_models M C" and pw: "tbl_wf C peer_keys t"
  shows "foldl (\<lambda>result p. result(bp_PeerAddress p \<mapsto> bp_PeerType p)) Map.empty (tbl_all M ''id'' t) ip =
    map_option bp_PeerType (GetBGPPeer M t ip)"
proof -
  have "k = KStr (bp_PeerAddress v)" if "tbl_view M t k = Some v" for k v using peers.view_key [OF M pw that] by simp
  then have ran: "ran (peer_view M t) = ran (tbl_view M t)" unfolding ran_def peer_view_def by blast
  note all = peers.all_id [OF M pw]
  have "distinct (map bp_PeerAddress (tbl_all M ''id'' t))" using sorted_distinct [OF all(2), of bp_PeerAddress] by simp
  then show ?thesis
    using fold_upd_view [of "tbl_all M ''id'' t" "peer_view M t" bp_PeerAddress bp_PeerType ip] all(1) ran
      view_key_simps(5) [OF M pw]
    by (simp add: GetBGPPeer_def peer_view_def)
qed

lemma stored_vrf_list:
  assumes M: "memdb_models M C" and vw: "tbl_wf C vvrf_keys t" and names: "inj_on vv_Name (ran (vvrf_view M t))"
  shows "set (tbl_all M ''name'' t) = ran (vvrf_view M t)" "distinct (map vv_ID (tbl_all M ''name'' t))"
    "foldl (\<lambda>result v. result(vv_ID v \<mapsto> vv_NextHop v)) Map.empty (tbl_all M ''name'' t) i =
      map_option vv_NextHop (VPP_GetVRF M t i)"
proof -
  let ?vs = "tbl_all M ''name'' t"
  note ran = vvrf_view_ran [OF M vw]
  have vs: "set ?vs = ran (vvrf_view M t)" "sorted_wrt (<) (map (\<lambda>v. KStr (vv_Name v)) ?vs)"
    using VPP_GetVRFs_ok [OF M vw names] by (simp_all add: VPP_GetVRFs_def)
  show "set ?vs = ran (vvrf_view M t)" by (rule vs(1))
  have "distinct ?vs" using sorted_distinct [OF vs(2), of "\<lambda>v. v"] by simp
  moreover have "inj_on (\<lambda>v. KUint (vv_ID v)) (set ?vs)" using vvrfs.inj_idk [OF M vw] vs(1) ran by simp
  ultimately show dist: "distinct (map vv_ID ?vs)" by (simp add: distinct_map inj_on_def)
  then show "foldl (\<lambda>result v. result(vv_ID v \<mapsto> vv_NextHop v)) Map.empty ?vs i = map_option vv_NextHop (VPP_GetVRF M t i)"
    using fold_upd_view [of ?vs "vvrf_view M t" vv_ID vv_NextHop i] vs(1) view_key_simps(3) [OF M vw]
    by (simp add: VPP_GetVRF_def vvrf_view_def)
qed

section \<open>Properties\<close>

text \<open>
  The gateway is consistent from its start on. Once the storages are built from a configuration,
  every sequence of fewer than 2^32 controller updates that does not panic ends with tunnel and VRF
  counters that count the stored floating IPs, and every sequence of peer events with an active peer
  counter that counts the established peers: the storages start in the handlers' invariants.
\<close>

theorem gateway_consistent_from_start:
  assumes "memdb_models M C" "refuses_empty P" "initStorages M now cfg = Inr s"
  shows "(\<forall>ps s' w'. length ps < 2 ^ 32 \<longrightarrow> handle_tf_paths M P J cfg env ps s w = Some (s', w') \<longrightarrow>
       fip_inv (fip_view M (st_fips s')) (tun_view M (st_tuns s')) (vvrf_view M (st_vvrfs s'))) \<and>
     (\<forall>evs st'. handle_peer_events M evs (initial_events s) = Some st' \<longrightarrow>
       gm_ActivePeerCount (ev_metrics st') = of_nat (card (established (peer_of M st'))))"
proof (intro conjI allI impI)
  note inv = init_gw_inv [OF assms(1,3)] and ev = init_event_inv [OF assms(1,3)]
  show "fip_inv (fip_view M (st_fips s')) (tun_view M (st_tuns s')) (vvrf_view M (st_vvrfs s'))"
    if "length ps < 2 ^ 32" "handle_tf_paths M P J cfg env ps s w = Some (s', w')" for ps s' w'
    using handle_tf_paths_gw_inv [OF assms(1,2) inv _ that(2)] that(1) initStorages_ok(2) [OF assms(1,3)]
    by (simp add: gw_inv_def)
  show "gm_ActivePeerCount (ev_metrics st') = of_nat (card (established (peer_of M st')))"
    if "handle_peer_events M evs (initial_events s) = Some st'" for evs st'
    using handle_peer_events_inv [OF assms(1) ev that] by (simp add: event_inv_def)
qed

text \<open>
  C13: what the configuration becomes. When the storages are built and the identifiers and addresses
  of the configuration are distinct, every controller is a stored peer of that type, and every VRF of
  the configuration has: its VPP table, with its floating IP prefixes, its next hop and the label
  computed from its local address; its BGP table, with the distinguisher made of the router id and
  the VRF's number and with the controllers' target for that number in both directions; and its
  neighbor, a stored peer of the physical network in that VRF. The only other table is the default one.
\<close>

theorem initStorages_contents:
  assumes M: "memdb_models M C" and run: "initStorages M now cfg = Inr s"
    and ids: "distinct (map vr_VRFID (cfg_VRF cfg))" "0 \<notin> vr_VRFID ` set (cfg_VRF cfg)"
    and addrs: "distinct (tf_Address (cfg_TFController cfg) @ map vr_BGPPeerIP (cfg_VRF cfg))"
  shows "(\<forall>ip \<in> set (tf_Address (cfg_TFController cfg)). IsTF M (st_peers s) ip) \<and>
     (\<forall>r \<in> set (cfg_VRF cfg).
        (\<exists>v. VPP_GetVRF M (st_vvrfs s) (vr_VRFID r) = Some v \<and> vv_FIPPrefixes v = vr_FIPPrefixes r \<and>
           vv_NextHop v = vr_BGPPeerIP r \<and> MPLSLabel (vr_LocalIP r) = Inr (vv_MPLSLocalLabel v)) \<and>
        BGP_GetVRF M (st_bvrfs s) (vr_VRFID r) = Some
          \<lparr>bv_Name = vr_VRFName r, bv_ID = vr_VRFID r, bv_LocalASN = gb_BGPLocalASN (cfg_GoBGP cfg),
           bv_PeerASN = vr_BGPPeerASN r, bv_RD = Some (RD (gb_RID (cfg_GoBGP cfg)) (vr_VRFID r)),
           bv_ExportRT = [RT (tf_BGPPeerASN (cfg_TFController cfg)) (vr_VRFID r)],
           bv_ImportRT = [RT (tf_BGPPeerASN (cfg_TFController cfg)) (vr_VRFID r)]\<rparr> \<and>
        (\<exists>p. GetBGPPeer M (st_peers s) (vr_BGPPeerIP r) = Some p \<and> bp_PeerType p = PHYNET \<and>
           bp_VRFName p = vr_VRFName r)) \<and>
     {i. IsVRFExist M (st_vvrfs s) i} = insert 0 (vr_VRFID ` set (cfg_VRF cfg))"
proof (intro conjI ballI)
  note vrfs = stored_vrfs [OF M run ids] and peer = stored_peer [OF M run addrs]
  show "IsTF M (st_peers s) ip" if ip: "ip \<in> set (tf_Address (cfg_TFController cfg))" for ip
  proof -
    obtain n where "tf_peer cfg (now n) ip \<in> set (all_peers now cfg)" using all_peers_TF [OF ip] by blast
    from peer [OF this] show ?thesis by (simp add: IsTF_def GetBGPPeer_def)
  qed
  show "{i. IsVRFExist M (st_vvrfs s) i} = insert 0 (vr_VRFID ` set (cfg_VRF cfg))" by (rule vrfs(3))
  fix r assume r: "r \<in> set (cfg_VRF cfg)"
  show "\<exists>v. VPP_GetVRF M (st_vvrfs s) (vr_VRFID r) = Some v \<and> vv_FIPPrefixes v = vr_FIPPrefixes r \<and>
      vv_NextHop v = vr_BGPPeerIP r \<and> MPLSLabel (vr_LocalIP r) = Inr (vv_MPLSLocalLabel v)"
    using vrfs(1) [OF r] initStorages_ok(7) [OF M run] r by (simp add: vpp_vrf_of_def NewVPPVRFTable_def)
  show "BGP_GetVRF M (st_bvrfs s) (vr_VRFID r) = Some
          \<lparr>bv_Name = vr_VRFName r, bv_ID = vr_VRFID r, bv_LocalASN = gb_BGPLocalASN (cfg_GoBGP cfg),
           bv_PeerASN = vr_BGPPeerASN r, bv_RD = Some (RD (gb_RID (cfg_GoBGP cfg)) (vr_VRFID r)),
           bv_ExportRT = [RT (tf_BGPPeerASN (cfg_TFController cfg)) (vr_VRFID r)],
           bv_ImportRT = [RT (tf_BGPPeerASN (cfg_TFController cfg)) (vr_VRFID r)]\<rparr>"
    using vrfs(2) [OF r] by (simp add: bgp_vrf_of_def NewBGPVRFTable_def)
  obtain n where "phynet_peer (now n) r \<in> set (all_peers now cfg)" using all_peers_PHYNET [OF r] by blast
  from peer [OF this] show "\<exists>p. GetBGPPeer M (st_peers s) (vr_BGPPeerIP r) = Some p \<and> bp_PeerType p = PHYNET \<and>
      bp_VRFName p = vr_VRFName r" by simp
qed


text \<open>
  C17: the tables the handler computes before it watches anything are the storage's: the type of every
  stored peer and of no other address, the next hop of every stored VRF, and as aggregates exactly
  the networks of the floating IP prefixes of the stored VRFs. Names of VRFs must differ, as they
  index the table that is iterated.
\<close>

theorem prepare_handler_tables:
  assumes M: "memdb_models M C" and wf: "storage_wf C s" and run: "prepare_handler M s = Inr env"
    and names: "inj_on vv_Name (ran (vvrf_view M (st_vvrfs s)))"
  shows "he_peerTypes env ip = map_option bp_PeerType (GetBGPPeer M (st_peers s) ip) \<and>
     he_vrfNextHops env i = map_option vv_NextHop (VPP_GetVRF M (st_vvrfs s) i) \<and>
     set (he_aggregates env) = {n. \<exists>i v p a. VPP_GetVRF M (st_vvrfs s) i = Some v \<and> p \<in> set (vv_FIPPrefixes v) \<and>
       ParseCIDR p = Inr (a, n)}"
proof (intro conjI)
  let ?vs = "tbl_all M ''name'' (st_vvrfs s)"
  have pw: "tbl_wf C peer_keys (st_peers s)" and vw: "tbl_wf C vvrf_keys (st_vvrfs s)"
    using wf by (simp_all add: storage_wf_def)
  note vs = stored_vrf_list [OF M vw names]
  have types: "he_peerTypes env = foldl (\<lambda>result p. result(bp_PeerAddress p \<mapsto> bp_PeerType p)) Map.empty (tbl_all M ''id'' (st_peers s))"
    and hops: "he_vrfNextHops env = foldl (\<lambda>result v. result(vv_ID v \<mapsto> vv_NextHop v)) Map.empty ?vs"
    and nets: "parse_aggregates (concat (map vv_FIPPrefixes ?vs)) = Inr (he_aggregates env)"
    using run by (auto simp: prepare_handler_def CreateBGPPeerToTypeMap_def CreateVRFIDToNextHopMap_def
        VPP_GetVRFs_def tbl_all_def Let_def split: sum.splits if_splits)
  show "he_peerTypes env ip = map_option bp_PeerType (GetBGPPeer M (st_peers s) ip)"
    by (simp add: types peer_type_table [OF M pw])
  show "he_vrfNextHops env i = map_option vv_NextHop (VPP_GetVRF M (st_vvrfs s) i)" by (simp add: hops vs(3))
  have "set ?vs = {v. \<exists>i. VPP_GetVRF M (st_vvrfs s) i = Some v}"
    using vs(1) by (auto simp: ran_def VPP_GetVRF_def vvrf_view_def)
  then show "set (he_aggregates env) = {n. \<exists>i v p a. VPP_GetVRF M (st_vvrfs s) i = Some v \<and>
      p \<in> set (vv_FIPPrefixes v) \<and> ParseCIDR p = Inr (a, n)}"
    unfolding parse_aggregates_set [OF nets] by auto
qed

section \<open>The properties on a sample configuration\<close>

definition sample_vrf_cfg :: VRF_cfg where
  "sample_vrf_cfg = \<lparr>vr_FIPPrefixes = [''203.0.113.0/24''], vr_VRFName = ''blue'', vr_VRFID = 1,
     vr_LocalIP = ''192.0.2.2/30'', vr_VLANID = 100, vr_BGPPeerIP = ''192.0.2.1'', vr_BGPPeerASN = 64900, vr_BGPTTL = 1,
     vr_BGPKeepAlive = 30, vr_BGPHoldTimer = 90, vr_BGPPassword = '''', vr_BFDEnable = True, vr_BFDLocalIP = ''192.0.2.2'',
     vr_BFDTxRate = 400, vr_BFDRxMin = 400, vr_BFDMultiplier = 5\<rparr>"

definition full_cfg :: Config where
  "full_cfg = sample_cfg\<lparr>cfg_VRF := [sample_vrf_cfg]\<rparr>"

definition full_storage :: "(key \<times> keys \<times> addr) list storage" where
  "full_storage = (case initStorages alist_memdb (\<lambda>n. n) full_cfg of Inl _ \<Rightarrow> NewStorage alist_memdb | Inr s \<Rightarrow> s)"

lemma full_storage_init: "initStorages alist_memdb (\<lambda>n. n) full_cfg = Inr full_storage"
proof -
  have "\<not> isl (initStorages alist_memdb (\<lambda>n. n) full_cfg)" by code_simp
  then show ?thesis by (auto simp: full_storage_def isl_def split: sum.splits)
qed

theorem gateway_consistent_from_start_witness:
  "\<exists>st'. handle_peer_events alist_memdb [(''192.0.2.1'', PeerState_ESTABLISHED)] (initial_events full_storage) = Some st' \<and>
     gm_ActivePeerCount (ev_metrics st') = of_nat (card (established (peer_of alist_memdb st')))"
proof -
  let ?run = "handle_peer_events alist_memdb [(''192.0.2.1'', PeerState_ESTABLISHED)] (initial_events full_storage)"
  have "\<not> Option.is_none ?run" by code_simp
  then obtain st' where run: "?run = Some st'" by (cases ?run) auto
  then show ?thesis
    using gateway_consistent_from_start [OF alist_memdb_models sample_refuses full_storage_init] by blast
qed

theorem initStorages_contents_witness:
  "IsTF alist_memdb (st_peers full_storage) ''10.0.0.9'' \<and>
   {i. IsVRFExist alist_memdb (st_vvrfs full_storage) i} = {0, 1}"
  using initStorages_contents [OF alist_memdb_models full_storage_init]
  by (simp add: full_cfg_def sample_cfg_def sample_vrf_cfg_def)

theorem prepare_handler_tables_witness:
  "\<exists>env. prepare_handler alist_memdb full_storage = Inr env \<and>
     he_vrfNextHops env 1 = map_option vv_NextHop (VPP_GetVRF alist_memdb (st_vvrfs full_storage) 1)"
proof -
  have "\<not> isl (prepare_handler alist_memdb full_storage)" by code_simp
  then obtain env where run: "prepare_handler alist_memdb full_storage = Inr env"
    by (cases "prepare_handler alist_memdb full_storage") simp_all
  note ok = initStorages_ok [OF alist_memdb_models full_storage_init]
  have "inj_on vv_Name (ran (vvrf_view alist_memdb (st_vvrfs full_storage)))"
    unfolding ok(6)
    by (auto simp: full_cfg_def sample_vrf_cfg_def ran_def inj_on_def global_table_def NewVPPVRFTable_def vpp_vrf_of_def
        split: if_splits)
  then show ?thesis using prepare_handler_tables [OF alist_memdb_models ok(1) run] run by blast
qed


end
