(* ===== verification/Vpp_Init.thy ===== *)
theory Vpp_Init
  imports App_Init
begin

text \<open>
  Starting VPP: \<^verbatim>\<open>internal/repository/vpp/initialize\<close> (clearing what a previous run left, adding the
  static configuration) and \<^verbatim>\<open>initVPP\<close> of \<^verbatim>\<open>internal/app\<close>. The state is the VPP VRF storage, whose
  objects receive their sub-interfaces here, and the world of \<open>Vpp_Api\<close>. The connection to VPP is the
  world itself. The lemmas show the exact list of requests VPP has acknowledged after a successful
  start, and that the storage keeps the invariants of the handlers.
\<close>

section \<open>clear_config.go\<close>

definition contains :: "u32 list \<Rightarrow> u32 \<Rightarrow> bool" where
  "contains elements target \<longleftrightarrow> (\<exists>e \<in> set elements. e = target)"

definition num :: "u32 \<Rightarrow> string" where
  "num i = itoa (unat i)"

text \<open>An operation that returns a value beside its error, whose error ends the caller.\<close>

definition orE :: "(('a \<times> err option) \<times> world) go \<Rightarrow> ((err + 'a) \<times> world) go" where
  "orE m = do { ((a, e), w) \<leftarrow> m; Some (case e of Some e \<Rightarrow> Inl e | None \<Rightarrow> Inr a, w) }"

definition del_fip :: "govpp \<Rightarrow> VPPIPRoute \<Rightarrow> world \<Rightarrow> ((err + unit) \<times> world) go" where
  "del_fip P r w = wrapE (''failed to remove mpls/floating ip route '' @ rt_Prefix r) (AddDelFIPRoute P False r w)"

definition del_tunnel :: "govpp \<Rightarrow> u32 \<Rightarrow> world \<Rightarrow> ((err + unit) \<times> world) go" where
  "del_tunnel P i w = wrapE (''failed to delete udp tunnel id '' @ num i) (DelUDPTunnel_vpp P i w)"

text \<open>One table's turn in the deletion of the labels: the dump is not used but for its emptiness.\<close>

definition del_label :: "govpp \<Rightarrow> VPPVRFTable \<Rightarrow> world \<Rightarrow> ((err + unit) \<times> world) go" where
  "del_label P v w =
     (if vv_ID v = 0 then returnE () w
      else bindE (wrapE (''failed to dump mpls local route label id '' @ num (vv_MPLSLocalLabel v))
                   (DumpMPLSLocalLabelRoute w)) (\<lambda>rs w.
        if rs = [] then returnE () w
        else wrapE (''failed to delete mpls local route label id '' @ num (vv_MPLSLocalLabel v))
               (AddDelMPLSLocalLabelRoute P False v w)))"

definition ClearVPPConfig :: "govpp \<Rightarrow> u32 \<Rightarrow> VPPVRFTable list \<Rightarrow> world \<Rightarrow> ((err + unit) \<times> world) go" where
  "ClearVPPConfig P mainInterfaceID vppVRFs w =
     bindE (wrapE ''failed to dump ip routes from vpp'' (DumpIPRoutes P w)) (\<lambda>routes w.
     bindE (forE routes (\<lambda>r w. wrapE (''failed to delete ip route '' @ rt_Prefix r) (AddDelIPRoute P False r w)) w) (\<lambda>_ w.
     bindE (forE vppVRFs (del_label P) w) (\<lambda>_ w.
     bindE (wrapE ''failed to delete sub-interfaces'' (orE (DelSubInterfaces P mainInterfaceID w))) (\<lambda>_ w.
     bindE (wrapE ''failed to dump udp tunnels from vpp'' (orE (DumpUDPTunnels P w))) (\<lambda>tunnels w.
     bindE (wrapE ''failed to dump vm floating ip routes from vpp'' (orE (DumpFIPRoutes P w))) (\<lambda>fips w.
     bindE (forE fips (\<lambda>r w. forE tunnels (\<lambda>u w.
              if contains (rt_TunnelIDs r) (tn_TunnelID u)
              then bindE (del_fip P r w) (\<lambda>_ w. del_tunnel P (tn_TunnelID u) w)
              else returnE () w) w) w) (\<lambda>_ w.
     bindE (wrapE ''failed to dump udp tunnels from vpp'' (orE (DumpUDPTunnels P w))) (\<lambda>tunnels w.
     bindE (forE tunnels (\<lambda>u w. del_tunnel P (tn_TunnelID u) w) w) (\<lambda>_ w.
     bindE (wrapE ''failed to dump vm floating ip routes'' (orE (DumpFIPRoutes P w))) (\<lambda>fips w.
     bindE (forE fips (del_fip P) w) (\<lambda>_ w.
     bindE (wrapE ''failed to reset main interface'' (ResetMainInterface P mainInterfaceID w)) (\<lambda>_ w.
     forE vppVRFs (\<lambda>v w. if vv_ID v = 0 then returnE () w
       else wrapE (''failed to delete vpp routing table id '' @ num (vv_ID v)) (AddDelVRF P False v w)) w))))))))))))"

section \<open>add_config.go\<close>

text \<open>An operation on the world alone, and a loop over all tables but the default one.\<close>

definition on_world :: "(world \<Rightarrow> ((err + 'a) \<times> world) go) \<Rightarrow> 't \<times> world \<Rightarrow> ((err + 'a) \<times> ('t \<times> world)) go" where
  "on_world m s = do { (r, w) \<leftarrow> m (snd s); Some (r, (fst s, w)) }"

definition each_vrf :: "string \<Rightarrow> (VPPVRFTable \<Rightarrow> world \<Rightarrow> ((err + unit) \<times> world) go) \<Rightarrow> VPPVRFTable list
    \<Rightarrow> world \<Rightarrow> ((err + unit) \<times> world) go" where
  "each_vrf msg f vrfs = forE vrfs (\<lambda>v w. if vv_ID v = 0 then returnE () w else wrapE (msg @ num (vv_ID v)) (f v w))"

text \<open>The pointers that \<^verbatim>\<open>GetVRFs\<close> returns, and the loop that writes through them.\<close>

definition vrf_ptrs :: "'d memdb \<Rightarrow> ('d, VPPVRFTable) table \<Rightarrow> addr list" where
  "vrf_ptrs M t = (case mdb_all M ''name'' (tb_db t) of Inl _ \<Rightarrow> [] | Inr as \<Rightarrow> as)"

fun add_subifs :: "govpp \<Rightarrow> addr list \<Rightarrow> ('d, VPPVRFTable) table \<times> world
    \<Rightarrow> ((err + unit) \<times> ('d, VPPVRFTable) table \<times> world) go" where
  "add_subifs P [] s = returnE () s"
| "add_subifs P (a # as) s = (case tb_heap (fst s) a of
      None \<Rightarrow> panic
    | Some v \<Rightarrow>
        if vv_ID v = 0 then add_subifs P as s
        else bindE (wrapE (''failed to create sub-interface '' @ num (vv_SubInterfaceID v)) (on_world (AddSubInterface P v) s))
          (\<lambda>sub s. add_subifs P as (tbl_poke a (\<lambda>v. v\<lparr>vv_SubInterfaceID := sub\<rparr>) (fst s), snd s)))"

definition default_route :: "u32 \<Rightarrow> string \<Rightarrow> VPPIPRoute" where
  "default_route mainInterfaceID gw = \<lparr>rt_VRFID = 0, rt_MainInterfaceID = mainInterfaceID,
     rt_SubInterfaceID = UndefinedSubIf, rt_Prefix = ''0.0.0.0/0'', rt_NextHops = [gw],
     rt_TunnelIDs = [UndefinedTunnelID], rt_FIPMPLSLabels = [UndefinedLabel]\<rparr>"

definition aggr_routes :: "u32 \<Rightarrow> VPPVRFTable list \<Rightarrow> VPPIPRoute list" where
  "aggr_routes mainInterfaceID vrfs = concat (map (\<lambda>v. map (\<lambda>prefix.
     NewVPPIPRoute (vv_ID v) mainInterfaceID UndefinedSubIf prefix [''''] [UndefinedTunnelID] [UndefinedLabel])
     (vv_FIPPrefixes v)) vrfs)"

definition AddVPPInitConfig :: "govpp \<Rightarrow> 'd memdb \<Rightarrow> u32 \<Rightarrow> string \<Rightarrow> ('d, VPPVRFTable) table \<times> world
    \<Rightarrow> ((err + unit) \<times> ('d, VPPVRFTable) table \<times> world) go" where
  "AddVPPInitConfig P M mainInterfaceID gw s = (let vppVRFs = VPP_GetVRFs M (fst s) in
     if length vppVRFs < 2
     then failE (Errorf (''found '' @ itoa (length vppVRFs) @ '' vrf(s) in storage (need at least 2), check yaml config file'')) s
     else
       bindE (on_world (each_vrf ''failed to create vpp vrf id '' (AddDelVRF P True) vppVRFs) s) (\<lambda>_ s.
       bindE (on_world (\<lambda>w. wrapE ''failed to create mpls fib in vrf'' (AddDelMPLSTable P True w)) s) (\<lambda>_ s.
       bindE (on_world (\<lambda>w. wrapE ''failed to setup main interface in vpp'' (SetupMainInterface P (vppVRFs ! 0) w)) s) (\<lambda>_ s.
       bindE (add_subifs P (vrf_ptrs M (fst s)) s) (\<lambda>_ s. let vppVRFs = VPP_GetVRFs M (fst s) in
       bindE (on_world (\<lambda>w. wrapE ''failed to setup udp decap'' (AddUDPDecap P w)) s) (\<lambda>_ s.
       bindE (on_world (each_vrf ''failed to add mpls local label in table '' (AddDelMPLSLocalLabelRoute P True) vppVRFs) s) (\<lambda>_ s.
       bindE (on_world (\<lambda>w. wrapE ''failed to add grt default route''
                (AddDelIPRoute P True (default_route mainInterfaceID gw) w)) s) (\<lambda>_ s.
       on_world (forE (aggr_routes mainInterfaceID vppVRFs) (\<lambda>r w.
         wrapE (''failed to create blackhole floating ip route in vrf '' @ num (rt_VRFID r)) (AddBlackHoleIPRoute P r w))) s))))))))"

section \<open>init_vpp.go\<close>

text \<open>From the connection on.\<close>

definition initVPP :: "govpp \<Rightarrow> 'd memdb \<Rightarrow> Config \<Rightarrow> ('d, VPPVRFTable) table \<times> world
    \<Rightarrow> ((err + unit) \<times> ('d, VPPVRFTable) table \<times> world) go" where
  "initVPP P M cfg s = (let mainInterfaceID = vc_MainInterfaceID (cfg_VPP cfg) in
     bindE (on_world (\<lambda>w. wrapE ''failed to get vpp version'' (GetVPPVersion P w)) s) (\<lambda>_ s.
     bindE (on_world (\<lambda>w. wrapE ''failed to clear vpp config''
              (ClearVPPConfig P mainInterfaceID (VPP_GetVRFs M (fst s)) w)) s) (\<lambda>_ s.
     wrapE ''failed to add vpp static config''
       (AddVPPInitConfig P M mainInterfaceID (vc_TunDefaultGW (cfg_VPP cfg)) s))))"

section \<open>What a successful start has asked\<close>

lemma wrapE_Inr [simp]: "wrapE msg m = Some (Inr a, w) \<longleftrightarrow> m = Some (Inr a, w)"
  by (cases m) (auto simp: wrapE_def split: sum.splits)

lemma on_world_Inr: "on_world m s = Some (Inr a, s') \<longleftrightarrow> fst s' = fst s \<and> m (snd s) = Some (Inr a, snd s')"
  by (cases "m (snd s)"; cases s') (auto simp: on_world_def)

lemma bindE_Inr_iff: "bindE m k = Some (Inr b, w) \<longleftrightarrow> (\<exists>a w'. m = Some (Inr a, w') \<and> k a w' = Some (Inr b, w))"
  by (auto elim: bindE_InrE)

text \<open>The requests acknowledged between two worlds.\<close>

definition acks :: "world \<Rightarrow> world \<Rightarrow> vpp_req list \<Rightarrow> bool" where
  "acks w w' rs \<longleftrightarrow> w_acked w' = w_acked w @ rs"

lemma acks_refl [simp]: "acks w w []"
  by (simp add: acks_def)

lemma acks_trans: "acks w w' rs \<Longrightarrow> acks w' w'' ss \<Longrightarrow> acks w w'' (rs @ ss)"
  by (simp add: acks_def)

lemma acks_roundtrip: "roundtrip P req sel w = Some (Inr a, w') \<Longrightarrow> acks w w' [req]"
  using roundtrip_cases [of P req sel w "Inr a" w'] by (simp add: acks_def)

lemma acks_forE:
  assumes "\<And>x w w'. x \<in> set xs \<Longrightarrow> body x w = Some (Inr (), w') \<Longrightarrow> acks w w' (f x)"
  shows "forE xs body w = Some (Inr (), w') \<Longrightarrow> acks w w' (concat (map f xs))"
  using assms
proof (induction xs arbitrary: w)
  case (Cons x xs)
  then obtain w1 where w1: "body x w = Some (Inr (), w1)" "forE xs body w1 = Some (Inr (), w')"
    by (auto simp: bindE_Inr_iff)
  have "acks w w1 (f x)" by (rule Cons.prems(2) [OF _ w1(1)]) simp
  moreover have "acks w1 w' (concat (map f xs))" by (rule Cons.IH [OF w1(2)]) (rule Cons.prems(2), auto)
  ultimately show ?case by (simp add: acks_trans)
qed (simp add: returnE_def)

text \<open>The values the parsers give; the zero value stands for a refused text.\<close>

definition prefix_of :: "govpp \<Rightarrow> string \<Rightarrow> Prefix" where
  "prefix_of P s = (case ParsePrefix P s of Inl _ \<Rightarrow> zero_prefix | Inr p \<Rightarrow> p)"

definition ip4_of :: "govpp \<Rightarrow> string \<Rightarrow> IP4Address" where
  "ip4_of P s = (case ParseIP4Address P s of Inl _ \<Rightarrow> [] | Inr a \<Rightarrow> a)"

definition iface_prefix :: "govpp \<Rightarrow> VPPVRFTable \<Rightarrow> Prefix" where
  "iface_prefix P v = (case ParseAddressWithPrefix P (addr_with_len v) of Inl _ \<Rightarrow> zero_prefix | Inr p \<Rightarrow> p)"

text \<open>The requests of each operation.\<close>

definition vrf_req :: "VPPVRFTable \<Rightarrow> vpp_req" where
  "vrf_req v = IPTableAddDel True \<lparr>it_TableID = vv_ID v, it_Name = vv_Name v, it_IsIP6 = False\<rparr>"

definition main_reqs :: "govpp \<Rightarrow> VPPVRFTable \<Rightarrow> vpp_req list" where
  "main_reqs P v = [SwInterfaceAddDelAddress (vv_MainInterfaceID v) True False (Some (iface_prefix P v)),
     SwInterfaceSetFlags (vv_MainInterfaceID v) ADMIN_UP, SwInterfaceSetMplsEnable (vv_MainInterfaceID v) True]"

definition subif_reqs :: "govpp \<Rightarrow> VPPVRFTable \<Rightarrow> vpp_req list" where
  "subif_reqs P v = [CreateVlanSubif (vv_MainInterfaceID v) (vv_VLAN v),
     SwInterfaceSetTable (vv_SubInterfaceID v) False (vv_ID v),
     SwInterfaceAddDelAddress (vv_SubInterfaceID v) True False (Some (iface_prefix P v)),
     SwInterfaceSetFlags (vv_SubInterfaceID v) ADMIN_UP]"

definition label_req :: "govpp \<Rightarrow> VPPVRFTable \<Rightarrow> vpp_req" where
  "label_req P v = MplsRouteAddDel True False
     \<lparr>mr_TableID = 0, mr_Label = vv_MPLSLocalLabel v, mr_Eos = 1, mr_IsMulticast = False, mr_NPaths = 1,
      mr_Paths = [\<lparr>fp_SwIfIndex = vv_SubInterfaceID v, fp_TableID = 0, fp_Type = FIB_API_PATH_TYPE_NORMAL,
        fp_Address = AddressUnionIP4 P (ip4_of P (vv_NextHop v)), fp_ObjID = 0, fp_NLabels = 0,
        fp_Label0 = zero_label\<rparr>]\<rparr>"

definition default_req :: "govpp \<Rightarrow> u32 \<Rightarrow> string \<Rightarrow> vpp_req" where
  "default_req P mainInterfaceID gw = IPRouteAddDelV2 True True
     \<lparr>rv_TableID = 0, rv_Prefix = prefix_of P ''0.0.0.0/0'', rv_NPaths = 1, rv_Src = 0,
      rv_Paths = [ip_path P 0 mainInterfaceID (ip4_of P gw)]\<rparr>"

definition blackhole_req :: "govpp \<Rightarrow> u32 \<Rightarrow> string \<Rightarrow> vpp_req" where
  "blackhole_req P vrfID prefix = IPRouteAddDelV2 True False
     \<lparr>rv_TableID = vrfID, rv_Prefix = prefix_of P prefix, rv_NPaths = 1, rv_Src = 9,
      rv_Paths = [\<lparr>fp_SwIfIndex = MaxUint32, fp_TableID = 0, fp_Type = FIB_API_PATH_TYPE_NORMAL,
        fp_Address = replicate 16 0, fp_ObjID = 0, fp_NLabels = 0, fp_Label0 = zero_label\<rparr>]\<rparr>"

text \<open>The whole configuration of the tables \<open>vrfs\<close>, which have their sub-interfaces.\<close>

definition init_script :: "govpp \<Rightarrow> u32 \<Rightarrow> string \<Rightarrow> VPPVRFTable list \<Rightarrow> vpp_req list" where
  "init_script P mainInterfaceID gw vrfs =
     (let others = filter (\<lambda>v. vv_ID v \<noteq> 0) vrfs in
      map vrf_req others @ [MplsTableAddDel True 0 ''default''] @ main_reqs P (hd vrfs) @
      concat (map (subif_reqs P) others) @ [UDPDecapAddDel True 1 6635 ''UDP_API_DECAP_PROTO_MPLS''] @
      map (label_req P) others @ [default_req P mainInterfaceID gw] @
      concat (map (\<lambda>v. map (blackhole_req P (vv_ID v)) (vv_FIPPrefixes v)) vrfs))"

lemma liftE_Inr [simp]: "liftE r w = Some (Inr a, w') \<longleftrightarrow> r = Inr a \<and> w' = w"
  by (auto simp: liftE_def)

lemma AddDelVRF_acks: "AddDelVRF P True v w = Some (Inr (), w') \<Longrightarrow> acks w w' [vrf_req v]"
  unfolding AddDelVRF_def vrf_req_def by (rule acks_roundtrip)

lemma SetupMainInterface_acks:
  assumes "SetupMainInterface P v w = Some (Inr (), w')"
  shows "acks w w' (main_reqs P v)"
proof -
  obtain prefix u1 w1 u2 w2 where "ParseAddressWithPrefix P (addr_with_len v) = Inr prefix"
    and r: "roundtrip P (SwInterfaceAddDelAddress (vv_MainInterfaceID v) True False (Some prefix)) re_IfAddress w = Some (Inr u1, w1)"
    "roundtrip P (SwInterfaceSetFlags (vv_MainInterfaceID v) ADMIN_UP) re_IfFlags w1 = Some (Inr u2, w2)"
    "roundtrip P (SwInterfaceSetMplsEnable (vv_MainInterfaceID v) True) re_IfMpls w2 = Some (Inr (), w')"
    using assms by (auto simp: SetupMainInterface_def bindE_Inr_iff)
  then show ?thesis
    using acks_trans [OF acks_roundtrip [OF r(1)] acks_trans [OF acks_roundtrip [OF r(2)] acks_roundtrip [OF r(3)]]]
    by (simp add: main_reqs_def iface_prefix_def)
qed

lemma AddSubInterface_acks:
  assumes "AddSubInterface P v w = Some (Inr sub, w')"
  shows "acks w w' (subif_reqs P (v\<lparr>vv_SubInterfaceID := sub\<rparr>))"
proof -
  let ?v = "v\<lparr>vv_SubInterfaceID := sub\<rparr>"
  have addr: "addr_with_len ?v = addr_with_len v" by (simp add: addr_with_len_def)
  obtain w1 u2 w2 u3 w3 u4 where
    r: "roundtrip P (CreateVlanSubif (vv_MainInterfaceID v) (vv_VLAN v))
          (\<lambda>m. case m of CreateVlanSubifReply r i \<Rightarrow> Some (r, i) | _ \<Rightarrow> None) w = Some (Inr sub, w1)"
    "roundtrip P (SwInterfaceSetTable sub False (vv_ID v)) re_SetTable w1 = Some (Inr u2, w2)"
    "roundtrip P (SwInterfaceAddDelAddress sub True False (Some (iface_prefix P v))) re_IfAddress w2 = Some (Inr u3, w3)"
    "roundtrip P (SwInterfaceSetFlags sub ADMIN_UP) re_IfFlags w3 = Some (Inr u4, w')"
    using assms by (auto simp: AddSubInterface_def bindE_Inr_iff returnE_def iface_prefix_def Let_def)
  show ?thesis
    using acks_trans [OF acks_roundtrip [OF r(1)] acks_trans [OF acks_roundtrip [OF r(2)]
        acks_trans [OF acks_roundtrip [OF r(3)] acks_roundtrip [OF r(4)]]]]
    by (simp add: subif_reqs_def iface_prefix_def addr)
qed

lemma AddDelMPLSLocalLabelRoute_acks:
  "AddDelMPLSLocalLabelRoute P True v w = Some (Inr (), w') \<Longrightarrow> acks w w' [label_req P v]"
  by (auto simp: AddDelMPLSLocalLabelRoute_def bindE_Inr_iff label_req_def ip4_of_def dest: acks_roundtrip)

lemma default_route_acks:
  "AddDelIPRoute P True (default_route ifID gw) w = Some (Inr (), w') \<Longrightarrow> acks w w' [default_req P ifID gw]"
  by (auto simp: AddDelIPRoute_def default_route_def bindE_Inr_iff default_req_def ip4_of_def prefix_of_def
      split: sum.splits dest: acks_roundtrip)

lemma AddBlackHoleIPRoute_acks:
  "AddBlackHoleIPRoute P r w = Some (Inr (), w') \<Longrightarrow> acks w w' [blackhole_req P (rt_VRFID r) (rt_Prefix r)]"
  by (auto simp: AddBlackHoleIPRoute_def bindE_Inr_iff blackhole_req_def prefix_of_def dest: acks_roundtrip)

section \<open>The sub-interfaces\<close>

text \<open>
  What may change of a table: its sub-interface, unless it is the default table.
\<close>

definition resub :: "VPPVRFTable \<Rightarrow> VPPVRFTable \<Rightarrow> bool" where
  "resub v v' \<longleftrightarrow> v' = v\<lparr>vv_SubInterfaceID := vv_SubInterfaceID v'\<rparr> \<and> (vv_ID v = 0 \<longrightarrow> v' = v)"

lemma resub_refl [simp]: "resub v v"
  by (simp add: resub_def)

lemma resub_fields:
  assumes "resub v v'"
  shows "vv_ID v' = vv_ID v" "vv_Name v' = vv_Name v" "vv_FIPServed v' = vv_FIPServed v"
    "vvrf_keys v' = vvrf_keys v" "vrf_req v' = vrf_req v" "main_reqs P v' = main_reqs P v"
proof -
  obtain i where v': "v' = v\<lparr>vv_SubInterfaceID := i\<rparr>" using assms by (auto simp: resub_def)
  show "vv_ID v' = vv_ID v" "vv_Name v' = vv_Name v" "vv_FIPServed v' = vv_FIPServed v" "vvrf_keys v' = vvrf_keys v"
    "vrf_req v' = vrf_req v" "main_reqs P v' = main_reqs P v"
    by (simp_all add: v' vvrf_keys_def vrf_req_def main_reqs_def iface_prefix_def addr_with_len_def)
qed

lemma add_subifs_objects:
  "add_subifs P as s = Some (Inr (), s') \<Longrightarrow> a \<in> set as \<Longrightarrow> tb_heap (fst s) a \<noteq> None"
proof (induction as arbitrary: s)
  case (Cons b as)
  obtain v where v: "tb_heap (fst s) b = Some v" using Cons.prems(1) by (auto split: option.splits)
  show ?case
  proof (cases "a = b")
    case False
    then have a: "a \<in> set as" using Cons.prems(2) by simp
    show ?thesis
    proof (cases "vv_ID v = 0")
      case True
      then show ?thesis using Cons.IH [OF _ a, of s] Cons.prems(1) v by simp
    next
      case False
      then obtain sub s1 where "add_subifs P as (tbl_poke b (\<lambda>v. v\<lparr>vv_SubInterfaceID := sub\<rparr>) (fst s1), snd s1) = Some (Inr (), s')"
        "fst s1 = fst s"
        using Cons.prems(1) v by (auto simp: bindE_Inr_iff on_world_Inr)
      then show ?thesis using Cons.IH [OF _ a] \<open>a \<noteq> b\<close> by (fastforce simp: tbl_poke_def)
    qed
  qed (use v in simp)
qed simp

lemma add_subifs_ok:
  "add_subifs P as (t, w) = Some (Inr (), (t', w')) \<Longrightarrow> distinct as \<Longrightarrow>
   tb_db t' = tb_db t \<and> tb_next t' = tb_next t \<and> (\<forall>a. a \<notin> set as \<longrightarrow> tb_heap t' a = tb_heap t a) \<and>
   (\<forall>a \<in> set as. \<exists>v v'. tb_heap t a = Some v \<and> tb_heap t' a = Some v' \<and> resub v v') \<and>
   acks w w' (concat (map (subif_reqs P) (filter (\<lambda>v. vv_ID v \<noteq> 0) (map (\<lambda>a. the (tb_heap t' a)) as))))"
proof (induction as arbitrary: t w)
  case (Cons a as)
  obtain v where v: "tb_heap t a = Some v" using Cons.prems(1) by (auto split: option.splits)
  show ?case
  proof (cases "vv_ID v = 0")
    case True
    then have "add_subifs P as (t, w) = Some (Inr (), (t', w'))" using Cons.prems(1) v by simp
    from Cons.IH [OF this] show ?thesis using Cons.prems(2) v True by auto
  next
    case False
    let ?poke = "\<lambda>sub. tbl_poke a (\<lambda>v. v\<lparr>vv_SubInterfaceID := sub\<rparr>) t"
    obtain sub w1 where add: "AddSubInterface P v w = Some (Inr sub, w1)"
      and rest: "add_subifs P as (?poke sub, w1) = Some (Inr (), (t', w'))"
      using Cons.prems(1) v False by (auto simp: bindE_Inr_iff on_world_Inr)
    have poke: "tb_db (?poke sub) = tb_db t" "tb_next (?poke sub) = tb_next t"
      "tb_heap (?poke sub) a = Some (v\<lparr>vv_SubInterfaceID := sub\<rparr>)" "\<And>b. b \<noteq> a \<Longrightarrow> tb_heap (?poke sub) b = tb_heap t b"
      using v by (simp_all add: tbl_poke_def)
    note ih = Cons.IH [OF rest]
    have a': "tb_heap t' a = Some (v\<lparr>vv_SubInterfaceID := sub\<rparr>)" using ih Cons.prems(2) poke(3) by simp
    have re: "resub v (v\<lparr>vv_SubInterfaceID := sub\<rparr>)" using False by (simp add: resub_def)
    have others: "\<exists>v v'. tb_heap t b = Some v \<and> tb_heap t' b = Some v' \<and> resub v v'" if "b \<in> set as" for b
    proof -
      have "b \<noteq> a" using that Cons.prems(2) by auto
      then show ?thesis using ih Cons.prems(2) that poke(4) by fastforce
    qed
    have "acks w w' (subif_reqs P (v\<lparr>vv_SubInterfaceID := sub\<rparr>) @
        concat (map (subif_reqs P) (filter (\<lambda>v. vv_ID v \<noteq> 0) (map (\<lambda>a. the (tb_heap t' a)) as))))"
      using acks_trans [OF AddSubInterface_acks [OF add]] ih Cons.prems(2) by simp
    then show ?thesis using ih Cons.prems(2) poke a' re v others False by auto
  qed
qed (simp add: returnE_def)

text \<open>Any change of the heap of this kind keeps the tables well-formed.\<close>

lemma resub_heap:
  assumes M: "memdb_models M C" and wf: "tbl_wf C vvrf_keys t"
    and same: "tb_db t' = tb_db t" "tb_next t' = tb_next t"
    and heap: "\<And>a. tb_heap t' a = tb_heap t a \<or> (\<exists>v v'. tb_heap t a = Some v \<and> tb_heap t' a = Some v' \<and> resub v v')"
  shows "tbl_wf C vvrf_keys t'"
    and "rel_option resub (vvrf_view M t i) (vvrf_view M t' i)"
proof -
  have row: "\<exists>x. tb_heap t' a = Some x \<and> vvrf_keys x = ks" if "\<exists>x. tb_heap t a = Some x \<and> vvrf_keys x = ks" for a ks
    using that heap [of a] resub_fields(4) by fastforce
  then show "tbl_wf C vvrf_keys t'" using wf same unfolding tbl_wf_def by metis
  have "rel_option resub (tb_heap t a) (tb_heap t' a)" for a
    using heap [of a] by (cases "tb_heap t a") auto
  then show "rel_option resub (vvrf_view M t i) (vvrf_view M t' i)"
    by (cases "C (tb_db t) (KUint i)") (simp_all add: vvrf_view_def tbl_view_def tbl_get_eq [OF M] same)
qed

lemma filter_resub:
  "list_all2 resub vs vs' \<Longrightarrow> map vrf_req (filter (\<lambda>v. vv_ID v \<noteq> 0) vs') = map vrf_req (filter (\<lambda>v. vv_ID v \<noteq> 0) vs)"
  by (induction rule: list_all2_induct) (auto simp: resub_fields)

lemma each_vrf_acks:
  assumes "\<And>v w w'. f v w = Some (Inr (), w') \<Longrightarrow> acks w w' [req v]" "each_vrf msg f vrfs w = Some (Inr (), w')"
  shows "acks w w' (map req (filter (\<lambda>v. vv_ID v \<noteq> 0) vrfs))"
proof -
  have "acks w w' (concat (map (\<lambda>v. if vv_ID v = 0 then [] else [req v]) vrfs))"
    by (rule acks_forE [OF _ assms(2) [unfolded each_vrf_def]]) (auto simp: returnE_def assms(1) split: if_splits)
  moreover have "concat (map (\<lambda>v. if vv_ID v = 0 then [] else [req v]) vrfs) = map req (filter (\<lambda>v. vv_ID v \<noteq> 0) vrfs)"
    by (induction vrfs) auto
  ultimately show ?thesis by simp
qed

lemma aggr_acks:
  assumes "forE (aggr_routes ifID vrfs) (\<lambda>r w. wrapE (msg r) (AddBlackHoleIPRoute P r w)) w = Some (Inr (), w')"
  shows "acks w w' (concat (map (\<lambda>v. map (blackhole_req P (vv_ID v)) (vv_FIPPrefixes v)) vrfs))"
proof -
  have "acks w w' (concat (map (\<lambda>r. [blackhole_req P (rt_VRFID r) (rt_Prefix r)]) (aggr_routes ifID vrfs)))"
    by (rule acks_forE [OF _ assms]) (simp add: AddBlackHoleIPRoute_acks)
  moreover have "concat (map (\<lambda>r. [blackhole_req P (rt_VRFID r) (rt_Prefix r)]) (aggr_routes ifID vrfs)) =
      concat (map (\<lambda>v. map (blackhole_req P (vv_ID v)) (vv_FIPPrefixes v)) vrfs)"
    by (induction vrfs) (simp_all add: aggr_routes_def NewVPPIPRoute_def comp_def concat_map_singleton)
  ultimately show ?thesis by simp
qed

text \<open>The steps of a successful \<^verbatim>\<open>AddVPPInitConfig\<close>.\<close>

lemma AddVPPInitConfig_steps:
  assumes "AddVPPInitConfig P M ifID gw (t, w) = Some (Inr (), (t', w'))"
  obtains w1 w2 w3 w4 w5 w6 w7 where "2 \<le> length (VPP_GetVRFs M t)"
    "each_vrf ''failed to create vpp vrf id '' (AddDelVRF P True) (VPP_GetVRFs M t) w = Some (Inr (), w1)"
    "AddDelMPLSTable P True w1 = Some (Inr (), w2)" "SetupMainInterface P (VPP_GetVRFs M t ! 0) w2 = Some (Inr (), w3)"
    "add_subifs P (vrf_ptrs M t) (t, w3) = Some (Inr (), (t', w4))" "AddUDPDecap P w4 = Some (Inr (), w5)"
    "each_vrf ''failed to add mpls local label in table '' (AddDelMPLSLocalLabelRoute P True) (VPP_GetVRFs M t') w5 = Some (Inr (), w6)"
    "AddDelIPRoute P True (default_route ifID gw) w6 = Some (Inr (), w7)"
    "acks w7 w' (concat (map (\<lambda>v. map (blackhole_req P (vv_ID v)) (vv_FIPPrefixes v)) (VPP_GetVRFs M t')))"
proof -
  obtain s1 s2 s3 s4 s5 s6 s7 where len: "2 \<le> length (VPP_GetVRFs M t)"
    and r: "on_world (each_vrf ''failed to create vpp vrf id '' (AddDelVRF P True) (VPP_GetVRFs M t)) (t, w) = Some (Inr (), s1)"
      "on_world (\<lambda>w. wrapE ''failed to create mpls fib in vrf'' (AddDelMPLSTable P True w)) s1 = Some (Inr (), s2)"
      "on_world (\<lambda>w. wrapE ''failed to setup main interface in vpp'' (SetupMainInterface P (VPP_GetVRFs M t ! 0) w)) s2 = Some (Inr (), s3)"
      "add_subifs P (vrf_ptrs M (fst s3)) s3 = Some (Inr (), s4)"
      "on_world (\<lambda>w. wrapE ''failed to setup udp decap'' (AddUDPDecap P w)) s4 = Some (Inr (), s5)"
      "on_world (each_vrf ''failed to add mpls local label in table '' (AddDelMPLSLocalLabelRoute P True) (VPP_GetVRFs M (fst s4))) s5 = Some (Inr (), s6)"
      "on_world (\<lambda>w. wrapE ''failed to add grt default route'' (AddDelIPRoute P True (default_route ifID gw) w)) s6 = Some (Inr (), s7)"
      "on_world (forE (aggr_routes ifID (VPP_GetVRFs M (fst s4))) (\<lambda>r w.
         wrapE (''failed to create blackhole floating ip route in vrf '' @ num (rt_VRFID r)) (AddBlackHoleIPRoute P r w))) s7 = Some (Inr (), (t', w'))"
    using assms by (auto simp: AddVPPInitConfig_def Let_def bindE_Inr_iff failE_def split: if_splits)
  have t: "fst s1 = t" "fst s2 = t" "fst s3 = t" "fst s5 = fst s4" "fst s6 = fst s4" "fst s7 = fst s4" "t' = fst s4"
    using r by (simp_all add: on_world_Inr)
  have s3: "s3 = (t, snd s3)" "s4 = (t', snd s4)" using t by (simp_all add: prod_eq_iff)
  show thesis
  proof (rule that [OF len, of "snd s1" "snd s2" "snd s3" "snd s4" "snd s5" "snd s6" "snd s7"])
    show "add_subifs P (vrf_ptrs M t) (t, snd s3) = Some (Inr (), (t', snd s4))" using r(4) t s3 by metis
    show "acks (snd s7) w' (concat (map (\<lambda>v. map (blackhole_req P (vv_ID v)) (vv_FIPPrefixes v)) (VPP_GetVRFs M t')))"
      by (rule aggr_acks [of ifID _ "\<lambda>r. ''failed to create blackhole floating ip route in vrf '' @ num (rt_VRFID r)"])
        (use r(8) t in \<open>simp add: on_world_Inr\<close>)
  qed (use r t in \<open>simp_all add: on_world_Inr\<close>)
qed

text \<open>The storage after a successful start.\<close>

lemma vrf_ptrs_all: "VPP_GetVRFs M t = List.map_filter (tb_heap t) (vrf_ptrs M t)"
  by (simp add: VPP_GetVRFs_def tbl_all_def vrf_ptrs_def List.map_filter_simps split: sum.splits)

lemma map_filter_Some: "\<forall>a \<in> set as. h a \<noteq> None \<Longrightarrow> List.map_filter h as = map (\<lambda>a. the (h a)) as"
  by (induction as) (auto simp: List.map_filter_simps)

lemma AddVPPInitConfig_tables:
  assumes M: "memdb_models M C" and wf: "tbl_wf C vvrf_keys t" and names: "inj_on vv_Name (ran (vvrf_view M t))"
    and run: "add_subifs P (vrf_ptrs M t) (t, w) = Some (Inr (), (t', w'))"
  shows "list_all2 resub (VPP_GetVRFs M t) (VPP_GetVRFs M t')"
    and "acks w w' (concat (map (subif_reqs P) (filter (\<lambda>v. vv_ID v \<noteq> 0) (VPP_GetVRFs M t'))))"
    and "tbl_wf C vvrf_keys t'" and "rel_option resub (vvrf_view M t i) (vvrf_view M t' i)"
proof -
  let ?as = "vrf_ptrs M t"
  have objs: "\<forall>a \<in> set ?as. tb_heap t a \<noteq> None" using add_subifs_objects [OF run] by simp
  note all = vrf_ptrs_all [of M t, unfolded map_filter_Some [OF objs]]
  have "distinct (VPP_GetVRFs M t)"
    using sorted_distinct [OF VPP_GetVRFs_ok(2) [OF M wf names], of "\<lambda>v. v"] by simp
  then have dist: "distinct ?as" unfolding all by (simp add: distinct_map)
  note ok = add_subifs_ok [OF run dist]
  have ptrs: "vrf_ptrs M t' = ?as" using ok by (simp add: vrf_ptrs_def)
  have objs': "\<forall>a \<in> set ?as. tb_heap t' a \<noteq> None" using ok by fastforce
  note all' = vrf_ptrs_all [of M t', unfolded ptrs map_filter_Some [OF objs']]
  show "list_all2 resub (VPP_GetVRFs M t) (VPP_GetVRFs M t')"
    unfolding all all' list_all2_map1 list_all2_map2
  proof (rule list.rel_refl_strong)
    show "resub (the (tb_heap t a)) (the (tb_heap t' a))" if "a \<in> set ?as" for a using ok that by fastforce
  qed
  show "acks w w' (concat (map (subif_reqs P) (filter (\<lambda>v. vv_ID v \<noteq> 0) (VPP_GetVRFs M t'))))"
    using ok unfolding all' by simp
  have heap: "tb_heap t' a = tb_heap t a \<or> (\<exists>v v'. tb_heap t a = Some v \<and> tb_heap t' a = Some v' \<and> resub v v')" for a
    using ok by blast
  have same: "tb_db t' = tb_db t" "tb_next t' = tb_next t" using ok by auto
  show "tbl_wf C vvrf_keys t'" and "rel_option resub (vvrf_view M t i) (vvrf_view M t' i)"
    by (rule resub_heap [OF M wf same heap])+
qed

lemma fip_inv_resub:
  assumes inv: "fip_inv F T V" and V: "\<And>i. rel_option resub (V i) (V' i)"
  shows "fip_inv F T V'"
proof -
  have "unat (vv_FIPServed v) = card (in_vrf F i)" if "V' i = Some v" for i v
    using V [of i] that inv resub_fields(3) by (cases "V i") (auto simp: fip_inv_def)
  then show ?thesis using inv by (simp add: fip_inv_def)
qed

section \<open>Properties\<close>

text \<open>
  C7: the configuration a start leaves in VPP. When \<^verbatim>\<open>AddVPPInitConfig\<close> succeeds, VPP has acknowledged,
  in this order and nothing else: a table for each VRF but the default one, the MPLS table, the
  address, state and MPLS flag of the main interface, a sub-interface for each VRF bound to its table
  with its address, the decapsulation port, the label route of each VRF through its sub-interface,
  the default route, and a black hole for every floating IP prefix. The stored tables keep all their
  fields but the sub-interfaces, which are those VPP created. The main interface takes the settings
  of the first table in the order of the names, which is the default table only as long as no VRF
  has a smaller name.
\<close>

theorem AddVPPInitConfig_effect:
  assumes M: "memdb_models M C" and wf: "tbl_wf C vvrf_keys t" and names: "inj_on vv_Name (ran (vvrf_view M t))"
    and run: "AddVPPInitConfig P M ifID gw (t, w) = Some (Inr (), (t', w'))"
  shows "w_acked w' = w_acked w @ init_script P ifID gw (VPP_GetVRFs M t') \<and>
    list_all2 (\<lambda>v v'. v' = v\<lparr>vv_SubInterfaceID := vv_SubInterfaceID v'\<rparr> \<and> (vv_ID v = 0 \<longrightarrow> v' = v))
      (VPP_GetVRFs M t) (VPP_GetVRFs M t') \<and>
    set (VPP_GetVRFs M t) = ran (vvrf_view M t) \<and> sorted_wrt (<) (map vv_Name (VPP_GetVRFs M t'))"
proof -
  obtain w1 w2 w3 w4 w5 w6 w7 where len: "2 \<le> length (VPP_GetVRFs M t)"
    and s: "each_vrf ''failed to create vpp vrf id '' (AddDelVRF P True) (VPP_GetVRFs M t) w = Some (Inr (), w1)"
    "AddDelMPLSTable P True w1 = Some (Inr (), w2)" "SetupMainInterface P (VPP_GetVRFs M t ! 0) w2 = Some (Inr (), w3)"
    "add_subifs P (vrf_ptrs M t) (t, w3) = Some (Inr (), (t', w4))" "AddUDPDecap P w4 = Some (Inr (), w5)"
    "each_vrf ''failed to add mpls local label in table '' (AddDelMPLSLocalLabelRoute P True) (VPP_GetVRFs M t') w5 = Some (Inr (), w6)"
    "AddDelIPRoute P True (default_route ifID gw) w6 = Some (Inr (), w7)"
    and aggr: "acks w7 w' (concat (map (\<lambda>v. map (blackhole_req P (vv_ID v)) (vv_FIPPrefixes v)) (VPP_GetVRFs M t')))"
    by (rule AddVPPInitConfig_steps [OF run])
  note tabs = AddVPPInitConfig_tables [OF M wf names s(4)]
  have a1: "acks w w1 (map vrf_req (filter (\<lambda>v. vv_ID v \<noteq> 0) (VPP_GetVRFs M t)))"
    by (rule each_vrf_acks [OF AddDelVRF_acks s(1)])
  have a2: "acks w1 w2 [MplsTableAddDel True 0 ''default'']" and a5: "acks w4 w5 [UDPDecapAddDel True 1 6635 ''UDP_API_DECAP_PROTO_MPLS'']"
    using s(2,5) by (auto simp: AddDelMPLSTable_def AddUDPDecap_def dest: acks_roundtrip)
  have hd: "main_reqs P (VPP_GetVRFs M t ! 0) = main_reqs P (hd (VPP_GetVRFs M t'))"
    using tabs(1) len resub_fields(6) by (cases "VPP_GetVRFs M t"; cases "VPP_GetVRFs M t'") auto
  have a6: "acks w5 w6 (map (label_req P) (filter (\<lambda>v. vv_ID v \<noteq> 0) (VPP_GetVRFs M t')))"
    by (rule each_vrf_acks [OF AddDelMPLSLocalLabelRoute_acks s(6)])
  have acked: "w_acked w' = w_acked w @ init_script P ifID gw (VPP_GetVRFs M t')"
    using a1 a2 SetupMainInterface_acks [OF s(3)] tabs(2) a5 a6 default_route_acks [OF s(7)] aggr hd
    by (simp add: acks_def init_script_def Let_def filter_resub [OF tabs(1)])
  have "map vv_Name (VPP_GetVRFs M t') = map vv_Name (VPP_GetVRFs M t)"
    using tabs(1) by (induction rule: list_all2_induct) (simp_all add: resub_fields)
  moreover have "sorted_wrt (<) (map vv_Name (VPP_GetVRFs M t))"
    using VPP_GetVRFs_ok(2) [OF M wf names] by (simp add: sorted_wrt_map less_key_def less_le_not_le)
  moreover have "resub = (\<lambda>v v'. v' = v\<lparr>vv_SubInterfaceID := vv_SubInterfaceID v'\<rparr> \<and> (vv_ID v = 0 \<longrightarrow> v' = v))"
    by (intro ext) (rule resub_def)
  ultimately show ?thesis
    using acked tabs(1) VPP_GetVRFs_ok(1) [OF M wf names] by metis
qed

definition start_replies :: "(err + vpp_msg) list" where
  "start_replies = map Inr [IPTableAddDelReply 0, MplsTableAddDelReply 0, SwInterfaceAddDelAddressReply 0,
     SwInterfaceSetFlagsReply 0, SwInterfaceSetMplsEnableReply 0, CreateVlanSubifReply 0 7, SwInterfaceSetTableReply 0,
     SwInterfaceAddDelAddressReply 0, SwInterfaceSetFlagsReply 0, UDPDecapAddDelReply 0, MplsRouteAddDelReply 0,
     IPRouteAddDelV2Reply 0, IPRouteAddDelV2Reply 0, IPRouteAddDelV2Reply 0]"

text \<open>A start that finds nothing to clear.\<close>

definition clear_replies :: "(err + vpp_msg) list" where
  "clear_replies = map Inr [ShowVersionReply 0 ''24.06'', ControlPingReply, ControlPingReply, ControlPingReply,
     ControlPingReply, ControlPingReply, ControlPingReply, ControlPingReply, SwInterfaceAddDelAddressReply 0,
     SwInterfaceSetFlagsReply 0, IPTableAddDelReply 0]"

lemma full_storage_names: "inj_on vv_Name (ran (vvrf_view alist_memdb (st_vvrfs full_storage)))"
  unfolding initStorages_ok(6) [OF alist_memdb_models full_storage_init]
  by (auto simp: full_cfg_def sample_vrf_cfg_def ran_def inj_on_def global_table_def NewVPPVRFTable_def vpp_vrf_of_def
      split: if_splits)

text \<open>The tables of that storage, and the steps of a run on them.\<close>

definition blue_table :: VPPVRFTable where
  "blue_table = vpp_vrf_of full_cfg 1002022 sample_vrf_cfg"

lemma full_storage_tables:
  "vrf_ptrs alist_memdb (st_vvrfs full_storage) = [1, 0]" "VPP_GetVRFs alist_memdb (st_vvrfs full_storage) = [blue_table, global_table full_cfg]"
  "tb_heap (st_vvrfs full_storage) 1 = Some blue_table" "tb_heap (st_vvrfs full_storage) 0 = Some (global_table full_cfg)"
  by code_simp+

text \<open>A request that is sent and answered with success by the sample library.\<close>

definition answered :: "vpp_req \<Rightarrow> world \<Rightarrow> world" where
  "answered req w = w\<lparr>w_replies := tl (w_replies w), w_sent := w_sent w @ [req], w_acked := w_acked w @ [req]\<rparr>"

lemma answered_simps [simp]:
  "w_sends (answered req w) = w_sends w" "w_replies (answered req w) = tl (w_replies w)"
  "w_bgps (answered req w) = w_bgps w"
  by (simp_all add: answered_def)

lemma roundtrip_answered:
  "w_sends w = [] \<Longrightarrow> w_replies w = Inr m # rs \<Longrightarrow> sel m = Some (0, a) \<Longrightarrow>
   roundtrip sample_govpp req sel w = Some (Inr a, answered req w)"
  by (simp add: roundtrip_ok answered_def sample_govpp_def)

lemma wrapE_ok [simp]: "wrapE msg (Some (Inr a, w)) = Some (Inr a, w)"
  by (simp add: wrapE_def)

lemma on_world_ok: "m w = Some (Inr a, w') \<Longrightarrow> on_world m (t, w) = Some (Inr a, (t, w'))"
  by (simp add: on_world_def)

lemma start_parse:
  "s \<noteq> '''' \<Longrightarrow> \<exists>p. ParsePrefix sample_govpp s = Inr p" "s \<noteq> '''' \<Longrightarrow> \<exists>p. ParseIP4Address sample_govpp s = Inr p"
  "s \<noteq> '''' \<Longrightarrow> \<exists>p. ParseAddressWithPrefix sample_govpp s = Inr p"
  by (simp_all add: sample_govpp_def sample_bytes_def)

lemma addr_with_len_nonempty [simp]: "addr_with_len v \<noteq> ''''"
  by (simp add: addr_with_len_def)

lemma sample_ops:
  assumes "w_sends w = []"
  shows "w_replies w = Inr (IPTableAddDelReply 0) # rs \<Longrightarrow> \<exists>w'. AddDelVRF sample_govpp b v w = Some (Inr (), w') \<and>
      w_sends w' = [] \<and> w_replies w' = rs \<and> w_bgps w' = w_bgps w"
    and "w_replies w = Inr (MplsTableAddDelReply 0) # rs \<Longrightarrow> \<exists>w'. AddDelMPLSTable sample_govpp b w = Some (Inr (), w') \<and>
      w_sends w' = [] \<and> w_replies w' = rs \<and> w_bgps w' = w_bgps w"
    and "w_replies w = map Inr [SwInterfaceAddDelAddressReply 0, SwInterfaceSetFlagsReply 0, SwInterfaceSetMplsEnableReply 0] @ rs
      \<Longrightarrow> \<exists>w'. SetupMainInterface sample_govpp v w = Some (Inr (), w') \<and> w_sends w' = [] \<and> w_replies w' = rs \<and> w_bgps w' = w_bgps w"
    and "w_replies w = map Inr [CreateVlanSubifReply 0 i, SwInterfaceSetTableReply 0, SwInterfaceAddDelAddressReply 0,
        SwInterfaceSetFlagsReply 0] @ rs
      \<Longrightarrow> \<exists>w'. AddSubInterface sample_govpp v w = Some (Inr i, w') \<and> w_sends w' = [] \<and> w_replies w' = rs \<and> w_bgps w' = w_bgps w"
    and "w_replies w = Inr (UDPDecapAddDelReply 0) # rs \<Longrightarrow> \<exists>w'. AddUDPDecap sample_govpp w = Some (Inr (), w') \<and>
      w_sends w' = [] \<and> w_replies w' = rs \<and> w_bgps w' = w_bgps w"
    and "w_replies w = Inr (MplsRouteAddDelReply 0) # rs \<Longrightarrow> vv_NextHop v \<noteq> '''' \<Longrightarrow>
      \<exists>w'. AddDelMPLSLocalLabelRoute sample_govpp b v w = Some (Inr (), w') \<and> w_sends w' = [] \<and> w_replies w' = rs \<and> w_bgps w' = w_bgps w"
    and "w_replies w = Inr (IPRouteAddDelV2Reply 0) # rs \<Longrightarrow> gw \<noteq> '''' \<Longrightarrow>
      \<exists>w'. AddDelIPRoute sample_govpp b (default_route j gw) w = Some (Inr (), w') \<and> w_sends w' = [] \<and> w_replies w' = rs \<and> w_bgps w' = w_bgps w"
    and "w_replies w = Inr (IPRouteAddDelV2Reply 0) # rs \<Longrightarrow> rt_Prefix r \<noteq> '''' \<Longrightarrow>
      \<exists>w'. AddBlackHoleIPRoute sample_govpp r w = Some (Inr (), w') \<and> w_sends w' = [] \<and> w_replies w' = rs \<and> w_bgps w' = w_bgps w"
  using assms start_parse(1) [of "rt_Prefix r"] start_parse(2) [of "vv_NextHop v"] start_parse(2) [of gw]
    start_parse(1) [of "''0.0.0.0/0''"] start_parse(3) [of "addr_with_len v"]
  by (auto simp: roundtrip_answered AddDelVRF_def AddDelMPLSTable_def SetupMainInterface_def AddSubInterface_def
      AddUDPDecap_def AddDelMPLSLocalLabelRoute_def AddDelIPRoute_def AddBlackHoleIPRoute_def default_route_def
      liftE_def returnE_def Let_def re_MplsTable_def re_IfAddress_def re_IfFlags_def re_IfMpls_def re_IPTable_def
      re_SetTable_def re_UDPDecap_def re_IPRoute_def re_MplsRoute_def)

text \<open>A successful start on the sample storage, from any world with these replies, and its tables.\<close>

definition started_vvrfs :: "((key \<times> keys \<times> addr) list, VPPVRFTable) table" where
  "started_vvrfs = tbl_poke 1 (\<lambda>v. v\<lparr>vv_SubInterfaceID := 7\<rparr>) (st_vvrfs full_storage)"

lemma sample_start:
  assumes w: "w_sends w = []" "w_replies w = start_replies" and gw: "gw \<noteq> ''''"
  shows "\<exists>w'. AddVPPInitConfig sample_govpp alist_memdb i gw (st_vvrfs full_storage, w) = Some (Inr (), (started_vvrfs, w')) \<and>
    w_bgps w' = w_bgps w"
proof -
  let ?t = "st_vvrfs full_storage"
  let ?t' = "tbl_poke 1 (\<lambda>v. v\<lparr>vv_SubInterfaceID := 7\<rparr>) ?t"
  have ids: "vv_ID blue_table \<noteq> 0" "vv_ID (global_table full_cfg) = 0" "vv_NextHop blue_table \<noteq> ''''"
    "vv_FIPPrefixes blue_table = [''203.0.113.0/24'']" "vv_FIPPrefixes (global_table full_cfg) = []"
    by code_simp+
  have vrfs': "VPP_GetVRFs alist_memdb ?t' = [blue_table\<lparr>vv_SubInterfaceID := 7\<rparr>, global_table full_cfg]"
  proof -
    have "vrf_ptrs alist_memdb ?t' = [1, 0]" using full_storage_tables(1) by (simp add: vrf_ptrs_def tbl_poke_def)
    then show ?thesis using full_storage_tables by (simp add: vrf_ptrs_all tbl_poke_def List.map_filter_simps)
  qed
  obtain w1 where w1: "AddDelVRF sample_govpp True blue_table w = Some (Inr (), w1)" "w_sends w1 = []" "w_replies w1 = drop 1 start_replies" "w_bgps w1 = w_bgps w"
    using sample_ops(1) [OF w(1), of "drop 1 start_replies" True blue_table] w(2) by (auto simp: start_replies_def)
  obtain w2 where w2: "AddDelMPLSTable sample_govpp True w1 = Some (Inr (), w2)" "w_sends w2 = []" "w_replies w2 = drop 2 start_replies" "w_bgps w2 = w_bgps w"
    using sample_ops(2) [OF w1(2), of "drop 2 start_replies" True] w1(3,4) by (auto simp: start_replies_def)
  obtain w3 where w3: "SetupMainInterface sample_govpp blue_table w2 = Some (Inr (), w3)" "w_sends w3 = []" "w_replies w3 = drop 5 start_replies" "w_bgps w3 = w_bgps w"
    using sample_ops(3) [OF w2(2), of "drop 5 start_replies" blue_table] w2(3,4) by (auto simp: start_replies_def)
  obtain w4 where w4: "AddSubInterface sample_govpp blue_table w3 = Some (Inr 7, w4)" "w_sends w4 = []" "w_replies w4 = drop 9 start_replies" "w_bgps w4 = w_bgps w"
    using sample_ops(4) [OF w3(2), of 7 "drop 9 start_replies" blue_table] w3(3,4) by (auto simp: start_replies_def)
  obtain w5 where w5: "AddUDPDecap sample_govpp w4 = Some (Inr (), w5)" "w_sends w5 = []" "w_replies w5 = drop 10 start_replies" "w_bgps w5 = w_bgps w"
    using sample_ops(5) [OF w4(2), of "drop 10 start_replies"] w4(3,4) by (auto simp: start_replies_def)
  let ?blue = "blue_table\<lparr>vv_SubInterfaceID := 7\<rparr>"
  obtain w6 where w6: "AddDelMPLSLocalLabelRoute sample_govpp True ?blue w5 = Some (Inr (), w6)" "w_sends w6 = []"
    "w_replies w6 = drop 11 start_replies" "w_bgps w6 = w_bgps w"
    using sample_ops(6) [OF w5(2), of "drop 11 start_replies" ?blue True] w5(3,4) ids by (auto simp: start_replies_def)
  obtain w7 where w7: "AddDelIPRoute sample_govpp True (default_route i gw) w6 = Some (Inr (), w7)" "w_sends w7 = []"
    "w_replies w7 = drop 12 start_replies" "w_bgps w7 = w_bgps w"
    using sample_ops(7) [OF w6(2), of "drop 12 start_replies" gw True i] w6(3,4) gw by (auto simp: start_replies_def)
  let ?r = "NewVPPIPRoute (vv_ID blue_table) i UndefinedSubIf ''203.0.113.0/24'' [''''] [UndefinedTunnelID] [UndefinedLabel]"
  obtain w8 where w8: "AddBlackHoleIPRoute sample_govpp ?r w7 = Some (Inr (), w8)" "w_bgps w8 = w_bgps w"
    using sample_ops(8) [OF w7(2), of "drop 13 start_replies" ?r] w7(3,4) by (auto simp: start_replies_def NewVPPIPRoute_def)
  have vrfs: "each_vrf msg f [v, global_table full_cfg] w = Some (Inr (), w')"
    if "f v w = Some (Inr (), w')" "vv_ID v \<noteq> 0" for f v w w' msg
    using that ids(2) by (simp add: each_vrf_def returnE_def)
  have aggr: "aggr_routes i [?blue, global_table full_cfg] = [?r]" using ids(4,5) by (simp add: aggr_routes_def)
  have subifs: "add_subifs sample_govpp (vrf_ptrs alist_memdb ?t) (?t, w3) = Some (Inr (), (?t', w4))"
    using full_storage_tables ids(1,2) w4(1)
    by (simp add: on_world_ok tbl_poke_def returnE_def del: One_nat_def)
  have holes: "forE [?r] (\<lambda>r w. wrapE (msg r) (AddBlackHoleIPRoute sample_govpp r w)) w7 = Some (Inr (), w8)" for msg
    using w8(1) by (simp add: returnE_def)
  have len: "(length [blue_table, global_table full_cfg] < 2) = False" and id_blue: "vv_ID ?blue \<noteq> 0"
    using ids(1) by simp_all
  have "AddVPPInitConfig sample_govpp alist_memdb i gw (?t, w) = Some (Inr (), (?t', w8))"
    unfolding AddVPPInitConfig_def Let_def fst_conv full_storage_tables(2) len if_False nth_Cons_0
    by (simp only: fst_conv bindE_Inr wrapE_ok on_world_ok w1(1) w2(1) w3(1) subifs vrfs' w5(1) vrfs w6(1) w7(1) aggr holes
        ids(1) id_blue simp_thms)
  then show ?thesis using w8(2) by (auto simp: started_vvrfs_def)
qed

theorem AddVPPInitConfig_effect_witness:
  "\<exists>t' w'. AddVPPInitConfig sample_govpp alist_memdb 1 ''192.0.2.254''
       (st_vvrfs full_storage, empty_world\<lparr>w_replies := start_replies\<rparr>) = Some (Inr (), (t', w')) \<and>
     w_acked w' = init_script sample_govpp 1 ''192.0.2.254'' (VPP_GetVRFs alist_memdb t')"
proof -
  let ?run = "AddVPPInitConfig sample_govpp alist_memdb 1 ''192.0.2.254''
       (st_vvrfs full_storage, empty_world\<lparr>w_replies := start_replies\<rparr>)"
  obtain t' w' where run: "?run = Some (Inr (), (t', w'))"
    using sample_start [of "empty_world\<lparr>w_replies := start_replies\<rparr>" "''192.0.2.254''" 1] by (auto simp: empty_world_def)
  have "tbl_wf map_of vvrf_keys (st_vvrfs full_storage)"
    using initStorages_ok(1) [OF alist_memdb_models full_storage_init] by (simp add: storage_wf_def)
  from AddVPPInitConfig_effect [OF alist_memdb_models this full_storage_names run] run show ?thesis
    by (simp add: empty_world_def)
qed

lemma initVPP_gw_inv:
  assumes M: "memdb_models M C" and init: "initStorages M now cfg = Inr s"
    and names: "inj_on vv_Name (ran (vvrf_view M (st_vvrfs s)))"
    and start: "initVPP P M cfg (st_vvrfs s, w) = Some (Inr (), (t, w1))"
  shows "gw_inv M C (s\<lparr>st_vvrfs := t\<rparr>)"
proof -
  note inv = init_gw_inv [OF M init]
  then have wf: "tbl_wf C vvrf_keys (st_vvrfs s)" by (simp add: gw_inv_def storage_wf_def)
  obtain s1 s2 where "fst s1 = st_vvrfs s" "fst s2 = st_vvrfs s"
    "AddVPPInitConfig P M (vc_MainInterfaceID (cfg_VPP cfg)) (vc_TunDefaultGW (cfg_VPP cfg)) s2 = Some (Inr (), (t, w1))"
    using start by (auto simp: initVPP_def Let_def bindE_Inr_iff on_world_Inr)
  then have "AddVPPInitConfig P M (vc_MainInterfaceID (cfg_VPP cfg)) (vc_TunDefaultGW (cfg_VPP cfg)) (st_vvrfs s, snd s2) =
      Some (Inr (), (t, w1))" by (metis prod.collapse)
  then obtain w3 w4 where "add_subifs P (vrf_ptrs M (st_vvrfs s)) (st_vvrfs s, w3) = Some (Inr (), (t, w4))"
    by (rule AddVPPInitConfig_steps) blast
  note tabs = AddVPPInitConfig_tables(3,4) [OF M wf names this]
  have "fip_inv (fip_view M (st_fips s)) (tun_view M (st_tuns s)) (vvrf_view M t)"
    by (rule fip_inv_resub [OF _ tabs(2)]) (use inv in \<open>simp add: gw_inv_def\<close>)
  then show ?thesis using inv tabs(1) by (simp add: gw_inv_def storage_wf_def)
qed

text \<open>
  The start of VPP keeps the gateway consistent. The storages are built from the configuration,
  VPP is cleared and configured, which changes the stored tables, and only then are updates handled:
  after every sequence of fewer than 2^32 controller updates that does not panic, the counters of
  the tunnels and of the VRFs count the stored floating IPs.
\<close>

theorem gateway_consistent_after_start:
  assumes M: "memdb_models M C" and P: "refuses_empty P" and init: "initStorages M now cfg = Inr s"
    and names: "inj_on vv_Name (ran (vvrf_view M (st_vvrfs s)))"
    and start: "initVPP P M cfg (st_vvrfs s, w) = Some (Inr (), (t, w1))"
    and run: "handle_tf_paths M P J cfg env ps (s\<lparr>st_vvrfs := t\<rparr>) w1 = Some (s', w')" "length ps < 2 ^ 32"
  shows "fip_inv (fip_view M (st_fips s')) (tun_view M (st_tuns s')) (vvrf_view M (st_vvrfs s'))"
  using handle_tf_paths_gw_inv [OF M P initVPP_gw_inv [OF M init names start] _ run(1)] run(2) initStorages_ok(2) [OF M init]
  by (simp add: gw_inv_def)

text \<open>A dump that finds nothing.\<close>

definition pinged :: "vpp_req \<Rightarrow> world \<Rightarrow> world" where
  "pinged req w = w\<lparr>w_replies := tl (w_replies w), w_sent := w_sent w @ [req, ControlPing]\<rparr>"

lemma pinged_simps [simp]: "w_sends (pinged req w) = w_sends w" "w_replies (pinged req w) = tl (w_replies w)"
  "w_bgps (pinged req w) = w_bgps w"
  by (simp_all add: pinged_def)

lemma dump_nothing:
  "w_sends w = [] \<Longrightarrow> w_replies w = Inr ControlPingReply # rs \<Longrightarrow> dump req h s w = Some (Inr (None, s), pinged req w)"
  by (simp add: dump_def SendMsg_def pinged_def)

lemma sample_clear:
  assumes w: "w_sends w = []" "w_replies w = replicate 7 (Inr ControlPingReply) @
      map Inr [SwInterfaceAddDelAddressReply 0, SwInterfaceSetFlagsReply 0, IPTableAddDelReply 0] @ rs"
    and ids: "vv_ID v \<noteq> 0" "vv_ID u = 0"
  shows "\<exists>w'. ClearVPPConfig sample_govpp i [v, u] w = Some (Inr (), w') \<and> w_sends w' = [] \<and> w_replies w' = rs \<and> w_bgps w' = w_bgps w"
  using assms
  by (simp add: ClearVPPConfig_def DumpIPRoutes_def dump_all_def dump_nothing returnE_def del_label_def
      DumpMPLSLocalLabelRoute_def DelSubInterfaces_def DumpUDPTunnels_def DumpFIPRoutes_def orE_def
      ResetMainInterface_def AddDelVRF_def roundtrip_answered re_IfAddress_def re_IfFlags_def re_IPTable_def
      eval_nat_numeral)

text \<open>The whole start on the sample storage, from a VPP that has nothing to clear.\<close>

lemma sample_initVPP:
  "\<exists>w'. initVPP sample_govpp alist_memdb full_cfg (st_vvrfs full_storage, empty_world\<lparr>w_replies := clear_replies @ start_replies\<rparr>) =
     Some (Inr (), (started_vvrfs, w')) \<and> w_bgps w' = []"
proof -
  let ?w = "empty_world\<lparr>w_replies := clear_replies @ start_replies\<rparr>"
  have ids: "vv_ID blue_table \<noteq> 0" "vv_ID (global_table full_cfg) = 0" "vc_TunDefaultGW (cfg_VPP full_cfg) \<noteq> ''''"
    by code_simp+
  obtain w1 where w1: "GetVPPVersion sample_govpp ?w = Some (Inr ''24.06'', w1)" "w_sends w1 = []"
    "w_replies w1 = tl clear_replies @ start_replies" "w_bgps w1 = []"
    by (simp add: GetVPPVersion_def roundtrip_answered empty_world_def clear_replies_def)
  obtain w2 where w2: "ClearVPPConfig sample_govpp (vc_MainInterfaceID (cfg_VPP full_cfg)) [blue_table, global_table full_cfg] w1 =
      Some (Inr (), w2)" "w_sends w2 = []" "w_replies w2 = start_replies" "w_bgps w2 = []"
    using sample_clear [OF w1(2) _ ids(1,2), of start_replies] w1(3,4) by (auto simp: clear_replies_def eval_nat_numeral)
  obtain w3 where "AddVPPInitConfig sample_govpp alist_memdb (vc_MainInterfaceID (cfg_VPP full_cfg))
      (vc_TunDefaultGW (cfg_VPP full_cfg)) (st_vvrfs full_storage, w2) = Some (Inr (), (started_vvrfs, w3))" "w_bgps w3 = []"
    using sample_start [OF w2(2,3) ids(3)] w2(4) by metis
  then show ?thesis
    unfolding initVPP_def Let_def
    by (simp only: on_world_ok w1(1) w2(1) wrapE_ok bindE_Inr fst_conv full_storage_tables(2)) blast
qed

theorem gateway_consistent_after_start_witness:
  "\<exists>t w1. initVPP sample_govpp alist_memdb full_cfg (st_vvrfs full_storage, empty_world\<lparr>w_replies := clear_replies @ start_replies\<rparr>) =
       Some (Inr (), (t, w1)) \<and>
     fip_inv (fip_view alist_memdb (st_fips full_storage)) (tun_view alist_memdb (st_tuns full_storage)) (vvrf_view alist_memdb t)"
proof -
  obtain t w3 where run: "initVPP sample_govpp alist_memdb full_cfg
      (st_vvrfs full_storage, empty_world\<lparr>w_replies := clear_replies @ start_replies\<rparr>) = Some (Inr (), (t, w3))"
    using sample_initVPP by blast
  have "handle_tf_paths alist_memdb sample_govpp J full_cfg env [] (full_storage\<lparr>st_vvrfs := t\<rparr>) w3 =
      Some (full_storage\<lparr>st_vvrfs := t\<rparr>, w3)" for J env by simp
  from gateway_consistent_after_start [OF alist_memdb_models sample_refuses full_storage_init full_storage_names run this] run
  show ?thesis by simp
qed

end
