(* ===== verification/Closer.thy ===== *)
theory Closer
  imports Prelude
begin

text \<open>
  \<^verbatim>\<open>pkg/closer/closer.go\<close>: the functions that are run once, all together, when the program ends. They
  are values of any type \<open>'f\<close>; \<open>returns f\<close> says that \<open>f\<close> comes back. The package functions \<^verbatim>\<open>Add\<close>,
  \<^verbatim>\<open>Wait\<close> and \<^verbatim>\<open>CloseAll\<close> are these operations on one global closer, and a signal calls \<^verbatim>\<open>CloseAll\<close>.
\<close>

text \<open>\<open>cl_done\<close>: the channel \<^verbatim>\<open>done\<close> is closed; \<open>cl_once\<close>: the \<^verbatim>\<open>sync.Once\<close> has been entered.\<close>

record 'f closer =
  cl_once :: bool
  cl_done :: bool
  cl_funcs :: "'f list"

definition New :: "'f closer" where
  "New = \<lparr>cl_once = False, cl_done = False, cl_funcs = []\<rparr>"

definition Add :: "'f list \<Rightarrow> 'f closer \<Rightarrow> 'f closer" where
  "Add fn c = c\<lparr>cl_funcs := cl_funcs c @ fn\<rparr>"

text \<open>
  The functions that are started, each in its own goroutine, and the closer. The loop waits for as
  many results as there are functions: if one never comes back, neither does \<^verbatim>\<open>CloseAll\<close>, and the
  deferred close of \<^verbatim>\<open>done\<close> is not reached.
\<close>

definition CloseAll :: "('f \<Rightarrow> bool) \<Rightarrow> 'f closer \<Rightarrow> 'f list \<times> 'f closer" where
  "CloseAll returns c =
     (if cl_once c then ([], c)
      else (cl_funcs c, c\<lparr>cl_once := True, cl_funcs := [], cl_done := (\<forall>f \<in> set (cl_funcs c). returns f)\<rparr>))"

text \<open>Whether \<^verbatim>\<open>Wait\<close> comes back.\<close>

definition Wait :: "'f closer \<Rightarrow> bool" where
  "Wait c \<longleftrightarrow> cl_done c"

text \<open>A sequence of calls: the functions started by all of them, and the closer.\<close>

datatype 'f op = OpAdd "'f list" | OpCloseAll

fun run_ops :: "('f \<Rightarrow> bool) \<Rightarrow> 'f op list \<Rightarrow> 'f closer \<Rightarrow> 'f list \<times> 'f closer" where
  "run_ops returns [] c = ([], c)"
| "run_ops returns (OpAdd fn # ops) c = run_ops returns ops (Add fn c)"
| "run_ops returns (OpCloseAll # ops) c =
     (let (fs, c) = CloseAll returns c; (gs, c) = run_ops returns ops c in (fs @ gs, c))"

text \<open>The functions added by a list of calls.\<close>

fun added :: "'f op list \<Rightarrow> 'f list" where
  "added [] = []"
| "added (OpAdd fn # ops) = fn @ added ops"
| "added (OpCloseAll # ops) = added ops"

lemma run_ops_closed: "cl_once c \<Longrightarrow> fst (run_ops returns ops c) = [] \<and> cl_done (snd (run_ops returns ops c)) = cl_done c"
  by (induction returns ops c rule: run_ops.induct) (auto simp: CloseAll_def Add_def split_beta Let_def)

lemma run_ops_adds:
  "OpCloseAll \<notin> set ops \<Longrightarrow> run_ops returns (ops @ rest) c = run_ops returns rest (Add (added ops) c)"
proof (induction returns ops c rule: run_ops.induct)
  case (1 returns c)
  show ?case by (simp add: Add_def)
next
  case (2 returns fn ops c)
  then show ?case by (simp add: Add_def)
qed simp

section \<open>Properties\<close>

text \<open>
  What ends with the program. In any sequence of calls with a first \<^verbatim>\<open>CloseAll\<close>, exactly the
  functions added before it are started, each once and in the order of their addition; whatever is
  added later, as by a BGP peer that comes up while the program is closing, is never run. \<^verbatim>\<open>Wait\<close> comes
  back if and only if every function that was started does: one that blocks hangs the exit.
\<close>

theorem closer_runs_once:
  assumes "OpCloseAll \<notin> set before"
  shows "(case run_ops returns (before @ OpCloseAll # after) New of (started, c) \<Rightarrow>
    started = added before \<and> (Wait c \<longleftrightarrow> (\<forall>f \<in> set (added before). returns f)))"
proof -
  let ?c = "snd (CloseAll returns (Add (added before) New))"
  have "cl_once ?c" by (simp add: CloseAll_def Add_def New_def)
  note closed = run_ops_closed [OF this, of returns "after"]
  have "run_ops returns (before @ OpCloseAll # after) New =
      (added before @ fst (run_ops returns after ?c), snd (run_ops returns after ?c))"
    using run_ops_adds [OF assms, of returns "OpCloseAll # after" New]
    by (simp add: CloseAll_def Add_def New_def Let_def split_beta)
  then show ?thesis using closed by (simp add: Wait_def CloseAll_def Add_def New_def)
qed

theorem closer_runs_once_witness:
  "run_ops (\<lambda>f. f \<noteq> ''bfd'') [OpAdd [''vpp''], OpAdd [''bfd''], OpCloseAll, OpAdd [''late''], OpCloseAll] New =
     ([''vpp'', ''bfd''], \<lparr>cl_once = True, cl_done = False, cl_funcs = [''late'']\<rparr>) \<and>
   \<not> Wait (snd (run_ops (\<lambda>f. f \<noteq> ''bfd'') [OpAdd [''vpp''], OpAdd [''bfd''], OpCloseAll, OpAdd [''late''], OpCloseAll] New))"
proof -
  have "OpCloseAll \<notin> set [OpAdd [''vpp''], OpAdd [''bfd'']]" by simp
  from closer_runs_once [OF this, of "\<lambda>f. f \<noteq> ''bfd''" "[OpAdd [''late''], OpCloseAll]"] show ?thesis
    by (simp add: CloseAll_def Add_def New_def Let_def)
qed

end
