(* ===== verification/Gateway.thy ===== *)
theory Gateway
  imports Vpp_Init Closer
begin

text \<open>
  The whole gateway: \<^verbatim>\<open>internal/app/app.go\<close>, which starts the parts and registers what ends with the
  program, and \<^verbatim>\<open>HandleBGPUpdate\<close>, whose three watchers share the storages. The events of the watchers
  arrive in any order; each is handled as a whole. Logging, profiling, the metrics and the HTTP server,
  which do not touch this state, are left out, and \<^verbatim>\<open>logger.Fatal\<close> is an error.
\<close>

section \<open>The state\<close>

text \<open>What \<^verbatim>\<open>closer.Add\<close> registers, in place of the functions.\<close>

datatype job = VppDisconnect | StatsDisconnect | BGPServerStop | CancelContext | DeletePeers "BGPPeer list"

record 'd app =
  ap_storage :: "'d storage"
  ap_metrics :: GoBGPGeneralMetric
  ap_bfd :: "BGPPeer list"
  ap_world :: world
  ap_closer :: "job closer"

section \<open>Handling the events\<close>

text \<open>An event of each watcher; the first two carry the order in which Go iterates over the VRF map.\<close>

datatype watched =
    BestPath "(u32 \<times> string) list" Path
  | PostPolicyPath "(u32 \<times> string) list" Path
  | PeerEvent string SessionState

definition events_of :: "'d app \<Rightarrow> 'd event_state" where
  "events_of a = \<lparr>ev_peers = st_peers (ap_storage a), ev_metrics = ap_metrics a, ev_bfd = ap_bfd a\<rparr>"

fun handle_watched :: "'d memdb \<Rightarrow> govpp \<Rightarrow> 'j json \<Rightarrow> Config \<Rightarrow> handler_env \<Rightarrow> watched \<Rightarrow> 'd app \<Rightarrow> 'd app go" where
  "handle_watched M P J cfg env (BestPath entries path) a = do {
     (s, w) \<leftarrow> handle_tf_path M P J cfg env entries path (ap_storage a) (ap_world a);
     Some (a\<lparr>ap_storage := s, ap_world := w\<rparr>)
   }"
| "handle_watched M P J cfg env (PostPolicyPath entries path) a = do {
     w \<leftarrow> handle_pn_path M P J cfg env entries path (ap_storage a) (ap_world a);
     Some (a\<lparr>ap_world := w\<rparr>)
   }"
| "handle_watched M P J cfg env (PeerEvent ip state) a = do {
     st \<leftarrow> handle_peer_event M (ip, state) (events_of a);
     Some (a\<lparr>ap_storage := (ap_storage a)\<lparr>st_peers := ev_peers st\<rparr>, ap_metrics := ev_metrics st, ap_bfd := ev_bfd st\<rparr>)
   }"

fun handle_all :: "'d memdb \<Rightarrow> govpp \<Rightarrow> 'j json \<Rightarrow> Config \<Rightarrow> handler_env \<Rightarrow> watched list \<Rightarrow> 'd app \<Rightarrow> 'd app go" where
  "handle_all M P J cfg env [] a = Some a"
| "handle_all M P J cfg env (ev # evs) a = do {
     a \<leftarrow> handle_watched M P J cfg env ev a;
     handle_all M P J cfg env evs a
   }"

section \<open>app.go\<close>

definition Init :: "'d memdb \<Rightarrow> govpp \<Rightarrow> (nat \<Rightarrow> nat) \<Rightarrow> Config \<Rightarrow> world \<Rightarrow> (err + 'd app) go" where
  "Init M P now cfg w = (case initStorages M now cfg of
      Inl e \<Rightarrow> Some (Inl (Wrap ''failed to initialize storages'' e))
    | Inr s \<Rightarrow> do {
        (r, t, w) \<leftarrow> initVPP P M cfg (st_vvrfs s, w);
        (case r of
           Inl e \<Rightarrow> Some (Inl (Wrap ''failed to initialize vpp stream connection'' e))
         | Inr _ \<Rightarrow>
             let c = Add [VppDisconnect] New;
                 c = (if ht_Enable (cfg_HTTP cfg) then Add [StatsDisconnect] c else c) in
             (case initGoBGPServer cfg w of
                (Some e, w) \<Rightarrow> Some (Inl (Wrap ''failed to initialize gobgp server'' e))
              | (None, w) \<Rightarrow> Some (Inr \<lparr>ap_storage = s\<lparr>st_vvrfs := t\<rparr>, ap_metrics = no_metrics, ap_bfd = [],
                  ap_world = w, ap_closer = Add [BGPServerStop] c\<rparr>)))
      })"

text \<open>
  The watchers run before the peers are configured: \<open>before\<close> are the events handled until then,
  \<open>after\<close> those until the program ends.
\<close>

definition Run :: "'d memdb \<Rightarrow> govpp \<Rightarrow> 'j json \<Rightarrow> (string \<Rightarrow> string) \<Rightarrow> Config \<Rightarrow> watched list \<Rightarrow> watched list \<Rightarrow> 'd app
    \<Rightarrow> (err + 'd app) go" where
  "Run M P J md5hex cfg before after a = (let a = a\<lparr>ap_closer := Add [CancelContext] (ap_closer a)\<rparr> in
     case prepare_handler M (ap_storage a) of
       Inl e \<Rightarrow> Some (Inl e)
     | Inr env \<Rightarrow> do {
         a \<leftarrow> handle_all M P J cfg env before a;
         (r, m, w) \<leftarrow> ConfigureGoBGP M md5hex (ap_storage a) (ap_metrics a) (ap_world a);
         (case r of
            Inl e \<Rightarrow> Some (Inl e)
          | Inr peers \<Rightarrow> do {
              a \<leftarrow> handle_all M P J cfg env after
                (a\<lparr>ap_metrics := m, ap_world := w, ap_closer := Add [DeletePeers peers] (ap_closer a)\<rparr>);
              Some (Inr a)
            })
       })"

section \<open>The invariant of the whole\<close>

text \<open>\<open>n\<close> bounds the stored floating IPs.\<close>

definition app_inv :: "'d memdb \<Rightarrow> ('d \<Rightarrow> key \<rightharpoonup> keys \<times> addr) \<Rightarrow> nat \<Rightarrow> 'd app \<Rightarrow> bool" where
  "app_inv M C n a \<longleftrightarrow> gw_inv M C (ap_storage a) \<and> card (dom (stored M (ap_storage a))) \<le> n \<and>
     event_inv M (events_of a)"

lemma handle_watched_inv:
  assumes M: "memdb_models M C" and P: "refuses_empty P" and inv: "app_inv M C n a" and n: "Suc n < 2 ^ 32"
    and run: "handle_watched M P J cfg env ev a = Some a'"
  shows "app_inv M C (Suc n) a' \<and> ap_closer a' = ap_closer a"
proof (cases ev)
  case (BestPath entries path)
  then obtain s w where s: "handle_tf_path M P J cfg env entries path (ap_storage a) (ap_world a) = Some (s, w)"
      "a' = a\<lparr>ap_storage := s, ap_world := w\<rparr>"
    using run by (auto split: Option.bind_splits)
  have "gw_inv M C s \<and> card (dom (stored M s)) \<le> Suc (card (dom (stored M (ap_storage a))))"
    using inv n by (intro handle_tf_path_gw_inv [OF M P _ _ s(1)]) (simp_all add: app_inv_def)
  then show ?thesis
    using inv handle_tf_path_rest [OF s(1)] by (simp add: app_inv_def s(2) same_rest_def events_of_def)
next
  case PostPolicyPath
  then show ?thesis using run inv by (auto simp: app_inv_def events_of_def split: Option.bind_splits)
next
  case (PeerEvent ip x)
  then obtain st where st: "handle_peer_event M (ip, x) (events_of a) = Some st"
      "a' = a\<lparr>ap_storage := (ap_storage a)\<lparr>st_peers := ev_peers st\<rparr>, ap_metrics := ev_metrics st, ap_bfd := ev_bfd st\<rparr>"
    using run by (auto split: Option.bind_splits)
  have "event_wf C (events_of a)" using inv by (simp add: app_inv_def gw_inv_def storage_wf_def event_wf_def events_of_def)
  then have "event_wf C st \<and> event_inv M st"
    using handle_peer_events_inv [OF M, of "events_of a" "[(ip, x)]" st] inv st(1) by (simp add: app_inv_def)
  moreover have "events_of a' = st" by (simp add: events_of_def st(2))
  ultimately show ?thesis using inv by (simp add: app_inv_def gw_inv_def storage_wf_def event_wf_def st(2))
qed

text \<open>The gateway is an event loop over the events of all watchers; none of them registers anything.\<close>

interpretation gateway: event_loop "handle_watched M P J cfg env" "handle_all M P J cfg env" "\<lambda>n _. Suc n < 2 ^ 32"
    "\<lambda>n a. memdb_models M C \<and> refuses_empty P \<and> ap_closer a = c \<and> app_inv M C n a"
    for M P J cfg env C c
proof (unfold_locales, goal_cases)
  case (3 n e a a')
  moreover have "ap_closer a' = ap_closer a"
    using 3(3) by (cases e) (auto split: Option.bind_splits)
  ultimately show ?case using handle_watched_inv [of M C P n a J cfg env e a'] by auto
qed (auto split: Option.bind_split)

lemma handle_all_inv:
  assumes "memdb_models M C" "refuses_empty P" "app_inv M C n a" "n + length evs < 2 ^ 32"
    and run: "handle_all M P J cfg env evs a = Some a'"
  shows "app_inv M C (n + length evs) a' \<and> ap_closer a' = ap_closer a"
  using gateway.run_inv [OF _ _ run, of n C "ap_closer a"] assms by simp

lemma configure_vrfs_metrics: "configure_vrfs vs m w = (e, m', w') \<Longrightarrow> gm_ActivePeerCount m' = gm_ActivePeerCount m"
  by (induction vs m w rule: configure_vrfs.induct) (auto simp: IncVRFCount_def split: prod.splits option.splits)

lemma ConfigureGoBGP_metrics:
  "ConfigureGoBGP M md5hex s m w = Some (r, m', w') \<Longrightarrow> gm_ActivePeerCount m' = gm_ActivePeerCount m"
  by (auto simp: ConfigureGoBGP_def Let_def dest!: configure_vrfs_metrics
      split: prod.splits option.splits Option.bind_splits)

text \<open>Distinct names in the configuration are distinct names of the stored tables.\<close>

lemma init_names:
  assumes M: "memdb_models M C" and run: "initStorages M now cfg = Inr s"
    and d: "distinct (vv_Name (global_table cfg) # map vr_VRFName (cfg_VRF cfg))"
  shows "inj_on vv_Name (ran (vvrf_view M (st_vvrfs s)))"
proof -
  have name: "vv_Name (vpp_vrf_of cfg l r) = vr_VRFName r" for l r by (simp add: vpp_vrf_of_def NewVPPVRFTable_def)
  have "v = global_table cfg \<or> (\<exists>r \<in> set (cfg_VRF cfg). v = vpp_vrf_of cfg (label_of r) r)"
    if stored: "v \<in> ran (vvrf_view M (st_vvrfs s))" for v
  proof -
    obtain k where "fold (\<lambda>r V. V(vr_VRFID r \<mapsto> vpp_vrf_of cfg (label_of r) r)) (cfg_VRF cfg) [0 \<mapsto> global_table cfg] k = Some v"
      using stored unfolding initStorages_ok(6) [OF M run] ran_def by blast
    from fold_upd_cases [OF this] show ?thesis by (auto split: if_splits)
  qed
  moreover have "inj_on vr_VRFName (set (cfg_VRF cfg))" "\<forall>r \<in> set (cfg_VRF cfg). vr_VRFName r \<noteq> vv_Name (global_table cfg)"
    using d unfolding distinct.simps distinct_map set_map by (metis image_eqI)+
  ultimately show ?thesis unfolding inj_on_def by (metis name)
qed

text \<open>The start establishes the invariant, with no floating IP stored.\<close>

lemma Init_inv:
  assumes M: "memdb_models M C" and run: "Init M P now cfg w = Some (Inr a)"
    and d: "distinct (vv_Name (global_table cfg) # map vr_VRFName (cfg_VRF cfg))"
  shows "app_inv M C 0 a"
    "cl_funcs (ap_closer a) = VppDisconnect # (if ht_Enable (cfg_HTTP cfg) then [StatsDisconnect] else []) @ [BGPServerStop]"
proof -
  obtain s t w1 where s: "initStorages M now cfg = Inr s" "initVPP P M cfg (st_vvrfs s, w) = Some (Inr (), (t, w1))"
      "ap_storage a = s\<lparr>st_vvrfs := t\<rparr>" "ap_metrics a = no_metrics" "ap_bfd a = []"
    using run by (auto simp: Init_def Let_def split: sum.splits Option.bind_splits prod.splits option.splits)
  note kept = initVPP_gw_inv [OF M s(1) init_names [OF M s(1) d] s(2)]
  have "events_of a = initial_events s" by (simp add: events_of_def initial_events_def s(3-5))
  then show "app_inv M C 0 a"
    using kept init_event_inv(2) [OF M s(1)] initStorages_ok(2) [OF M s(1)] by (simp add: app_inv_def s(3))
  show "cl_funcs (ap_closer a) = VppDisconnect # (if ht_Enable (cfg_HTTP cfg) then [StatsDisconnect] else []) @ [BGPServerStop]"
    using run by (auto simp: Init_def Let_def Add_def New_def split: sum.splits Option.bind_splits prod.splits option.splits if_splits)
qed

lemma Run_inv:
  assumes M: "memdb_models M C" and P: "refuses_empty P" and inv: "app_inv M C 0 a0"
    and run: "Run M P J md5hex cfg before after a0 = Some (Inr a)" and n: "length before + length after < 2 ^ 32"
  shows "app_inv M C (length before + length after) a \<and>
    (\<exists>peers. cl_funcs (ap_closer a) = cl_funcs (ap_closer a0) @ [CancelContext, DeletePeers peers])"
proof -
  let ?a0 = "a0\<lparr>ap_closer := Add [CancelContext] (ap_closer a0)\<rparr>"
  obtain env a1 peers m w where r: "handle_all M P J cfg env before ?a0 = Some a1"
      "ConfigureGoBGP M md5hex (ap_storage a1) (ap_metrics a1) (ap_world a1) = Some (Inr peers, m, w)"
      "handle_all M P J cfg env after
        (a1\<lparr>ap_metrics := m, ap_world := w, ap_closer := Add [DeletePeers peers] (ap_closer a1)\<rparr>) = Some a"
    using run by (auto simp: Run_def Let_def split: sum.splits Option.bind_splits prod.splits)
  let ?a1 = "a1\<lparr>ap_metrics := m, ap_world := w, ap_closer := Add [DeletePeers peers] (ap_closer a1)\<rparr>"
  have "app_inv M C 0 ?a0" using inv by (simp add: app_inv_def events_of_def)
  from handle_all_inv [OF M P this _ r(1)] n
  have a1: "app_inv M C (length before) a1" "ap_closer a1 = Add [CancelContext] (ap_closer a0)" by simp_all
  then have "app_inv M C (length before) ?a1"
    using ConfigureGoBGP_metrics [OF r(2)] by (simp add: app_inv_def events_of_def event_inv_def)
  from handle_all_inv [OF M P this _ r(3)] n a1(2) show ?thesis by (simp add: Add_def)
qed

section \<open>Properties\<close>


text \<open>The sample gateway: started, and one neighbor that comes up.\<close>

lemma sample_run:
  "\<exists>a0 a. Init alist_memdb sample_govpp (\<lambda>n. n) full_cfg (empty_world\<lparr>w_replies := clear_replies @ start_replies\<rparr>) = Some (Inr a0) \<and>
     Run alist_memdb sample_govpp sample_json (\<lambda>h. h) full_cfg [PeerEvent ''192.0.2.1'' PeerState_ESTABLISHED] [] a0 = Some (Inr a)"
proof -
  let ?s = "full_storage\<lparr>st_vvrfs := started_vvrfs\<rparr>" and ?ev = "(''192.0.2.1'', PeerState_ESTABLISHED)"
  obtain w1 where w1: "initVPP sample_govpp alist_memdb full_cfg
      (st_vvrfs full_storage, empty_world\<lparr>w_replies := clear_replies @ start_replies\<rparr>) = Some (Inr (), (started_vvrfs, w1))" "w_bgps w1 = []"
    using sample_initVPP by blast
  obtain w2 where w2: "initGoBGPServer full_cfg w1 = (None, w2)" "w_bgps w2 = []"
    using w1(2) by (simp add: initGoBGPServer_def SetGoBGPLocalConfig_def bgp_call_def Let_def)
  obtain c where init: "Init alist_memdb sample_govpp (\<lambda>n. n) full_cfg (empty_world\<lparr>w_replies := clear_replies @ start_replies\<rparr>) =
      Some (Inr \<lparr>ap_storage = ?s, ap_metrics = no_metrics, ap_bfd = [], ap_world = w2, ap_closer = c\<rparr>)"
    by (simp add: Init_def full_storage_init w1(1) w2(1) Let_def)
  have "\<not> isl (prepare_handler alist_memdb ?s)" by code_simp
  then obtain env where env: "prepare_handler alist_memdb ?s = Inr env" by (cases "prepare_handler alist_memdb ?s") simp_all
  have "\<not> Option.is_none (handle_peer_event alist_memdb ?ev (initial_events full_storage))" by code_simp
  then obtain st where st: "handle_peer_event alist_memdb ?ev (initial_events full_storage) = Some st"
    by (cases "handle_peer_event alist_memdb ?ev (initial_events full_storage)") auto
  have ev: "events_of \<lparr>ap_storage = ?s, ap_metrics = no_metrics, ap_bfd = [], ap_world = w2, ap_closer = d\<rparr> = initial_events full_storage"
    for d by (simp add: events_of_def initial_events_def)
  obtain m w' where conf: "ConfigureGoBGP alist_memdb (\<lambda>h. h) (?s\<lparr>st_peers := ev_peers st\<rparr>) (ev_metrics st) w2 =
      Some (Inr (GetBGPPeers alist_memdb (ev_peers st)), m, w')"
    using w2(2) by (simp add: ConfigureGoBGP_def configure_vrfs_accepted configure_peers_accepted CreateGoBGPPolicy_accepted Let_def)
  show ?thesis using init by (simp add: Run_def env ev st conf)
qed


end
