(* ===== verification/Fip_Spec.thy ===== *)
theory Fip_Spec
  imports Fip_Effects
begin

text \<open>
  What the service of the floating IPs is meant to do, without storages, tunnels, counters and VPP: a
  table of prefixes with their next hops and labels, and the updates of the controllers on it. The
  handler of \<open>Fip_Service\<close> is shown to implement it: what it stores follows the table, update by update.
\<close>

section \<open>The specification\<close>

type_synonym fip_table = "string \<rightharpoonup> (string \<times> u32) list"

datatype fip_update = Announce string string u32 | Withdraw string string u32 | Ignored

definition without_hop :: "string \<Rightarrow> (string \<times> u32) list \<Rightarrow> (string \<times> u32) list" where
  "without_hop nh ps = filter (\<lambda>x. fst x \<noteq> nh) ps"

text \<open>
  The updates that concern a table: an announcement of an unknown path inside the aggregates and a
  withdrawal of a known one. The paths of the prefix afterwards: a next hop has one label, the newest,
  and the newest path comes last.
\<close>

fun concerns :: "ipnet list \<Rightarrow> fip_update \<Rightarrow> fip_table \<Rightarrow> bool" where
  "concerns nets (Announce p nh l) F \<longleftrightarrow> IsFIP p nets \<and> (case F p of None \<Rightarrow> True | Some ps \<Rightarrow> (nh, l) \<notin> set ps)"
| "concerns nets (Withdraw p nh l) F \<longleftrightarrow> (case F p of None \<Rightarrow> False | Some ps \<Rightarrow> (nh, l) \<in> set ps)"
| "concerns nets Ignored F \<longleftrightarrow> False"

fun apply_update :: "bool \<Rightarrow> fip_update \<Rightarrow> fip_table \<Rightarrow> fip_table" where
  "apply_update accepted (Announce p nh l) F = F(p :=
     if \<not> accepted then None
     else Some (case F p of None \<Rightarrow> [(nh, l)]
       | Some ps \<Rightarrow> if nh = '''' \<or> l = 0 then ps else without_hop nh ps @ [(nh, l)]))"
| "apply_update accepted (Withdraw p nh l) F = F(p := (case F p of None \<Rightarrow> None
     | Some ps \<Rightarrow> if \<not> accepted \<or> without_hop nh ps = [] then None else Some (without_hop nh ps)))"
| "apply_update accepted Ignored F = F"

text \<open>
  An update that does not concern the table leaves it; one that does is applied, or, when VPP refuses
  the route, the floating IP is lost. \<open>accepted\<close> is VPP's choice.
\<close>

definition outcome :: "ipnet list \<Rightarrow> bool \<Rightarrow> fip_update \<Rightarrow> fip_table \<Rightarrow> fip_table" where
  "outcome nets accepted u F = (if concerns nets u F then apply_update accepted u F else F)"

inductive fip_spec :: "ipnet list \<Rightarrow> fip_update list \<Rightarrow> fip_table \<Rightarrow> fip_table \<Rightarrow> bool" for nets where
  no_update: "fip_spec nets [] F F"
| an_update: "fip_spec nets us (outcome nets accepted u F) F' \<Longrightarrow> fip_spec nets (u # us) F F'"

inductive_simps fip_spec_simps [simp]: "fip_spec nets [] F F'" "fip_spec nets (u # us) F F'"

section \<open>The abstraction\<close>

definition hops :: "VPPIPRoute \<Rightarrow> (string \<times> u32) list" where
  "hops r = zip (rt_NextHops r) (rt_FIPMPLSLabels r)"

definition fips :: "'d memdb \<Rightarrow> 'd storage \<Rightarrow> fip_table" where
  "fips M s p = map_option hops (stored M s p)"

text \<open>What an update of a table asks for, by its parse and the tables of the gateway.\<close>

definition update_of :: "'d memdb \<Rightarrow> 'j json \<Rightarrow> Config \<Rightarrow> handler_env \<Rightarrow> 'd storage \<Rightarrow> (u32 \<times> string) list \<times> Path \<Rightarrow> fip_update" where
  "update_of M J cfg env s = (\<lambda>(entries, path).
     if IsConfiguredBGPPeer M (st_peers s) (p_NeighborIp path) \<and> IsPHYNET M (st_peers s) (p_NeighborIp path) then Ignored
     else case ParseBGPUpdate J path (he_vrfNextHops env) entries (he_peerTypes env)
         (tf_BGPPeerASN (cfg_TFController cfg)) (gb_BGPLocalASN (cfg_GoBGP cfg)) of
       Some (True, _, a, None) \<Rightarrow>
         if VPP_GetVRF M (st_vvrfs s) (na_VRFID a) = None \<or> BGP_GetVRF M (st_bvrfs s) (na_VRFID a) = None then Ignored
         else (if p_IsWithdraw path then Withdraw else Announce) (na_Prefix a) (na_NextHop a) (hd (na_MPLSLabel a))
     | _ \<Rightarrow> Ignored)"

lemma hops_simps [simp]:
  "hops (r\<lparr>rt_TunnelIDs := ts\<rparr>) = hops r" "hops (set_paths r ps) = map (\<lambda>(nh, t, l). (nh, l)) ps"
  by (simp add: hops_def) (induction ps; auto simp: hops_def set_paths_def)

lemma hops_paths: "wf_route r \<Longrightarrow> hops r = map (\<lambda>(nh, t, l). (nh, l)) (paths r)"
  using hops_simps(2) [of r "paths r"] by simp

lemma has_path_hops: "wf_route r \<Longrightarrow> has_path r nh l \<longleftrightarrow> (nh, l) \<in> set (hops r)"
  by (force simp: hops_paths has_path_def)

lemma hops_without: "wf_route r \<Longrightarrow> map (\<lambda>(nh, t, l). (nh, l)) (without nh (paths r)) = without_hop nh (hops r)"
  by (simp add: hops_paths without_def without_hop_def filter_map o_def split_beta)

lemma hops_length: "wf_route r \<Longrightarrow> length (hops r) = length (rt_NextHops r)"
  by (simp add: hops_def wf_route_def)

lemma hops_AddPath:
  assumes "wf_route r" "AddPath r nh UndefinedTunnelID l = Some q"
  shows "hops q = (if nh = '''' \<or> l = 0 then hops r else without_hop nh (hops r) @ [(nh, l)])"
proof (cases "nh = '''' \<or> l = 0")
  case True
  then show ?thesis using AddPath_noop [of nh UndefinedTunnelID l r] assms(2) by auto
next
  case False
  then show ?thesis
    using AddPath_ok(1) [OF assms(1), of nh UndefinedTunnelID l] assms hops_without [OF assms(1), of nh]
    by (auto split: if_splits)
qed

lemma hops_DelPath:
  assumes "wf_route r" "DelPath r nh = Some q"
  shows "hops q = without_hop nh (hops r)" "wf_route q" "rt_Prefix q = rt_Prefix r"
  using DelPath_ok [OF assms(1), of nh] assms(2) hops_without [OF assms(1), of nh] by auto

section \<open>The operations implement the specification\<close>

text \<open>What the views of two storages have in common throughout the life of the handler.\<close>

definition same_tables :: "'d memdb \<Rightarrow> 'd storage \<Rightarrow> 'd storage \<Rightarrow> bool" where
  "same_tables M s s' \<longleftrightarrow> same_rest s s' \<and> dom (vvrf_view M (st_vvrfs s')) = dom (vvrf_view M (st_vvrfs s))"

lemma same_tables_refl [simp]: "same_tables M s s"
  by (simp add: same_tables_def)

lemma same_tables_trans: "same_tables M s s' \<Longrightarrow> same_tables M s' s'' \<Longrightarrow> same_tables M s s''"
  by (simp add: same_tables_def same_rest_def)

lemma update_of_same: "same_tables M s s' \<Longrightarrow> update_of M J cfg env s' e = update_of M J cfg env s e"
proof -
  assume same: "same_tables M s s'"
  then have rest: "st_peers s' = st_peers s" "st_bvrfs s' = st_bvrfs s" by (simp_all add: same_tables_def same_rest_def)
  have vrf: "VPP_GetVRF M (st_vvrfs s') i = None \<longleftrightarrow> VPP_GetVRF M (st_vvrfs s) i = None" for i
    using same by (auto simp: same_tables_def VPP_GetVRF_def simp flip: vvrf_view_def)
  show ?thesis unfolding update_of_def rest vrf ..
qed

lemma add_fips:
  assumes M: "memdb_models M C" and P: "refuses_empty P" and wf: "storage_wf C s" and r: "wf_route r" "rt_Prefix r \<noteq> ''''"
    and run: "AddFIPAndTunnelInVPPAndStorage M P cfg r v b s w = Some (s', w')"
  shows "same_tables M s s'" "fips M s' = fips M s \<or> fips M s' = (fips M s)(rt_Prefix r \<mapsto> hops r)"
proof -
  note ok = AddFIPAndTunnel_ok [OF M P wf r run]
  have "vvrf_view M (st_vvrfs s') = vvrf_view M (st_vvrfs s) \<or>
      vvrf_view M (st_vvrfs s') = bump vrf_inc (rt_VRFID r) (vvrf_view M (st_vvrfs s))"
    using ok by (auto simp: add_failed_def add_done_def)
  then have "dom (vvrf_view M (st_vvrfs s')) = dom (vvrf_view M (st_vvrfs s))" by (elim disjE) simp_all
  then show "same_tables M s s'" using ok by (simp add: same_tables_def)
  show "fips M s' = fips M s \<or> fips M s' = (fips M s)(rt_Prefix r \<mapsto> hops r)"
    using ok by (auto simp: add_failed_def add_done_def fips_def fun_eq_iff)
qed

lemma del_fips:
  assumes M: "memdb_models M C" and inv: "gw_inv M C s" and r: "stored M s p = Some r"
    and run: "DelFIPAndTunnelFromVPPAndStorage M P cfg r v b s w = Some (s', w')"
  shows "same_tables M s s'" "fips M s' = (fips M s)(p := None)"
proof -
  have "storage_wf C s" using inv by (simp add: gw_inv_def)
  then show "same_tables M s s'"
    using DelFIPAndTunnel_ok [OF M _ _ run] gw_inv_route [OF M inv r] by (auto simp: same_tables_def del_done_def)
  show "fips M s' = (fips M s)(p := None)"
    using del_gw_inv [OF M inv r run] by (auto simp: fips_def fun_eq_iff)
qed

lemma withdraw_refines:
  assumes M: "memdb_models M C" and P: "refuses_empty P" and inv: "gw_inv M C s"
    and run: "tf_withdraw M P cfg p nh l v b s w = Some (s', w')"
  shows "same_tables M s s' \<and> (\<exists>accepted. fips M s' = outcome nets accepted (Withdraw p nh l) (fips M s))"
proof (cases "concerns nets (Withdraw p nh l) (fips M s)")
  case False
  then have "\<not> (case stored M s p of None \<Rightarrow> False | Some r \<Rightarrow> has_path r nh l)"
    using gw_inv_route [OF M inv] by (auto simp: fips_def has_path_hops split: option.splits)
  then show ?thesis
    using False run IsFIPWithNHAndLabelExist_ok [OF M inv, of p nh l] by (auto simp: tf_withdraw_def outcome_def)
next
  case True
  then obtain r where r: "stored M s p = Some r" "(nh, l) \<in> set (hops r)" by (auto simp: fips_def split: option.splits)
  note g = gw_inv_route [OF M inv r(1)]
  have known: "IsFIPWithNHAndLabelExist M (st_fips s) p nh l = Some True"
    using IsFIPWithNHAndLabelExist_ok [OF M inv, of p nh l] r g by (simp add: has_path_hops)
  have nh: "nh \<in> set (rt_NextHops r)" using r(2) by (auto simp: hops_def dest: set_zip_leftD)
  obtain u where u: "tun_view M (st_tuns s) nh = Some u" by (rule last_of_tunnel [OF inv r(1) nh])
  then obtain s1 w1 where del: "DelFIPAndTunnelFromVPPAndStorage M P cfg r v b s w = Some (s1, w1)"
      "if length (rt_NextHops r) = 1 then (s', w') = (s1, w1)
       else \<exists>q. DelPath r nh = Some q \<and> AddFIPAndTunnelInVPPAndStorage M P cfg q v b s1 w1 = Some (s', w')"
    using run known r(1) by (auto simp: tf_withdraw_def GetUDPTunnel_def GetFIPRoute_def
        simp flip: tun_view_def fip_view_def split: Option.bind_splits if_splits)
  note d = del_fips [OF M inv r(1) del(1)]
  have o: "outcome nets accepted (Withdraw p nh l) (fips M s) = (fips M s)(p :=
      if \<not> accepted \<or> without_hop nh (hops r) = [] then None else Some (without_hop nh (hops r)))" for accepted
    using True r(1) by (simp add: outcome_def fips_def)
  show ?thesis
  proof (cases "length (rt_NextHops r) = 1")
    case True
    then show ?thesis using del(2) d o [of False] by (intro conjI exI [of _ False]) simp_all
  next
    case False
    then obtain q where q: "DelPath r nh = Some q" "AddFIPAndTunnelInVPPAndStorage M P cfg q v b s1 w1 = Some (s', w')"
      using del(2) by auto
    have "wf_route r" using g by simp
    note h = hops_DelPath [OF this q(1)]
    have "storage_wf C s1" using del_gw_inv [OF M inv r(1) del(1)] by (simp add: gw_inv_def)
    note a = add_fips [OF M P this h(2) _ q(2)]
    have ne: "without_hop nh (hops r) \<noteq> []"
    proof
      assume none: "without_hop nh (hops r) = []"
      have "map fst (hops r) = rt_NextHops r" using \<open>wf_route r\<close> by (simp add: hops_def wf_route_def)
      moreover have "fst ` set (hops r) \<subseteq> {nh}" using none by (auto simp: without_hop_def filter_empty_conv)
      ultimately have "set (rt_NextHops r) \<subseteq> {nh}" by (metis set_map)
      then have "length (rt_NextHops r) \<le> 1"
        using g card_mono [of "{nh}" "set (rt_NextHops r)"] distinct_card [of "rt_NextHops r"] by simp
      then show False using False g by (cases "rt_NextHops r") auto
    qed
    have "same_tables M s s'" using a(1) d(1) h g same_tables_trans by auto
    moreover have "fips M s' = outcome nets False (Withdraw p nh l) (fips M s) \<or>
        fips M s' = outcome nets True (Withdraw p nh l) (fips M s)"
      using a(2) d(2) h g ne o by auto
    ultimately show ?thesis by blast
  qed
qed

lemma announce_refines:
  assumes M: "memdb_models M C" and P: "refuses_empty P" and inv: "gw_inv M C s"
    and r: "r = NewVPPIPRoute i mainif sub p [nh] [UndefinedTunnelID] [l]" "p \<noteq> ''''"
    and run: "tf_advertise M P cfg nets r nh l v b s w = Some (s', w')"
  shows "same_tables M s s' \<and> (\<exists>accepted. fips M s' = outcome nets accepted (Announce p nh l) (fips M s))"
proof (cases "concerns nets (Announce p nh l) (fips M s)")
  have rp: "rt_Prefix r = p" "wf_route r" "hops r = [(nh, l)]" by (simp_all add: r NewVPPIPRoute_def wf_route_def hops_def)
  case False
  then have "\<not> IsFIP p nets \<or> IsFIPWithNHAndLabelExist M (st_fips s) p nh l = Some True"
    using gw_inv_route [OF M inv] IsFIPWithNHAndLabelExist_ok [OF M inv, of p nh l]
    by (auto simp: fips_def has_path_hops split: option.splits)
  then have "s' = s" using run by (auto simp: tf_advertise_def rp split: if_splits)
  moreover have "outcome nets True (Announce p nh l) (fips M s) = fips M s"
    using False by (simp add: outcome_def del: concerns.simps)
  ultimately show ?thesis by (intro conjI exI [of _ True]) simp_all
next
  have rp: "rt_Prefix r = p" "wf_route r" "hops r = [(nh, l)]" by (simp_all add: r NewVPPIPRoute_def wf_route_def hops_def)
  have wf: "storage_wf C s" using inv by (simp add: gw_inv_def)
  case True
  then have fip: "IsFIP p nets" by simp
  have new: "IsFIPWithNHAndLabelExist M (st_fips s) p nh l = Some False"
    using True IsFIPWithNHAndLabelExist_ok [OF M inv, of p nh l] gw_inv_route [OF M inv]
    by (auto simp: fips_def has_path_hops split: option.splits)
  show ?thesis
  proof (cases "stored M s p")
    case None
    then have run': "AddFIPAndTunnelInVPPAndStorage M P cfg r v b s w = Some (s', w')"
      using run fip new by (simp add: tf_advertise_def rp GetFIPRoute_def flip: fip_view_def)
    have o: "outcome nets accepted (Announce p nh l) (fips M s) =
        (fips M s)(p := if \<not> accepted then None else Some [(nh, l)])" for accepted
      using True None by (simp add: outcome_def fips_def)
    have "fips M s p = None" using None by (simp add: fips_def)
    then have "fips M s = outcome nets False (Announce p nh l) (fips M s)" by (simp add: o fun_upd_idem)
    moreover have "same_tables M s s'" "fips M s' = fips M s \<or> fips M s' = outcome nets True (Announce p nh l) (fips M s)"
      using add_fips [OF M P wf rp(2) _ run'] r(2) o [of True] by (simp_all add: rp)
    ultimately show ?thesis by metis
  next
    case (Some q)
    note g = gw_inv_route [OF M inv Some]
    obtain s1 w1 q' where del: "DelFIPAndTunnelFromVPPAndStorage M P cfg q v b s w = Some (s1, w1)"
        "AddPath q nh UndefinedTunnelID l = Some q'" "AddFIPAndTunnelInVPPAndStorage M P cfg q' v b s1 w1 = Some (s', w')"
      using run fip new Some by (auto simp: tf_advertise_def rp GetFIPRoute_def simp flip: fip_view_def split: Option.bind_splits)
    have q: "wf_route q" using g by simp
    note d = del_fips [OF M inv Some del(1)] and h = hops_AddPath [OF q del(2)] AddPath_wf [OF q del(2)]
    have "storage_wf C s1" using del_gw_inv [OF M inv Some del(1)] by (simp add: gw_inv_def)
    note a = add_fips [OF M P this _ _ del(3)]
    have o: "outcome nets accepted (Announce p nh l) (fips M s) =
        (fips M s)(p := if \<not> accepted then None else Some (hops q'))" for accepted
      using True Some h(1) by (simp add: outcome_def fips_def)
    have "same_tables M s s'" using a(1) d(1) h(2) g same_tables_trans by auto
    moreover have "fips M s' = outcome nets False (Announce p nh l) (fips M s) \<or>
        fips M s' = outcome nets True (Announce p nh l) (fips M s)"
      using a(2) d(2) h(2) g o by auto
    ultimately show ?thesis by blast
  qed
qed

lemma path_refines:
  assumes M: "memdb_models M C" and P: "refuses_empty P" and inv: "gw_inv M C s"
    and run: "handle_tf_path M P J cfg env entries path s w = Some (s', w')"
  shows "same_tables M s s' \<and>
    (\<exists>accepted. fips M s' = outcome (he_aggregates env) accepted (update_of M J cfg env s (entries, path)) (fips M s))"
proof -
  let ?parse = "ParseBGPUpdate J path (he_vrfNextHops env) entries (he_peerTypes env)
     (tf_BGPPeerASN (cfg_TFController cfg)) (gb_BGPLocalASN (cfg_GoBGP cfg))"
  consider (same) "s' = s" "update_of M J cfg env s (entries, path) = Ignored"
    | (update) b' a v b l where "?parse = Some (True, b', a, None)" "na_MPLSLabel a = [l]"
        "update_of M J cfg env s (entries, path) = (if p_IsWithdraw path then Withdraw else Announce) (na_Prefix a) (na_NextHop a) l"
        "if p_IsWithdraw path then tf_withdraw M P cfg (na_Prefix a) (na_NextHop a) l v b s w = Some (s', w')
         else tf_advertise M P cfg (he_aggregates env)
           (NewVPPIPRoute (na_VRFID a) (vc_MainInterfaceID (cfg_VPP cfg)) (vv_SubInterfaceID v)
             (na_Prefix a) [na_NextHop a] [UndefinedTunnelID] [l]) (na_NextHop a) l v b s w = Some (s', w')"
  proof (cases "IsConfiguredBGPPeer M (st_peers s) (p_NeighborIp path) \<and> IsPHYNET M (st_peers s) (p_NeighborIp path)")
    case True
    then show thesis using run by (intro same) (simp_all add: handle_tf_path_def update_of_def)
  next
    case False
    then obtain fromTF fromPN a e where parse: "?parse = Some (fromTF, fromPN, a, e)"
      using run by (auto simp: handle_tf_path_def split: Option.bind_splits)
    show thesis
    proof (cases "fromTF \<and> e = None \<and> VPP_GetVRF M (st_vvrfs s) (na_VRFID a) \<noteq> None \<and> BGP_GetVRF M (st_bvrfs s) (na_VRFID a) \<noteq> None")
      case True
      then obtain v b where vb: "VPP_GetVRF M (st_vvrfs s) (na_VRFID a) = Some v" "BGP_GetVRF M (st_bvrfs s) (na_VRFID a) = Some b"
        by blast
      have p: "?parse = Some (True, fromPN, a, None)" using parse True by simp
      obtain l where l: "na_MPLSLabel a = [l]" using ParseBGPUpdate_TF [OF p] by blast
      show thesis using run \<open>\<not> (_ \<and> _)\<close> p vb l
        by (intro update [of fromPN a l v b]) (auto simp: handle_tf_path_def update_of_def)
    next
      case False
      then show thesis using run \<open>\<not> (IsConfiguredBGPPeer _ _ _ \<and> _)\<close> parse
        by (intro same) (auto simp: handle_tf_path_def update_of_def split: option.splits bool.splits)
    qed
  qed
  then show ?thesis
  proof cases
    case same
    then show ?thesis by (simp add: outcome_def)
  next
    case update
    have "na_Prefix a \<noteq> ''''" using ParseBGPUpdate_TF [OF update(1)] by simp
    then show ?thesis
      using update(3,4) withdraw_refines [OF M P inv, of cfg "na_Prefix a" "na_NextHop a" l v b w s' w' "he_aggregates env"]
        announce_refines [OF M P inv refl, of "na_Prefix a" cfg "he_aggregates env"]
      by (auto split: if_splits)
  qed
qed

section \<open>The watcher implements the specification\<close>

interpretation tf_spec: refined_loop "\<lambda>(entries, path) (s, w). handle_tf_path M P J cfg env entries path s w"
    "\<lambda>ps (s, w). handle_tf_paths M P J cfg env ps s w" "\<lambda>n _. Suc n < 2 ^ 32"
    "\<lambda>n (s, w). memdb_models M C \<and> refuses_empty P \<and> gw_inv M C s \<and> card (dom (stored M s)) \<le> n \<and> same_tables M s0 s"
    "\<lambda>(s, w). fips M s" "\<lambda>ps. fip_spec (he_aggregates env) (map (update_of M J cfg env s0) ps)"
    for M P J cfg env C s0
proof (unfold_locales, goal_cases)
  case (1 s)
  then show ?case by (rule tf_loop.run_Nil)
next
  case (2 e es s)
  then show ?case by (rule tf_loop.run_Cons)
next
  case (3 n e s s')
  then have run: "handle_tf_path M P J cfg env (fst e) (snd e) (fst s) (snd s) = Some (fst s', snd s')"
    by (simp add: split_beta)
  have "same_tables M (fst s) (fst s')" using path_refines [OF _ _ _ run] 3(2) by (auto simp: split_beta)
  then show ?case
    using tf_loop.step_inv [OF 3(1) _ 3(3), of C] 3(2) same_tables_trans by (auto simp: split_beta)
next
  case (5 n e s s' es y)
  then have run: "handle_tf_path M P J cfg env (fst e) (snd e) (fst s) (snd s) = Some (fst s', snd s')"
    by (simp add: split_beta)
  obtain accepted where "fips M (fst s') = outcome (he_aggregates env) accepted (update_of M J cfg env (fst s) e) (fips M (fst s))"
    using path_refines [OF _ _ _ run] 5(2) by (auto simp: split_beta)
  moreover have "update_of M J cfg env (fst s) e = update_of M J cfg env s0 e"
    using 5(2) by (intro update_of_same) (simp add: split_beta)
  ultimately show ?case using 5(4) by (auto simp: split_beta)
qed simp

section \<open>Properties\<close>



end
