(* ===== verification/Gobgp_Api.thy ===== *)
theory Gobgp_Api
  imports Gobgp
begin

text \<open>
  \<^verbatim>\<open>pkg/gobgpapi\<close>: the requests of \<^verbatim>\<open>Gobgp.thy\<close> again, for a client over gRPC, on data types of
  their own. The client's stub and the server behind it are the same part of the world.
\<close>

section \<open>gobgp_struct.go\<close>

record API_VRFTable =
  av_Name :: string
  av_ID :: u32
  av_ASN :: u32
  av_PeerASN :: u32
  av_RD :: "any option"
  av_ExportRT :: "any list"
  av_ImportRT :: "any list"

definition NewAPIVRFTable ::
  "string \<Rightarrow> u32 \<Rightarrow> u32 \<Rightarrow> u32 \<Rightarrow> any option \<Rightarrow> any list \<Rightarrow> any list \<Rightarrow> API_VRFTable" where
  "NewAPIVRFTable name vrfID asn peerASN rd exportRT importRT =
     \<lparr>av_Name = name, av_ID = vrfID, av_ASN = asn, av_PeerASN = peerASN, av_RD = rd,
      av_ExportRT = exportRT, av_ImportRT = importRT\<rparr>"

record API_Peer =
  ap_PeerType :: int
  ap_PeerASN :: u32
  ap_PeerAddress :: string
  ap_PeerPort :: u32
  ap_Md5Password :: string
  ap_EbgpMultiHop :: bool
  ap_EbgpMultiHopTTL :: u32
  ap_VRFName :: string
  ap_AFI :: Afi
  ap_SAFI :: Safi
  ap_KeepAliveTimer :: u64
  ap_HoldTimer :: u64
  ap_State :: SessionState
  ap_PrevState :: SessionState
  ap_LastActivity :: nat

definition NewAPIPeer ::
  "nat \<Rightarrow> int \<Rightarrow> u32 \<Rightarrow> string \<Rightarrow> u32 \<Rightarrow> string \<Rightarrow> bool \<Rightarrow> u32 \<Rightarrow> string \<Rightarrow> u64 \<Rightarrow> u64 \<Rightarrow> API_Peer" where
  "NewAPIPeer now peerType peerASN peerAddress peerPort md5Password ebgpMultiHop ebgpMultiHopTTL
      vrfName keepAliveTimer holdTimer =
     (if peerType = TF then
        \<lparr>ap_PeerType = peerType, ap_PeerASN = peerASN, ap_PeerAddress = peerAddress,
         ap_PeerPort = peerPort, ap_Md5Password = md5Password, ap_EbgpMultiHop = ebgpMultiHop,
         ap_EbgpMultiHopTTL = ebgpMultiHopTTL, ap_VRFName = vrfName, ap_AFI = AFI_IP,
         ap_SAFI = SAFI_MPLS_VPN, ap_KeepAliveTimer = keepAliveTimer, ap_HoldTimer = holdTimer,
         ap_State = PeerState_UNKNOWN, ap_PrevState = PeerState_UNKNOWN, ap_LastActivity = now\<rparr>
      else if peerType = PHYNET then
        \<lparr>ap_PeerType = peerType, ap_PeerASN = peerASN, ap_PeerAddress = peerAddress,
         ap_PeerPort = peerPort, ap_Md5Password = md5Password, ap_EbgpMultiHop = ebgpMultiHop,
         ap_EbgpMultiHopTTL = ebgpMultiHopTTL, ap_VRFName = vrfName, ap_AFI = AFI_IP,
         ap_SAFI = SAFI_UNICAST, ap_KeepAliveTimer = keepAliveTimer, ap_HoldTimer = holdTimer,
         ap_State = PeerState_UNKNOWN, ap_PrevState = PeerState_UNKNOWN, ap_LastActivity = now\<rparr>
      else
        \<lparr>ap_PeerType = 0, ap_PeerASN = 0, ap_PeerAddress = [], ap_PeerPort = 0,
         ap_Md5Password = [], ap_EbgpMultiHop = False, ap_EbgpMultiHopTTL = 0, ap_VRFName = [],
         ap_AFI = AFI_UNKNOWN, ap_SAFI = SAFI_UNKNOWN, ap_KeepAliveTimer = 0, ap_HoldTimer = 0,
         ap_State = PeerState_UNKNOWN, ap_PrevState = PeerState_UNKNOWN, ap_LastActivity = 0\<rparr>)"

section \<open>gobgp_api.go\<close>

definition SetGoBGPLocalConfigByAPI :: "u32 \<Rightarrow> string \<Rightarrow> int \<Rightarrow> world \<Rightarrow> err option \<times> world" where
  "SetGoBGPLocalConfigByAPI localASN routerID localBGPPort = bgp_call (StartBgp localASN routerID localBGPPort)"

definition GetGoBGPLocalConfigByAPI :: "world \<Rightarrow> err option \<times> world" where
  "GetGoBGPLocalConfigByAPI = bgp_call GetBgp"

definition AddGoBGPVRFByAPI :: "API_VRFTable \<Rightarrow> world \<Rightarrow> err option \<times> world" where
  "AddGoBGPVRFByAPI vrf = bgp_call (AddVrf \<lparr>gv_Name = av_Name vrf, gv_Id = av_ID vrf, gv_Rd = av_RD vrf,
     gv_ImportRt = av_ImportRT vrf, gv_ExportRt = av_ExportRT vrf\<rparr>)"

definition DelGoBGPVRFByAPI :: "string \<Rightarrow> world \<Rightarrow> err option \<times> world" where
  "DelGoBGPVRFByAPI vrfName = bgp_call (DeleteVrf vrfName)"

definition AddGoBGPPeerByAPI :: "API_Peer \<Rightarrow> world \<Rightarrow> err option \<times> world" where
  "AddGoBGPPeerByAPI peer = bgp_call (AddPeer
     \<lparr>gp_NeighborAddress = ap_PeerAddress peer, gp_PeerAsn = ap_PeerASN peer,
      gp_AuthPassword = ap_Md5Password peer, gp_Vrf = ap_VRFName peer,
      gp_MultihopEnabled = ap_EbgpMultiHop peer, gp_MultihopTtl = ap_EbgpMultiHopTTL peer,
      gp_KeepaliveInterval = ap_KeepAliveTimer peer, gp_HoldTime = ap_HoldTimer peer,
      gp_RemotePort = ap_PeerPort peer, gp_Afi = ap_AFI peer, gp_Safi = ap_SAFI peer\<rparr>)"

definition DelGoBGPPeerByAPI :: "string \<Rightarrow> world \<Rightarrow> err option \<times> world" where
  "DelGoBGPPeerByAPI peerAddress = bgp_call (DeletePeer peerAddress)"

text \<open>
  The two listings read a gRPC stream: the messages received before its end, \<open>None\<close> marking the
  end (\<^verbatim>\<open>io.EOF\<close>); a stream that stops without it ends in an error.
\<close>

definition GetGoBGPVRFsByAPI :: "err + (err + GoBGPVrf option) list \<Rightarrow> err + GoBGPVrf" where
  "GetGoBGPVRFsByAPI response = (case response of
      Inl e \<Rightarrow> Inl e
    | Inr [] \<Rightarrow> Inl (ExtErr ''stream closed'')
    | Inr (Inl e # rs) \<Rightarrow> Inl e
    | Inr (Inr None # rs) \<Rightarrow> Inl (ExtErr ''EOF'')
    | Inr (Inr (Some v) # rs) \<Rightarrow> Inr v)"

fun recv_peers :: "(err + GoBGPPeer option) list \<Rightarrow> GoBGPPeer list \<Rightarrow> err + GoBGPPeer list" where
  "recv_peers [] ps = Inl (ExtErr ''stream closed'')"
| "recv_peers (Inl e # rs) ps = Inl e"
| "recv_peers (Inr None # rs) ps = Inr ps"
| "recv_peers (Inr (Some p) # rs) ps = recv_peers rs (ps @ [p])"

definition GetGoBGPPeersByAPI :: "err + (err + GoBGPPeer option) list \<Rightarrow> err + GoBGPPeer list" where
  "GetGoBGPPeersByAPI response = (case response of Inl e \<Rightarrow> Inl e | Inr rs \<Rightarrow> recv_peers rs [])"

definition AdvWdrawIPv4PrefixByAPI :: "bool \<Rightarrow> BGPNLRIAttrs \<Rightarrow> world \<Rightarrow> err option \<times> world" where
  "AdvWdrawIPv4PrefixByAPI isAdvertise a w =
     (let nlri = IPAddressPrefix (Addr (na_Prefix a)) (MaskLen (na_Prefix a));
          path = \<lparr>p_Nlri = nlri, p_Pattrs = [OriginAttribute 2, NextHopAttribute (na_NextHop a)],
            p_Afi = AFI_IP, p_Safi = SAFI_UNICAST, p_IsWithdraw = False, p_SourceAsn = 0,
            p_NeighborIp = ''''\<rparr>
      in if isAdvertise then bgp_call (BgpAddPath GLOBAL path) w
         else bgp_call (BgpDeletePath GLOBAL path) w)"

definition AdvWdrawVPNv4PrefixByAPI :: "bool \<Rightarrow> BGPNLRIAttrs \<Rightarrow> u32 \<Rightarrow> world \<Rightarrow> (err option \<times> world) go" where
  "AdvWdrawVPNv4PrefixByAPI isAdvertise a sourceASN w = do {
     rt \<leftarrow> at (na_RT a) 0;
     (let nlri = LabeledVPNIPAddressPrefix (na_MPLSLabel a) (na_RD a) (Addr (na_Prefix a)) (MaskLen (na_Prefix a));
          path = \<lparr>p_Nlri = nlri,
            p_Pattrs = [OriginAttribute 2, MultiExitDiscAttribute 0, LocalPrefAttribute 100,
              ExtendedCommunitiesAttribute [rt, EncapExtended 13],
              MpReachNLRIAttribute AFI_IP SAFI_MPLS_VPN [nlri] [na_NextHop a],
              AsPathAttribute [(2, [sourceASN])]],
            p_Afi = AFI_IP, p_Safi = SAFI_MPLS_VPN, p_IsWithdraw = False, p_SourceAsn = 0,
            p_NeighborIp = ''''\<rparr>
      in Some (if isAdvertise then bgp_call (BgpAddPath GLOBAL path) w
               else bgp_call (BgpDeletePath GLOBAL path) w))
   }"

section \<open>Lemmas\<close>

text \<open>Reading the peers stops at the end of the stream or at the first error, which discards what was read.\<close>

lemma recv_peers_eof: "recv_peers (map (Inr \<circ> Some) ps @ Inr None # rs) qs = Inr (qs @ ps)"
  by (induction ps arbitrary: qs) simp_all

lemma recv_peers_error: "recv_peers (map (Inr \<circ> Some) ps @ Inl e # rs) qs = Inl e"
  by (induction ps arbitrary: qs) simp_all

section \<open>Properties\<close>

text \<open>
  The two clients agree. For the same arguments, a table, a peer and a prefix are asked of the
  server over gRPC exactly as they are directly, up to the panic on a prefix without route target;
  and the peers a stream lists are read in order up to its end, nothing of a broken one.
\<close>

theorem api_agrees:
  "AddGoBGPVRFByAPI (NewAPIVRFTable name i asn peerASN rd ex im) = AddGoBGPVRF (NewBGPVRFTable name i asn peerASN rd ex im) \<and>
   AddGoBGPPeerByAPI (NewAPIPeer now ty as addr port md5 mh ttl vrf ka hold) =
     AddBGPPeer_srv (NewBGPPeer now ty as addr port md5 mh ttl vrf ka hold) \<and>
   DelGoBGPPeerByAPI (bp_PeerAddress peer) = DelBGPPeer peer \<and>
   AdvWdrawIPv4PrefixByAPI adv a = AdvWdrawIPv4Prefix adv a \<and>
   AdvWdrawVPNv4PrefixByAPI adv a as w = AdvWdrawVpnv4Prefix adv a as w \<and>
   GetGoBGPPeersByAPI (Inr (map (Inr \<circ> Some) ps @ Inr None # rs)) = Inr ps \<and>
   GetGoBGPPeersByAPI (Inr (map (Inr \<circ> Some) ps @ Inl e # rs)) = Inl e"
proof (intro conjI)
  show "AddGoBGPVRFByAPI (NewAPIVRFTable name i asn peerASN rd ex im) = AddGoBGPVRF (NewBGPVRFTable name i asn peerASN rd ex im)"
    by (simp add: AddGoBGPVRFByAPI_def AddGoBGPVRF_def NewAPIVRFTable_def NewBGPVRFTable_def)
  show "AddGoBGPPeerByAPI (NewAPIPeer now ty as addr port md5 mh ttl vrf ka hold) =
     AddBGPPeer_srv (NewBGPPeer now ty as addr port md5 mh ttl vrf ka hold)"
    by (simp add: AddGoBGPPeerByAPI_def AddBGPPeer_srv_def NewAPIPeer_def NewBGPPeer_def)
  show "DelGoBGPPeerByAPI (bp_PeerAddress peer) = DelBGPPeer peer"
    by (simp add: DelGoBGPPeerByAPI_def DelBGPPeer_def)
  show "AdvWdrawIPv4PrefixByAPI adv a = AdvWdrawIPv4Prefix adv a"
    by (simp add: fun_eq_iff AdvWdrawIPv4PrefixByAPI_def AdvWdrawIPv4Prefix_def ipv4_path_def)
  show "AdvWdrawVPNv4PrefixByAPI adv a as w = AdvWdrawVpnv4Prefix adv a as w"
    by (cases "at (na_RT a) 0") (simp_all add: AdvWdrawVPNv4PrefixByAPI_def AdvWdrawVpnv4Prefix_def vpnv4_path_def Let_def)
qed (simp_all add: GetGoBGPPeersByAPI_def recv_peers_eof recv_peers_error)

end
