(* ===== verification/Monitor.thy ===== *)
theory Monitor
  imports App_Init
begin

text \<open>
  \<^verbatim>\<open>internal/monitor\<close>: the probe of the main interface's address, which ends the program when the
  address stays silent, and the watch on the connection to VPP. The ICMP library is outside the
  repository: \<open>ping k\<close> is the outcome of the k-th probe, an error or whether the address answered.
\<close>

section \<open>vpp_interface.go\<close>

text \<open>The probes after a failed one: at most \<open>n\<close> more, until one answers or ends with an error.\<close>

fun count_fails :: "(nat \<Rightarrow> err + bool) \<Rightarrow> nat \<Rightarrow> nat \<Rightarrow> nat \<Rightarrow> nat \<times> nat" where
  "count_fails ping 0 failCount k = (failCount, k)"
| "count_fails ping (Suc n) failCount k = (case ping k of
      Inl e \<Rightarrow> (failCount, Suc k)
    | Inr True \<Rightarrow> (failCount, Suc k)
    | Inr False \<Rightarrow> count_fails ping n (failCount + 1) (Suc k))"

datatype verdict = Exit | Alive nat

text \<open>One round over the addresses; an error of the first probe of an address ends the round.\<close>

fun probe_round :: "(nat \<Rightarrow> err + bool) \<Rightarrow> nat \<Rightarrow> string list \<Rightarrow> nat \<Rightarrow> verdict" where
  "probe_round ping maxFailCount [] k = Alive k"
| "probe_round ping maxFailCount (address # addresses) k = (case ping k of
      Inl e \<Rightarrow> Alive (Suc k)
    | Inr True \<Rightarrow> probe_round ping maxFailCount addresses (Suc k)
    | Inr False \<Rightarrow> (case count_fails ping maxFailCount 1 (Suc k) of (failCount, k) \<Rightarrow>
        if failCount \<ge> maxFailCount then Exit else probe_round ping maxFailCount addresses k))"

text \<open>The endless loop, for a number of rounds.\<close>

fun probe_rounds :: "nat \<Rightarrow> (nat \<Rightarrow> err + bool) \<Rightarrow> nat \<Rightarrow> string list \<Rightarrow> nat \<Rightarrow> verdict" where
  "probe_rounds 0 ping maxFailCount addresses k = Alive k"
| "probe_rounds (Suc n) ping maxFailCount addresses k = (case probe_round ping maxFailCount addresses k of
      Exit \<Rightarrow> Exit
    | Alive k \<Rightarrow> probe_rounds n ping maxFailCount addresses k)"

text \<open>What the loop does before the program exits: the peers are deleted; \<open>None\<close> is a loop that goes on.\<close>

definition ProbeVPPInterface :: "nat \<Rightarrow> (nat \<Rightarrow> err + bool) \<Rightarrow> BGPPeer list \<Rightarrow> string list \<Rightarrow> nat \<Rightarrow> world \<Rightarrow> world option" where
  "ProbeVPPInterface rounds ping bgpPeers monitoredIPAddress maxFailCount w =
     (case probe_rounds rounds ping maxFailCount monitoredIPAddress 0 of
        Exit \<Rightarrow> Some (fold (\<lambda>peer w. snd (DelBGPPeer peer w)) bgpPeers w)
      | Alive _ \<Rightarrow> None)"

text \<open>The goroutine it starts, if the monitor is enabled: ten failed probes, one address.\<close>

definition VPPInterfaceStatus :: "nat \<Rightarrow> (nat \<Rightarrow> err + bool) \<Rightarrow> Config \<Rightarrow> BGPPeer list \<Rightarrow> world \<Rightarrow> world option" where
  "VPPInterfaceStatus rounds ping cfg bgpPeers w =
     (if vc_InterfaceMonitorEnable (cfg_VPP cfg)
      then ProbeVPPInterface rounds ping bgpPeers [Addr (vc_TunLocalIP (cfg_VPP cfg))] 10 w
      else None)"

section \<open>vpp_conn.go\<close>

text \<open>What the loop sees: the context is done, or a connection event with the name of its state.\<close>

datatype conn_event = CtxDone | Event string

fun VPPConnStatus :: "conn_event list \<Rightarrow> bool" where
  "VPPConnStatus [] = False"
| "VPPConnStatus (CtxDone # evs) = True"
| "VPPConnStatus (Event state # evs) =
     (if state = ''Disconnected'' \<or> state = ''Failed'' then True else VPPConnStatus evs)"

section \<open>Lemmas\<close>

abbreviation silent :: "(nat \<Rightarrow> err + bool) \<Rightarrow> nat \<Rightarrow> nat \<Rightarrow> bool" where
  "silent ping k n \<equiv> \<forall>j. k \<le> j \<and> j < k + n \<longrightarrow> ping j = Inr False"

text \<open>The count reaches a bound exactly when that many probes in a row fail.\<close>

lemma count_fails_bounds:
  "f \<le> fst (count_fails ping n f k) \<and> k \<le> snd (count_fails ping n f k) \<and> snd (count_fails ping n f k) \<le> k + n"
proof (induction n arbitrary: f k)
  case (Suc n)
  show ?case using Suc.IH [of "f + 1" "Suc k"] by (auto split: sum.split bool.split)
qed simp

lemma count_fails_reaches:
  "m \<le> n \<Longrightarrow> f + m \<le> fst (count_fails ping n f k) \<longleftrightarrow> silent ping k m"
proof (induction n arbitrary: f k m)
  case (Suc n)
  show ?case
  proof (cases m)
    case (Suc m')
    then have m': "m' \<le> n" using Suc.prems by simp
    have split: "silent ping k m \<longleftrightarrow> ping k = Inr False \<and> silent ping (Suc k) m'"
    proof
      assume "silent ping k m"
      then show "ping k = Inr False \<and> silent ping (Suc k) m'" using Suc by auto
    next
      assume r: "ping k = Inr False \<and> silent ping (Suc k) m'"
      show "silent ping k m"
      proof (intro allI impI)
        fix j assume "k \<le> j \<and> j < k + m"
        then show "ping j = Inr False" using r Suc by (cases "j = k") auto
      qed
    qed
    show ?thesis
      unfolding split using Suc Suc.IH [OF m', of "f + 1" "Suc k"] by (auto split: sum.split bool.split)
  next
    case 0
    then show ?thesis using count_fails_bounds [of f ping "Suc n" k] by (auto simp del: count_fails.simps)
  qed
qed auto

lemma silent_Suc: "silent ping k (Suc n) \<longleftrightarrow> ping k = Inr False \<and> silent ping (Suc k) n"
proof
  assume "silent ping k (Suc n)"
  then show "ping k = Inr False \<and> silent ping (Suc k) n" by auto
next
  assume r: "ping k = Inr False \<and> silent ping (Suc k) n"
  show "silent ping k (Suc n)"
  proof (intro allI impI)
    fix j assume "k \<le> j \<and> j < k + Suc n"
    then show "ping j = Inr False" using r by (cases "j = k") auto
  qed
qed

lemma probe_round_Exit:
  assumes "0 < m"
  shows "probe_round ping m [a] k = Exit \<longleftrightarrow> silent ping k m"
proof -
  obtain n where m: "m = Suc n" using assms by (cases m) auto
  have "1 + n \<le> fst (count_fails ping m 1 (Suc k)) \<longleftrightarrow> silent ping (Suc k) n"
    by (rule count_fails_reaches) (simp add: m)
  then show ?thesis
    unfolding m silent_Suc by (auto split: sum.split bool.split prod.split)
qed

lemma probe_round_advances: "probe_round ping m [a] k = Alive k' \<Longrightarrow> k < k'"
  using count_fails_bounds [of 1 ping m "Suc k"]
  by (auto split: sum.splits bool.splits prod.splits if_splits)

lemma probe_rounds_alive:
  "0 < m \<Longrightarrow> \<forall>k. \<not> silent ping k m \<Longrightarrow> probe_rounds n ping m [a] k \<noteq> Exit"
proof (induction n arbitrary: k)
  case (Suc n)
  then show ?case using probe_round_Exit [OF Suc.prems(1), of ping a k] Suc.IH by (auto split: verdict.split)
qed simp

lemma probe_rounds_dead:
  assumes m: "0 < m" and dead: "\<forall>j \<ge> K. ping j = Inr False"
  shows "K - k < n \<Longrightarrow> probe_rounds n ping m [a] k = Exit"
proof (induction n arbitrary: k)
  case (Suc n)
  show ?case
  proof (cases "probe_round ping m [a] k")
    case (Alive k')
    then have "k < K" using probe_round_Exit [OF m, of ping a k] dead by (metis le_trans not_le verdict.distinct(1))
    then have "K - k' < n" using probe_round_advances [OF Alive] Suc.prems by auto
    then show ?thesis using Suc.IH Alive by simp
  qed simp
qed simp

lemma delete_all: "w_bgps w = [] \<Longrightarrow>
   w_bgp (fold (\<lambda>peer w. snd (DelBGPPeer peer w)) ps w) = w_bgp w @ map (\<lambda>p. DeletePeer (bp_PeerAddress p)) ps"
  by (induction ps arbitrary: w) (simp_all add: DelBGPPeer_def bgp_call_def)

section \<open>Properties\<close>

text \<open>
  What one round of the probe decides. The program exits exactly when \<^verbatim>\<open>maxFailCount\<close> probes in a
  row go unanswered, the first one included; so of the \<^verbatim>\<open>maxFailCount\<close> probes the loop makes after a
  failed one the last does not matter, and an interface that recovers at that point is reported as
  alive and then the program exits all the same. A probe that ends with an error counts as an answer.
\<close>

theorem probe_round_exits:
  assumes "0 < maxFailCount"
  shows "probe_round ping maxFailCount [address] k = Exit \<longleftrightarrow>
    (\<forall>j. k \<le> j \<and> j < k + maxFailCount \<longrightarrow> ping j = Inr False)"
  using probe_round_Exit [OF assms] .

theorem probe_round_exits_witness:
  "probe_round (\<lambda>j. Inr (j \<ge> 10)) 10 [''10.0.0.2''] 0 = Exit \<and> probe_round (\<lambda>j. Inr (j \<ge> 9)) 10 [''10.0.0.2''] 0 \<noteq> Exit"
  using probe_round_exits [of 10 "\<lambda>j. Inr (j \<ge> 10)" "''10.0.0.2''" 0]
    probe_round_exits [of 10 "\<lambda>j. Inr (j \<ge> 9)" "''10.0.0.2''" 0] by force

text \<open>
  C23: the interface monitor is live and safe. If the tunnel address answers, or a probe fails with an
  error, at least once in any ten probes in a row, the program never exits, however long it runs. If
  from some probe on the address never answers, then the program exits, after having asked the GoBGP
  server to delete every peer, whatever happened before.
\<close>

theorem interface_monitor:
  assumes "vc_InterfaceMonitorEnable (cfg_VPP cfg)"
  shows "((\<forall>k. \<exists>j. k \<le> j \<and> j < k + 10 \<and> ping j \<noteq> Inr False) \<longrightarrow> VPPInterfaceStatus rounds ping cfg bgpPeers w = None) \<and>
    ((\<forall>j \<ge> K. ping j = Inr False) \<and> w_bgps w = [] \<and> K < rounds \<longrightarrow>
      (\<exists>w'. VPPInterfaceStatus rounds ping cfg bgpPeers w = Some w' \<and>
        w_bgp w' = w_bgp w @ map (\<lambda>p. DeletePeer (bp_PeerAddress p)) bgpPeers))"
proof (intro conjI impI, goal_cases)
  case 1
  let ?a = "Addr (vc_TunLocalIP (cfg_VPP cfg))"
  have "probe_rounds rounds ping 10 [?a] 0 \<noteq> Exit" by (rule probe_rounds_alive) (use 1 in \<open>simp, blast\<close>)
  then show ?case using assms by (simp add: VPPInterfaceStatus_def ProbeVPPInterface_def split: verdict.split)
next
  case 2
  then show ?case
    using probe_rounds_dead [of 10 K ping 0 rounds "Addr (vc_TunLocalIP (cfg_VPP cfg))"] assms delete_all [of w bgpPeers]
    by (simp add: VPPInterfaceStatus_def ProbeVPPInterface_def)
qed

theorem interface_monitor_witness:
  "VPPInterfaceStatus 5 (\<lambda>_. Inr True) full_cfg [] empty_world = None \<and>
   (\<exists>w'. VPPInterfaceStatus 5 (\<lambda>j. Inr (j < 3)) full_cfg (GetBGPPeers alist_memdb (st_peers full_storage)) empty_world = Some w' \<and>
      length (w_bgp w') = length (GetBGPPeers alist_memdb (st_peers full_storage)))"
proof -
  have e: "vc_InterfaceMonitorEnable (cfg_VPP full_cfg)" by code_simp
  have "\<exists>j. k \<le> j \<and> j < k + 10 \<and> (Inr True :: err + bool) \<noteq> Inr False" for k :: nat
    by (intro exI [of _ k]) simp
  then have "VPPInterfaceStatus 5 (\<lambda>_. Inr True) full_cfg [] empty_world = None"
    using interface_monitor [OF e, of "\<lambda>_. Inr True"] by blast
  moreover have "\<forall>j \<ge> (3 :: nat). (Inr (j < 3) :: err + bool) = Inr False" "w_bgps empty_world = []" "w_bgp empty_world = []" "(3 :: nat) < 5"
    by (simp_all add: empty_world_def)
  ultimately show ?thesis
    using interface_monitor [OF e, of "\<lambda>j. Inr (j < 3)" 5 "GetBGPPeers alist_memdb (st_peers full_storage)" empty_world 3]
    by fastforce
qed

end
