(* ===== verification/Exporters.thy ===== *)
theory Exporters
  imports App_Init
begin

text \<open>
  What the program shows of itself: the metrics of \<^verbatim>\<open>pkg/exporter\<close> with their periodic updates, the
  start of these in \<^verbatim>\<open>internal/app/init_metric.go\<close>, and the handlers of \<^verbatim>\<open>internal/controller/http/v1\<close>.
  A metric map is a map from its key to the object its pointer leads to; the counts, which the
  code keeps in \<^verbatim>\<open>float64\<close>, are numbers. Tickers, contexts and logging are left out: an update is
  given as one tick.
\<close>

section \<open>gobgpexporter\<close>

record GoBGPPerPeerMetric =
  pm_IPv4RouteRcvd :: nat
  pm_IPv4RouteAdvd :: nat
  pm_Vpnv4RouteRcvd :: nat
  pm_Vpnv4RouteAdvd :: nat

definition NewGoBGPPerPeerMetric :: GoBGPPerPeerMetric where
  "NewGoBGPPerPeerMetric = \<lparr>pm_IPv4RouteRcvd = 0, pm_IPv4RouteAdvd = 0, pm_Vpnv4RouteRcvd = 0, pm_Vpnv4RouteAdvd = 0\<rparr>"

type_synonym peer_metrics = "string \<rightharpoonup> GoBGPPerPeerMetric"

text \<open>The initialization, and one tick; \<open>n\<close> are the destinations GoBGP counts in a peer's table.\<close>

definition init_peer_metrics :: "BGPPeer list \<Rightarrow> peer_metrics \<Rightarrow> peer_metrics" where
  "init_peer_metrics peers m = fold (\<lambda>p m. m(bp_PeerAddress p \<mapsto> NewGoBGPPerPeerMetric)) peers m"

definition set_counts :: "int \<Rightarrow> nat \<Rightarrow> nat \<Rightarrow> GoBGPPerPeerMetric \<Rightarrow> GoBGPPerPeerMetric" where
  "set_counts peerType rcvd sent m =
     (if peerType = TF then m\<lparr>pm_Vpnv4RouteRcvd := rcvd, pm_Vpnv4RouteAdvd := sent\<rparr>
      else m\<lparr>pm_IPv4RouteRcvd := rcvd, pm_IPv4RouteAdvd := sent\<rparr>)"

definition peer_safi :: "BGPPeer \<Rightarrow> Safi" where
  "peer_safi p = (if bp_PeerType p = TF then SAFI_MPLS_VPN else SAFI_UNICAST)"

fun update_peers :: "(TableType \<Rightarrow> Safi \<Rightarrow> string \<Rightarrow> nat) \<Rightarrow> BGPPeer list \<Rightarrow> peer_metrics \<Rightarrow> world
    \<Rightarrow> (err option \<times> peer_metrics \<times> world) go" where
  "update_peers n [] m w = Some (None, m, w)"
| "update_peers n (p # ps) m w = (let a = bp_PeerAddress p in
     case UpdateGoBGPPerPeerMetrics (n ADJ_IN (peer_safi p) a) ADJ_IN AFI_IP (peer_safi p) a w of
       (Inl e, w) \<Rightarrow> Some (Some e, m, w)
     | (Inr rcvd, w) \<Rightarrow> (case UpdateGoBGPPerPeerMetrics (n ADJ_OUT (peer_safi p) a) ADJ_OUT AFI_IP (peer_safi p) a w of
         (Inl e, w) \<Rightarrow> Some (Some e, m, w)
       | (Inr sent, w) \<Rightarrow> (case m a of
           None \<Rightarrow> panic
         | Some x \<Rightarrow> update_peers n ps (m(a \<mapsto> set_counts (bp_PeerType p) rcvd sent x)) w)))"

section \<open>vppexporter\<close>

record VPPVRFMetric =
  vm_VRFName :: string
  vm_FIPRouteTotal :: nat
  vm_IPv4RouteTotal :: nat

definition NewVPPVRFMetric :: "string \<Rightarrow> VPPVRFMetric" where
  "NewVPPVRFMetric vrfName = \<lparr>vm_VRFName = vrfName, vm_FIPRouteTotal = 0, vm_IPv4RouteTotal = 0\<rparr>"

definition SetVPPRouteTotal :: "nat \<Rightarrow> nat \<Rightarrow> VPPVRFMetric \<Rightarrow> VPPVRFMetric" where
  "SetVPPRouteTotal ipRouteNum fipRouteNum m = m\<lparr>vm_FIPRouteTotal := fipRouteNum, vm_IPv4RouteTotal := ipRouteNum\<rparr>"

record VPPInterfaceMetric =
  im_interfaceName :: string
  im_interfaceID :: u32
  im_rxPackets :: nat
  im_rxBytes :: nat
  im_rxErrors :: nat
  im_txPackets :: nat
  im_txBytes :: nat
  im_txErrors :: nat
  im_dropPackets :: nat

definition NewVPPInterfaceMetric :: "string \<Rightarrow> u32 \<Rightarrow> VPPInterfaceMetric" where
  "NewVPPInterfaceMetric interfaceName interfaceID = \<lparr>im_interfaceName = interfaceName, im_interfaceID = interfaceID,
     im_rxPackets = 0, im_rxBytes = 0, im_rxErrors = 0, im_txPackets = 0, im_txBytes = 0, im_txErrors = 0,
     im_dropPackets = 0\<rparr>"

text \<open>An entry of the interface statistics of \<^verbatim>\<open>govpp\<close>.\<close>

record InterfaceCounters =
  ic_InterfaceIndex :: u32
  ic_InterfaceName :: string
  ic_RxPackets :: nat
  ic_RxBytes :: nat
  ic_RxErrors :: nat
  ic_TxPackets :: nat
  ic_TxBytes :: nat
  ic_TxErrors :: nat
  ic_Drops :: nat

definition SetVPPInterfaceMetric :: "InterfaceCounters \<Rightarrow> VPPInterfaceMetric \<Rightarrow> VPPInterfaceMetric" where
  "SetVPPInterfaceMetric i m = m\<lparr>im_rxPackets := ic_RxPackets i, im_rxBytes := ic_RxBytes i, im_rxErrors := ic_RxErrors i,
     im_txPackets := ic_TxPackets i, im_txBytes := ic_TxBytes i, im_txErrors := ic_TxErrors i,
     im_dropPackets := ic_Drops i\<rparr>"

type_synonym if_metrics = "u32 \<rightharpoonup> VPPInterfaceMetric"

text \<open>\<^verbatim>\<open>stats.Interfaces[1:]\<close>, which panics when there is no interface at all.\<close>

definition but_first :: "'a list \<Rightarrow> 'a list go" where
  "but_first xs = (if xs = [] then panic else Some (tl xs))"

definition init_if_metrics :: "InterfaceCounters list \<Rightarrow> if_metrics \<Rightarrow> if_metrics go" where
  "init_if_metrics interfaces m = do {
     is \<leftarrow> but_first interfaces;
     Some (fold (\<lambda>i m. m(ic_InterfaceIndex i \<mapsto> NewVPPInterfaceMetric (ic_InterfaceName i) (ic_InterfaceIndex i))) is m)
   }"

fun set_if_metrics :: "InterfaceCounters list \<Rightarrow> if_metrics \<Rightarrow> if_metrics go" where
  "set_if_metrics [] m = Some m"
| "set_if_metrics (i # is) m = (case m (ic_InterfaceIndex i) of
      None \<Rightarrow> panic
    | Some x \<Rightarrow> set_if_metrics is (m(ic_InterfaceIndex i \<mapsto> SetVPPInterfaceMetric i x)))"

text \<open>
  The updates of the interface metrics: the statistics read at the start and at each tick, an error
  of which ends them.
\<close>

fun if_ticks :: "(err + InterfaceCounters list) list \<Rightarrow> if_metrics \<Rightarrow> (err option \<times> if_metrics) go" where
  "if_ticks [] m = Some (None, m)"
| "if_ticks (Inl e # stats) m = Some (Some e, m)"
| "if_ticks (Inr interfaces # stats) m = do {
     is \<leftarrow> but_first interfaces;
     m \<leftarrow> set_if_metrics is m;
     if_ticks stats m
   }"

definition UpdateVPPInterfaceMetrics :: "err + InterfaceCounters list \<Rightarrow> (err + InterfaceCounters list) list
    \<Rightarrow> if_metrics \<Rightarrow> (err option \<times> if_metrics) go" where
  "UpdateVPPInterfaceMetrics first stats m = (case first of
      Inl e \<Rightarrow> Some (Some e, m)
    | Inr interfaces \<Rightarrow> do { m \<leftarrow> init_if_metrics interfaces m; if_ticks stats m })"

text \<open>One tick of the tunnel and route metrics; an error counts as what was returned beside it.\<close>

record vpp_metrics =
  mt_UDPTunnelTotal :: nat
  mt_VRFs :: "u32 \<rightharpoonup> VPPVRFMetric"

definition ip_table :: "u32 \<Rightarrow> IPTable" where
  "ip_table i = \<lparr>it_TableID = i, it_Name = '''', it_IsIP6 = False\<rparr>"

definition counts_of :: "err + nat \<times> nat \<Rightarrow> nat \<times> nat" where
  "counts_of r = (case r of Inl _ \<Rightarrow> (0, 0) | Inr c \<Rightarrow> c)"

fun update_vrfs :: "VPPVRFTable list \<Rightarrow> (u32 \<rightharpoonup> VPPVRFMetric) \<Rightarrow> world \<Rightarrow> ((u32 \<rightharpoonup> VPPVRFMetric) \<times> world) go" where
  "update_vrfs [] m w = Some (m, w)"
| "update_vrfs (v # vs) m w =
     (if vv_ID v = 0 then update_vrfs vs m w
      else do {
        (r, w) \<leftarrow> CountRoutesPerTable (ip_table (vv_ID v)) w;
        (case m (vv_ID v) of
           None \<Rightarrow> panic
         | Some x \<Rightarrow> update_vrfs vs (m(vv_ID v \<mapsto> SetVPPRouteTotal (fst (counts_of r)) (snd (counts_of r)) x)) w)
      })"

definition udp_vrf_tick :: "VPPVRFTable list \<Rightarrow> vpp_metrics \<Rightarrow> world \<Rightarrow> (vpp_metrics \<times> world) go" where
  "udp_vrf_tick vrfs m w = do {
     ((n, e), w) \<leftarrow> CountUDPTunnels w;
     (vm, w) \<leftarrow> update_vrfs vrfs (mt_VRFs m) w;
     Some (m\<lparr>mt_UDPTunnelTotal := n, mt_VRFs := vm\<rparr>, w)
   }"

section \<open>init_metric.go\<close>

definition initMetric :: "VPPVRFTable list \<Rightarrow> vpp_metrics \<Rightarrow> vpp_metrics" where
  "initMetric vppVRFs m = m\<lparr>mt_VRFs := fold (\<lambda>v vm. if vv_ID v = 0 then vm else vm(vv_ID v \<mapsto> NewVPPVRFMetric (vv_Name v)))
     vppVRFs (mt_VRFs m)\<rparr>"

section \<open>handlers.go\<close>

record SummaryStatus =
  ss_BGPPeerTotal :: nat
  ss_BGPPeerActive :: nat
  ss_MemVPPFIPRouteTotal :: nat
  ss_MemVPPUDPTunnelTotal :: nat
  ss_VPPFIPRouteTotal :: nat
  ss_VPPUDPTunnelTotal :: nat
  ss_Errors :: "err list"

text \<open>The tables 1, 2, ... that are counted, one fewer than there are VRFs.\<close>

fun count_tables :: "nat list \<Rightarrow> nat \<Rightarrow> err list \<Rightarrow> world \<Rightarrow> (nat \<times> err list \<times> world) go" where
  "count_tables [] n errors w = Some (n, errors, w)"
| "count_tables (i # is) n errors w = do {
     (r, w) \<leftarrow> CountRoutesPerTable (ip_table (of_nat i)) w;
     count_tables is (n + snd (counts_of r)) (errors @ (case r of Inl e \<Rightarrow> [e] | Inr _ \<Rightarrow> [])) w
   }"

definition Summary :: "'d memdb \<Rightarrow> 'd storage \<Rightarrow> world \<Rightarrow> (SummaryStatus \<times> world) go" where
  "Summary M s w = (let bgpPeers = GetBGPPeers M (st_peers s);
       errors = (if bgpPeers = [] then [Errorf ''no bgp peers found''] else []) in do {
     (fipCount, errors, w) \<leftarrow> count_tables [1..<length (VPP_GetVRFs M (st_vvrfs s))] 0 errors w;
     ((udpCount, e), w) \<leftarrow> CountUDPTunnels w;
     Some (\<lparr>ss_BGPPeerTotal = length bgpPeers,
       ss_BGPPeerActive = length (filter (\<lambda>p. bp_State p = PeerState_ESTABLISHED) bgpPeers),
       ss_MemVPPFIPRouteTotal = length (GetFIPRoutes M (st_fips s)),
       ss_MemVPPUDPTunnelTotal = length (GetUDPTunnels M (st_tuns s)),
       ss_VPPFIPRouteTotal = fipCount, ss_VPPUDPTunnelTotal = udpCount,
       ss_Errors = errors @ (case e of None \<Rightarrow> [] | Some e \<Rightarrow> [e])\<rparr>, w)
   })"

text \<open>The listing of the peers is an error when there are none; the other listings are the getters.\<close>

definition BGPVRFs :: "'d memdb \<Rightarrow> ('d, BGPVRFTable) table \<Rightarrow> BGPVRFTable list" where
  "BGPVRFs M t = BGP_GetVRFs M t"

definition VPPVRFs :: "'d memdb \<Rightarrow> ('d, VPPVRFTable) table \<Rightarrow> VPPVRFTable list" where
  "VPPVRFs M t = VPP_GetVRFs M t"

definition VPPFIPRoutes :: "'d memdb \<Rightarrow> ('d, VPPIPRoute) table \<Rightarrow> VPPIPRoute list" where
  "VPPFIPRoutes M t = GetFIPRoutes M t"

definition UDPTunnels :: "'d memdb \<Rightarrow> ('d, VPPUDPTunnel) table \<Rightarrow> VPPUDPTunnel list" where
  "UDPTunnels M t = GetUDPTunnels M t"
definition BGPPeers :: "'d memdb \<Rightarrow> ('d, BGPPeer) table \<Rightarrow> string + BGPPeer list" where
  "BGPPeers M t = (let bgpPeers = GetBGPPeers M t in
     if bgpPeers = [] then Inl ''no bgp peers found'' else Inr bgpPeers)"

section \<open>Lemmas\<close>

text \<open>The listings show exactly what is stored, each object once, in the order of its key.\<close>

lemma listed_fips:
  assumes M: "memdb_models M C" and wf: "storage_wf C s"
  shows "set (VPPFIPRoutes M (st_fips s)) = ran (tbl_view M (st_fips s))"
    "sorted_wrt (<) (map (\<lambda>r. KStr (rt_Prefix r)) (VPPFIPRoutes M (st_fips s)))"
  using fips.all_id [OF M, of "st_fips s"] wf by (simp_all add: VPPFIPRoutes_def GetFIPRoutes_def storage_wf_def)

lemma listed_tunnels:
  assumes M: "memdb_models M C" and wf: "storage_wf C s"
  shows "set (UDPTunnels M (st_tuns s)) = ran (tbl_view M (st_tuns s))"
    "sorted_wrt (<) (map (\<lambda>u. KStr (tn_DstIP u)) (UDPTunnels M (st_tuns s)))"
  using tuns.all_id [OF M, of "st_tuns s"] wf by (simp_all add: UDPTunnels_def GetUDPTunnels_def storage_wf_def)

lemma set_if_metrics_None:
  "set_if_metrics is m = None \<longleftrightarrow> (\<exists>i \<in> set is. m (ic_InterfaceIndex i) = None)"
proof (induction "is" arbitrary: m)
  case (Cons i "is")
  show ?case
  proof (cases "m (ic_InterfaceIndex i)")
    case (Some x)
    let ?m = "m(ic_InterfaceIndex i \<mapsto> SetVPPInterfaceMetric i x)"
    have eq: "?m (ic_InterfaceIndex j) = None \<longleftrightarrow> m (ic_InterfaceIndex j) = None" for j using Some by auto
    show ?thesis using Cons.IH [of ?m, unfolded eq] Some by (simp del: fun_upd_apply)
  qed simp
qed simp

lemma fold_dom: "dom (fold (\<lambda>x m. m(key x \<mapsto> val x)) xs m) = dom m \<union> key ` set xs"
  by (induction xs arbitrary: m) auto

text \<open>The count of a dump of routes: the kinds of their first paths.\<close>

definition first_type :: "IPRouteV2 \<Rightarrow> FibPathType" where
  "first_type r = fp_Type (hd (rv_Paths r))"

definition routes_of_type :: "FibPathType \<Rightarrow> IPRouteV2 list \<Rightarrow> nat" where
  "routes_of_type ty rs = length (filter (\<lambda>r. first_type r = ty) rs)"

lemma count_step_details:
  "rv_Paths r \<noteq> [] \<Longrightarrow> count_step (a, b) (IPRouteV2Details r) = Some (Some
     (if first_type r = FIB_API_PATH_TYPE_NORMAL then (a + 1, b)
      else if first_type r = FIB_API_PATH_TYPE_UDP_ENCAP then (a, b + 1) else (a, b)))"
  by (simp add: count_step_def first_type_def at_def hd_conv_nth)

lemma count_recv_loop:
  "\<forall>r \<in> set rs. rv_Paths r \<noteq> [] \<Longrightarrow>
   recv_loop count_step (table_replies rs @ later) (a, b) =
     Some (None, (a + routes_of_type FIB_API_PATH_TYPE_NORMAL rs, b + routes_of_type FIB_API_PATH_TYPE_UDP_ENCAP rs), later)"
proof (induction rs arbitrary: a b)
  case (Cons r rs)
  have "rv_Paths r \<noteq> []" using Cons.prems by simp
  from count_step_details [OF this, of a b] show ?case
    using Cons by (simp add: table_replies_def routes_of_type_def)
qed (simp add: table_replies_def routes_of_type_def)

lemma CountRoutesPerTable_ok:
  assumes "w_sends w = []" "w_replies w = table_replies rs @ later" "\<forall>r \<in> set rs. rv_Paths r \<noteq> []"
  shows "CountRoutesPerTable t w =
    Some (Inr (routes_of_type FIB_API_PATH_TYPE_NORMAL rs, routes_of_type FIB_API_PATH_TYPE_UDP_ENCAP rs),
      w\<lparr>w_replies := later, w_sent := w_sent w @ [IPRouteV2Dump t, ControlPing]\<rparr>)"
  unfolding CountRoutesPerTable_def by (rule dump_ok) (simp_all add: assms count_recv_loop)

lemma count_tables_ok:
  "w_sends w = [] \<Longrightarrow> length rss = length is \<Longrightarrow> \<forall>rs \<in> set rss. \<forall>r \<in> set rs. rv_Paths r \<noteq> [] \<Longrightarrow>
   w_replies w = concat (map table_replies rss) @ later \<Longrightarrow>
   count_tables is n errors w = Some (n + routes_of_type FIB_API_PATH_TYPE_UDP_ENCAP (concat rss), errors,
     w\<lparr>w_replies := later,
       w_sent := w_sent w @ concat (map (\<lambda>i. [IPRouteV2Dump (ip_table (of_nat i)), ControlPing]) is)\<rparr>)"
proof (induction "is" arbitrary: rss n w)
  case (Cons i "is")
  then obtain rs rss' where rss: "rss = rs # rss'" by (cases rss) auto
  then show ?case
    using Cons CountRoutesPerTable_ok [of w rs "concat (map table_replies rss') @ later" "ip_table (of_nat i)"]
    by (simp add: counts_of_def routes_of_type_def)
qed (simp add: routes_of_type_def)

lemma dump_done:
  assumes "w_sends w = []" "recv_loop h (w_replies w) s = Some (None, s', rs)"
  shows "dump req h s w = Some (Inr (None, s'), w\<lparr>w_replies := rs, w_sent := w_sent w @ [req, ControlPing]\<rparr>)"
  using assms by (simp add: dump_def SendMsg_def)

lemma CountUDPTunnels_ok:
  assumes "w_sends w = []" "w_replies w = map (\<lambda>u. Inr (UDPEncapDetails u)) us @ Inr ControlPingReply # later"
  shows "CountUDPTunnels w = Some ((length us, None),
    w\<lparr>w_replies := later, w_sent := w_sent w @ [UDPEncapDump, ControlPing]\<rparr>)"
proof -
  let ?h = "\<lambda>(n :: nat) m. case m of UDPEncapDetails _ \<Rightarrow> Some (Some (n + 1)) | _ \<Rightarrow> Some None"
  have "recv_loop ?h (map (\<lambda>u. Inr (UDPEncapDetails u)) us @ Inr ControlPingReply # later) n =
      Some (None, n + length us, later)" for n
    by (induction us arbitrary: n) simp_all
  from dump_done [of w ?h 0 "length us" later UDPEncapDump, OF assms(1)] this [of 0] show ?thesis
    unfolding CountUDPTunnels_def assms(2) by simp
qed

section \<open>Properties\<close>

text \<open>
  An interface that appears brings the program down. The interfaces known to the exporter are
  those VPP has when it starts; a tick on any statistics writes through the pointer of each interface
  but the first, and panics exactly when one of them was not there at the start, or when a list of
  interfaces is empty.
\<close>

theorem interface_metrics_panic:
  "UpdateVPPInterfaceMetrics (Inr first) [Inr interfaces] Map.empty = panic \<longleftrightarrow>
     first = [] \<or> interfaces = [] \<or>
     (\<exists>i \<in> set (tl interfaces). ic_InterfaceIndex i \<notin> ic_InterfaceIndex ` set (tl first))"
proof (cases "first = [] \<or> interfaces = []")
  case True
  then show ?thesis by (auto simp: UpdateVPPInterfaceMetrics_def init_if_metrics_def but_first_def split: Option.bind_splits)
next
  case False
  let ?m = "fold (\<lambda>i m. m(ic_InterfaceIndex i \<mapsto> NewVPPInterfaceMetric (ic_InterfaceName i) (ic_InterfaceIndex i)))
    (tl first) Map.empty"
  have "?m k = None \<longleftrightarrow> k \<notin> ic_InterfaceIndex ` set (tl first)" for k
    using fold_dom [of ic_InterfaceIndex "\<lambda>i. NewVPPInterfaceMetric (ic_InterfaceName i) (ic_InterfaceIndex i)" "tl first" Map.empty]
    by (auto simp: domIff)
  then have "set_if_metrics (tl interfaces) ?m = None \<longleftrightarrow>
      (\<exists>i \<in> set (tl interfaces). ic_InterfaceIndex i \<notin> ic_InterfaceIndex ` set (tl first))"
    by (simp add: set_if_metrics_None)
  then show ?thesis
    using False
    by (cases "set_if_metrics (tl interfaces) ?m")
      (simp_all add: UpdateVPPInterfaceMetrics_def init_if_metrics_def but_first_def)
qed

text \<open>
  What the summary page counts. Beside the sizes of the storages and the peers whose session is
  established, it asks VPP for the tables 1, 2, ..., one fewer than there are VRFs, whatever their
  identifiers are, and shows the number of routes through a tunnel in the answers and the number of
  tunnels. With VRF identifiers other than these it counts the wrong tables.
\<close>

theorem Summary_counts:
  assumes "w_sends w = []" "length rss = length (VPP_GetVRFs M (st_vvrfs s)) - 1"
    and "\<forall>rs \<in> set rss. \<forall>r \<in> set rs. rv_Paths r \<noteq> []"
    and "w_replies w = concat (map table_replies rss) @ map (\<lambda>u. Inr (UDPEncapDetails u)) us @ Inr ControlPingReply # later"
  shows "\<exists>ss w'. Summary M s w = Some (ss, w') \<and>
    ss_BGPPeerTotal ss = length (GetBGPPeers M (st_peers s)) \<and>
    ss_BGPPeerActive ss = length (filter (\<lambda>p. bp_State p = PeerState_ESTABLISHED) (GetBGPPeers M (st_peers s))) \<and>
    ss_MemVPPFIPRouteTotal ss = length (GetFIPRoutes M (st_fips s)) \<and>
    ss_MemVPPUDPTunnelTotal ss = length (GetUDPTunnels M (st_tuns s)) \<and>
    ss_VPPFIPRouteTotal ss = routes_of_type FIB_API_PATH_TYPE_UDP_ENCAP (concat rss) \<and>
    ss_VPPUDPTunnelTotal ss = length us \<and>
    (ss_Errors ss = [] \<longleftrightarrow> GetBGPPeers M (st_peers s) \<noteq> []) \<and>
    w_sent w' = w_sent w @ concat (map (\<lambda>i. [IPRouteV2Dump (ip_table (of_nat i)), ControlPing])
      [1..<length (VPP_GetVRFs M (st_vvrfs s))]) @ [UDPEncapDump, ControlPing]"
proof -
  let ?is = "[1..<length (VPP_GetVRFs M (st_vvrfs s))]"
  let ?later = "map (\<lambda>u. Inr (UDPEncapDetails u)) us @ Inr ControlPingReply # later"
  let ?w = "w\<lparr>w_replies := ?later, w_sent := w_sent w @ concat (map (\<lambda>i. [IPRouteV2Dump (ip_table (of_nat i)), ControlPing]) ?is)\<rparr>"
  have "length rss = length ?is" using assms(2) by simp
  from count_tables_ok [OF assms(1) this assms(3,4)]
  have tables: "count_tables ?is 0 errors w = Some (routes_of_type FIB_API_PATH_TYPE_UDP_ENCAP (concat rss), errors, ?w)" for errors
    by simp
  have "CountUDPTunnels ?w = Some ((length us, None),
      ?w\<lparr>w_replies := later, w_sent := w_sent ?w @ [UDPEncapDump, ControlPing]\<rparr>)"
    by (rule CountUDPTunnels_ok) (simp_all add: assms(1))
  then have tunnels: "CountUDPTunnels ?w = Some ((length us, None),
      w\<lparr>w_replies := later, w_sent := w_sent w @ concat (map (\<lambda>i. [IPRouteV2Dump (ip_table (of_nat i)), ControlPing]) ?is) @
        [UDPEncapDump, ControlPing]\<rparr>)" by simp
  show ?thesis by (simp add: Summary_def Let_def tables tunnels del: One_nat_def)
qed

theorem Summary_counts_witness:
  "\<exists>ss w'. Summary alist_memdb full_storage (empty_world\<lparr>w_replies := table_replies [sample_route 1 ''10.1.0.0/16'' ''192.0.2.1'']
       @ [Inr ControlPingReply]\<rparr>) = Some (ss, w') \<and> ss_VPPFIPRouteTotal ss = 0 \<and> ss_VPPUDPTunnelTotal ss = 0"
proof -
  let ?rss = "[[sample_route 1 ''10.1.0.0/16'' ''192.0.2.1'']]"
  let ?w = "empty_world\<lparr>w_replies := table_replies [sample_route 1 ''10.1.0.0/16'' ''192.0.2.1''] @ [Inr ControlPingReply]\<rparr>"
  have "length (VPP_GetVRFs alist_memdb (st_vvrfs full_storage)) = 2" by code_simp
  then have "w_sends ?w = []" "length ?rss = length (VPP_GetVRFs alist_memdb (st_vvrfs full_storage)) - 1"
    "\<forall>rs \<in> set ?rss. \<forall>r \<in> set rs. rv_Paths r \<noteq> []"
    "w_replies ?w = concat (map table_replies ?rss) @ map (\<lambda>u. Inr (UDPEncapDetails u)) [] @ Inr ControlPingReply # []"
    by (simp_all add: empty_world_def sample_route_def)
  note run = Summary_counts [OF this]
  have "routes_of_type FIB_API_PATH_TYPE_UDP_ENCAP (concat ?rss) = 0"
    by (simp add: routes_of_type_def first_type_def sample_route_def)
  then show ?thesis using run by auto
qed

end
