(* ===== verification/Collectors.thy ===== *)
theory Collectors
  imports Exporters
begin

text \<open>
  \<^verbatim>\<open>prometheus_exporter.go\<close> and \<^verbatim>\<open>description.go\<close> of both exporters: the descriptors they announce and
  the samples they hand to the Prometheus library. The library is a parameter: \<open>mk\<close> is its
  \<^verbatim>\<open>MustNewConstMetric\<close>, \<open>None\<close> a panic. Go iterates over a map in any order: the entries are a list. The values are counts; the
  conversion to \<^verbatim>\<open>float64\<close>, exact up to 2^53, is left out.
\<close>

section \<open>description.go\<close>

text \<open>A descriptor: the three arguments of \<^verbatim>\<open>BuildFQName\<close>, the help text and the variable labels.\<close>

record Desc =
  dc_namespace :: string
  dc_subsystem :: string
  dc_name :: string
  dc_help :: string
  dc_labels :: "string list"

definition NewDesc :: "string \<Rightarrow> string \<Rightarrow> string \<Rightarrow> string \<Rightarrow> string list \<Rightarrow> Desc" where
  "NewDesc namespace subsystem name help labels =
     \<lparr>dc_namespace = namespace, dc_subsystem = subsystem, dc_name = name, dc_help = help, dc_labels = labels\<rparr>"

definition vppIPv4RouteTotal :: Desc where
  "vppIPv4RouteTotal = NewDesc ''vpp'' ''ipv4_route'' ''total'' ''Number of ipv4 routes in the vrf'' [''table'']"

definition vppFIPRouteTotal :: Desc where
  "vppFIPRouteTotal = NewDesc ''vpp'' ''floating_ip_route'' ''total'' ''Number of floating ip routes in the vrf'' [''table'']"

definition vppUDPTunnelTotal :: Desc where
  "vppUDPTunnelTotal = NewDesc ''vpp'' ''udp_tunnel'' ''total'' ''Number of udp tunnels'' [''table'']"

definition vppNetworkInterfaceID :: Desc where
  "vppNetworkInterfaceID =   NewDesc ''vpp'' ''network'' ''interface_id'' ''vpp_network_interface_id interface_id value'' [''interface'']"

definition vppNetworkRxPacketCount :: Desc where
  "vppNetworkRxPacketCount =   NewDesc ''vpp'' ''network'' ''rx_packet_count'' ''vpp_network_rx_packet_count Network device statistic rx_packets'' [''interface'']"

definition vppNetworkRxByteCount :: Desc where
  "vppNetworkRxByteCount =   NewDesc ''vpp'' ''network'' ''rx_byte_count'' ''vpp_network_rx_byte_count Network device statistic rx_bytes'' [''interface'']"

definition vppNetworkRxErrorCount :: Desc where
  "vppNetworkRxErrorCount =   NewDesc ''vpp'' ''network'' ''rx_error_count'' ''vpp_network_rx_error_count Network device statistic rx_errs'' [''interface'']"

definition vppNetworkTxPacketCount :: Desc where
  "vppNetworkTxPacketCount =   NewDesc ''vpp'' ''network'' ''tx_packet_count'' ''vpp_network_tx_packet_count Network device statistic tx_packets'' [''interface'']"

definition vppNetworkTxByteCount :: Desc where
  "vppNetworkTxByteCount =   NewDesc ''vpp'' ''network'' ''tx_byte_count'' ''vpp_network_tx_byte_count Network device statistic tx_bytes'' [''interface'']"

definition vppNetworkTxErrorCount :: Desc where
  "vppNetworkTxErrorCount =   NewDesc ''vpp'' ''network'' ''tx_error_count'' ''vpp_network_tx_error_count Network device statistic tx_errs'' [''interface'']"

definition vppNetworkDropCount :: Desc where
  "vppNetworkDropCount =   NewDesc ''vpp'' ''network'' ''drop_count'' ''vpp_network_drop_count Network device statistic drop'' [''interface'']"

definition gobgpVRFCount :: Desc where
  "gobgpVRFCount = NewDesc ''gobgp'' ''vrf'' ''total'' ''Number of GoBGP VRF'' []"

definition gobgpPeerCount :: Desc where
  "gobgpPeerCount = NewDesc ''gobgp'' ''peer'' ''total'' ''Number of GoBGP peer'' []"

definition gobgpActivePeerCount :: Desc where
  "gobgpActivePeerCount = NewDesc ''gobgp'' ''active_peer'' ''total'' ''Number of GoBGP active peer'' []"

definition gobgpIPv4RouteRcvd :: Desc where
  "gobgpIPv4RouteRcvd = NewDesc ''gobgp'' ''ipv4_route_received'' ''total'' ''Number of received IPv4 routes'' [''peer'']"

definition gobgpIPv4RouteAdvd :: Desc where
  "gobgpIPv4RouteAdvd = NewDesc ''gobgp'' ''ipv4_route_advertised'' ''total'' ''Number of advertized IPv4 routes'' [''peer'']"

definition gobgpVpnv4RouteRcvd :: Desc where
  "gobgpVpnv4RouteRcvd = NewDesc ''gobgp'' ''vpnv4_route_received'' ''total'' ''Number of received VPNv4 routes'' [''peer'']"

definition gobgpVpnv4RouteAdvd :: Desc where
  "gobgpVpnv4RouteAdvd = NewDesc ''gobgp'' ''vpnv4_route_advertised'' ''total'' ''Number of advertized VPNv4 routes'' [''peer'']"

lemmas vpp_descs = vppIPv4RouteTotal_def vppFIPRouteTotal_def vppUDPTunnelTotal_def vppNetworkInterfaceID_def
  vppNetworkRxPacketCount_def vppNetworkRxByteCount_def vppNetworkRxErrorCount_def vppNetworkTxPacketCount_def
  vppNetworkTxByteCount_def vppNetworkTxErrorCount_def vppNetworkDropCount_def

lemmas gobgp_descs = gobgpVRFCount_def gobgpPeerCount_def gobgpActivePeerCount_def gobgpIPv4RouteRcvd_def
  gobgpIPv4RouteAdvd_def gobgpVpnv4RouteRcvd_def gobgpVpnv4RouteAdvd_def

section \<open>prometheus_exporter.go\<close>

datatype ValueType = CounterValue | GaugeValue

text \<open>A sample as the library makes it: descriptor, kind, value and the values of the labels.\<close>

record sample =
  sm_desc :: Desc
  sm_type :: ValueType
  sm_value :: int
  sm_labels :: "string list"

type_synonym mk_metric = "Desc \<Rightarrow> ValueType \<Rightarrow> int \<Rightarrow> string list \<Rightarrow> sample option"

definition vpp_Describe :: "Desc list" where
  "vpp_Describe = [vppIPv4RouteTotal, vppFIPRouteTotal, vppUDPTunnelTotal, vppNetworkInterfaceID, vppNetworkRxPacketCount,
     vppNetworkRxByteCount, vppNetworkRxErrorCount, vppNetworkTxPacketCount, vppNetworkTxByteCount, vppNetworkTxErrorCount,
     vppNetworkDropCount]"

definition gobgp_Describe :: "Desc list" where
  "gobgp_Describe = [gobgpVRFCount, gobgpPeerCount, gobgpActivePeerCount, gobgpIPv4RouteRcvd, gobgpIPv4RouteAdvd,
     gobgpVpnv4RouteRcvd, gobgpVpnv4RouteAdvd]"

text \<open>The calls of \<^verbatim>\<open>MustNewConstMetric\<close> one after the other; the first panic ends them.\<close>

fun send_all :: "mk_metric \<Rightarrow> (Desc \<times> ValueType \<times> int \<times> string list) list \<Rightarrow> sample list go" where
  "send_all mk [] = Some []"
| "send_all mk ((d, ty, v, ls) # cs) = do {
     m \<leftarrow> mk d ty v ls;
     ms \<leftarrow> send_all mk cs;
     Some (m # ms)
   }"

definition vrf_calls :: "VPPVRFMetric \<Rightarrow> (Desc \<times> ValueType \<times> int \<times> string list) list" where
  "vrf_calls m = [(vppIPv4RouteTotal, GaugeValue, int (vm_IPv4RouteTotal m), [vm_VRFName m]),
     (vppFIPRouteTotal, GaugeValue, int (vm_FIPRouteTotal m), [vm_VRFName m])]"

definition if_calls :: "VPPInterfaceMetric \<Rightarrow> (Desc \<times> ValueType \<times> int \<times> string list) list" where
  "if_calls i = [(vppNetworkInterfaceID, GaugeValue, uint (im_interfaceID i), [im_interfaceName i]),
     (vppNetworkRxPacketCount, GaugeValue, int (im_rxPackets i), [im_interfaceName i]),
     (vppNetworkRxByteCount, GaugeValue, int (im_rxBytes i), [im_interfaceName i]),
     (vppNetworkRxErrorCount, GaugeValue, int (im_rxErrors i), [im_interfaceName i]),
     (vppNetworkTxPacketCount, GaugeValue, int (im_txPackets i), [im_interfaceName i]),
     (vppNetworkTxByteCount, GaugeValue, int (im_txBytes i), [im_interfaceName i]),
     (vppNetworkTxErrorCount, GaugeValue, int (im_txErrors i), [im_interfaceName i]),
     (vppNetworkDropCount, GaugeValue, int (im_dropPackets i), [im_interfaceName i])]"

definition vpp_Collect :: "mk_metric \<Rightarrow> VPPVRFMetric list \<Rightarrow> nat \<Rightarrow> VPPInterfaceMetric list \<Rightarrow> sample list go" where
  "vpp_Collect mk vrfs tunnels interfaces =
     send_all mk (concat (map vrf_calls vrfs) @ [(vppUDPTunnelTotal, GaugeValue, int tunnels, [''default''])] @
       concat (map if_calls interfaces))"

definition peer_calls :: "string \<times> GoBGPPerPeerMetric \<Rightarrow> (Desc \<times> ValueType \<times> int \<times> string list) list" where
  "peer_calls x = (case x of (peer, m) \<Rightarrow>
     [(gobgpIPv4RouteRcvd, CounterValue, int (pm_IPv4RouteRcvd m), [peer]),
      (gobgpIPv4RouteAdvd, CounterValue, int (pm_IPv4RouteAdvd m), [peer]),
      (gobgpVpnv4RouteRcvd, CounterValue, int (pm_Vpnv4RouteRcvd m), [peer]),
      (gobgpVpnv4RouteAdvd, CounterValue, int (pm_Vpnv4RouteAdvd m), [peer])])"

definition gobgp_Collect :: "mk_metric \<Rightarrow> GoBGPGeneralMetric \<Rightarrow> (string \<times> GoBGPPerPeerMetric) list \<Rightarrow> sample list go" where
  "gobgp_Collect mk g peers =
     send_all mk ([(gobgpVRFCount, CounterValue, sint (gm_VRFCount g), []),
       (gobgpPeerCount, CounterValue, sint (gm_PeerCount g), []),
       (gobgpActivePeerCount, CounterValue, sint (gm_ActivePeerCount g), [])] @ concat (map peer_calls peers))"

section \<open>What the library promises, and asks\<close>

text \<open>
  \<^verbatim>\<open>MustNewConstMetric\<close> panics when the number of label values is not that of the descriptor's labels;
  gathering fails when two samples have the same descriptor and the same label values.
\<close>

definition const_metrics :: "mk_metric \<Rightarrow> bool" where
  "const_metrics mk \<longleftrightarrow> (\<forall>d ty v ls. mk d ty v ls =
     (if length ls = length (dc_labels d) then Some \<lparr>sm_desc = d, sm_type = ty, sm_value = v, sm_labels = ls\<rparr> else None))"

definition series :: "sample \<Rightarrow> Desc \<times> string list" where
  "series m = (sm_desc m, sm_labels m)"

definition call_series :: "Desc \<times> ValueType \<times> int \<times> string list \<Rightarrow> Desc \<times> string list" where
  "call_series c = (case c of (d, ty, v, ls) \<Rightarrow> (d, ls))"

definition well_labelled :: "Desc \<times> ValueType \<times> int \<times> string list \<Rightarrow> bool" where
  "well_labelled c \<longleftrightarrow> (case c of (d, ty, v, ls) \<Rightarrow> length ls = length (dc_labels d))"

lemma send_all_ok:
  "const_metrics mk \<Longrightarrow> \<forall>c \<in> set cs. well_labelled c \<Longrightarrow>
   \<exists>ms. send_all mk cs = Some ms \<and> map series ms = map call_series cs"
  by (induction mk cs rule: send_all.induct)
    (fastforce simp: const_metrics_def well_labelled_def series_def call_series_def)+

lemma distinct_concat_same:
  assumes "\<And>x y. x \<in> set xs \<Longrightarrow> y \<in> set xs \<Longrightarrow> key x \<noteq> key y \<Longrightarrow> set (f x) \<inter> set (f y) = {}"
    and "\<And>x y. x \<in> set xs \<Longrightarrow> y \<in> set xs \<Longrightarrow> key x = key y \<Longrightarrow> set (f x) \<inter> set (f y) \<noteq> {}" "\<And>x. x \<in> set xs \<Longrightarrow> distinct (f x)"
  shows "distinct (concat (map f xs)) \<longleftrightarrow> distinct (map key xs)"
  using assms
proof (induction xs)
  case (Cons x xs)
  have IH: "distinct (concat (map f xs)) \<longleftrightarrow> distinct (map key xs)"
    by (rule Cons.IH) (use Cons.prems in auto)
  have "set (f x) \<inter> (\<Union>y \<in> set xs. set (f y)) = {} \<longleftrightarrow> key x \<notin> key ` set xs"
  proof
    assume d: "set (f x) \<inter> (\<Union>y \<in> set xs. set (f y)) = {}"
    have "key x \<noteq> key y" if "y \<in> set xs" for y
      using d that Cons.prems(2) [of x y] by (auto simp del: disjoint_iff)
    then show "key x \<notin> key ` set xs" by auto
  next
    assume "key x \<notin> key ` set xs"
    then have "set (f x) \<inter> set (f y) = {}" if "y \<in> set xs" for y using Cons.prems(1) [of x y] that by auto
    then show "set (f x) \<inter> (\<Union>y \<in> set xs. set (f y)) = {}" by blast
  qed
  then show ?case using IH Cons.prems(3) [of x] by auto
qed simp

text \<open>The series of a VRF, an interface and a peer, by its name.\<close>

lemma call_series_simps:
  "map call_series (vrf_calls m) = map (\<lambda>d. (d, [vm_VRFName m])) [vppIPv4RouteTotal, vppFIPRouteTotal]"
  "map call_series (if_calls i) = map (\<lambda>d. (d, [im_interfaceName i])) (drop 3 vpp_Describe)"
  "map call_series (peer_calls x) = map (\<lambda>d. (d, [fst x])) (drop 3 gobgp_Describe)"
  by (simp_all add: vrf_calls_def if_calls_def peer_calls_def call_series_def vpp_Describe_def gobgp_Describe_def split_beta)

lemma descs_distinct: "distinct (map (\<lambda>d. (dc_namespace d, dc_subsystem d, dc_name d)) (vpp_Describe @ gobgp_Describe))"
  by code_simp

lemma distinct_named:
  assumes "ds \<noteq> []" "distinct ds"
  shows "distinct (concat (map (\<lambda>x. map (\<lambda>d. (d, [key x])) ds) xs)) \<longleftrightarrow> distinct (map key xs)"
  using assms by (intro distinct_concat_same) (auto simp: distinct_map inj_on_def neq_Nil_conv)

lemma map_concat_calls: "map f (concat (map g xs)) = concat (map (\<lambda>x. map f (g x)) xs)"
  by (induction xs) simp_all

lemma all_distinct: "distinct (vpp_Describe @ gobgp_Describe)"
  using descs_distinct unfolding distinct_map by blast

text \<open>The series of a whole collection, and the descriptors they are of.\<close>

abbreviation named :: "Desc list \<Rightarrow> ('a \<Rightarrow> string) \<Rightarrow> 'a list \<Rightarrow> (Desc \<times> string list) list" where
  "named ds key xs \<equiv> concat (map (\<lambda>x. map (\<lambda>d. (d, [key x])) ds) xs)"

lemma fst_named: "fst ` set (named ds key xs) \<subseteq> set ds"
  by auto

lemma length_named: "length (named ds key xs) = length ds * length xs"
  by (induction xs) simp_all

lemma vpp_Collect_ok:
  assumes "const_metrics mk"
  shows "\<exists>ms. vpp_Collect mk vrfs n ifs = Some ms \<and> map series ms =
    named (take 2 vpp_Describe) vm_VRFName vrfs @ [(vppUDPTunnelTotal, [''default''])] @
    named (drop 3 vpp_Describe) im_interfaceName ifs"
proof -
  let ?cs = "concat (map vrf_calls vrfs) @ [(vppUDPTunnelTotal, GaugeValue, int n, [''default''])] @ concat (map if_calls ifs)"
  have "\<forall>c \<in> set ?cs. well_labelled c"
    by (auto simp: well_labelled_def vrf_calls_def if_calls_def vpp_descs NewDesc_def)
  moreover have "take 2 vpp_Describe = [vppIPv4RouteTotal, vppFIPRouteTotal]" by (simp add: vpp_Describe_def)
  ultimately show ?thesis
    using send_all_ok [OF assms, of ?cs]
    by (simp add: vpp_Collect_def map_concat_calls call_series_simps) (simp add: call_series_def)
qed

lemma gobgp_Collect_ok:
  assumes "const_metrics mk"
  shows "\<exists>ms. gobgp_Collect mk g peers = Some ms \<and> map series ms =
    map (\<lambda>d. (d, [])) (take 3 gobgp_Describe) @ named (drop 3 gobgp_Describe) fst peers"
proof -
  let ?cs = "[(gobgpVRFCount, CounterValue, sint (gm_VRFCount g), []), (gobgpPeerCount, CounterValue, sint (gm_PeerCount g), []),
       (gobgpActivePeerCount, CounterValue, sint (gm_ActivePeerCount g), [])] @ concat (map peer_calls peers)"
  have "\<forall>c \<in> set ?cs. well_labelled c"
    by (auto simp: well_labelled_def peer_calls_def gobgp_descs NewDesc_def)
  moreover have "take 3 gobgp_Describe = [gobgpVRFCount, gobgpPeerCount, gobgpActivePeerCount]" by (simp add: gobgp_Describe_def)
  ultimately show ?thesis
    using send_all_ok [OF assms, of ?cs]
    by (simp add: gobgp_Collect_def map_concat_calls call_series_simps) (simp add: call_series_def)
qed

text \<open>Series of different descriptors are apart; those of one descriptor are told apart by the names.\<close>

lemma apart: "fst ` set xs \<subseteq> A \<Longrightarrow> fst ` set ys \<subseteq> B \<Longrightarrow> A \<inter> B = {} \<Longrightarrow> set xs \<inter> set ys = {}"
  by (auto simp: image_subset_iff)

lemma desc_groups:
  "set vpp_Describe = set (take 2 vpp_Describe) \<union> ({vppUDPTunnelTotal} \<union> set (drop 3 vpp_Describe))"
  "set gobgp_Describe = set (take 3 gobgp_Describe) \<union> set (drop 3 gobgp_Describe)"
  by (auto simp: vpp_Describe_def gobgp_Describe_def)

lemma desc_groups_apart:
  "set (take 2 vpp_Describe) \<inter> ({vppUDPTunnelTotal} \<union> set (drop 3 vpp_Describe)) = {}"
  "{vppUDPTunnelTotal} \<inter> set (drop 3 vpp_Describe) = {}"
  "set (take 3 gobgp_Describe) \<inter> set (drop 3 gobgp_Describe) = {}" "set vpp_Describe \<inter> set gobgp_Describe = {}"
  "distinct (take 2 vpp_Describe)" "distinct (drop 3 vpp_Describe)" "distinct (take 3 gobgp_Describe)" "distinct (drop 3 gobgp_Describe)"
  "take 2 vpp_Describe \<noteq> []" "drop 3 vpp_Describe \<noteq> []" "drop 3 gobgp_Describe \<noteq> []"
  using all_distinct by (simp_all add: vpp_Describe_def gobgp_Describe_def)

lemma vpp_series:
  defines "ks vrfs ifs \<equiv> named (take 2 vpp_Describe) vm_VRFName vrfs @ [(vppUDPTunnelTotal, [''default''])] @
    named (drop 3 vpp_Describe) im_interfaceName ifs"
  shows "fst ` set (ks vrfs ifs) \<subseteq> set vpp_Describe"
    "distinct (ks vrfs ifs) \<longleftrightarrow> distinct (map vm_VRFName vrfs) \<and> distinct (map im_interfaceName ifs)"
proof -
  let ?A = "named (take 2 vpp_Describe) vm_VRFName vrfs" and ?B = "[(vppUDPTunnelTotal, [''default''])]"
  let ?D = "named (drop 3 vpp_Describe) im_interfaceName ifs"
  note A = fst_named [of vm_VRFName "take 2 vpp_Describe" vrfs] and D = fst_named [of im_interfaceName "drop 3 vpp_Describe" ifs]
  have B: "fst ` set ?B \<subseteq> {vppUDPTunnelTotal}" by simp
  have BD: "fst ` set (?B @ ?D) \<subseteq> {vppUDPTunnelTotal} \<union> set (drop 3 vpp_Describe)" using B D by auto
  show "fst ` set (ks vrfs ifs) \<subseteq> set vpp_Describe" unfolding ks_def desc_groups(1) using A BD by auto
  have "set ?A \<inter> set (?B @ ?D) = {}" "set ?B \<inter> set ?D = {}"
    using apart [OF A BD desc_groups_apart(1)] apart [OF B D desc_groups_apart(2)] by blast+
  then show "distinct (ks vrfs ifs) \<longleftrightarrow> distinct (map vm_VRFName vrfs) \<and> distinct (map im_interfaceName ifs)"
    unfolding ks_def distinct_append [of ?A] distinct_append [of ?B]
    using distinct_named [OF desc_groups_apart(9,5), of vm_VRFName vrfs] distinct_named [OF desc_groups_apart(10,6), of im_interfaceName ifs] by simp
qed

lemma gobgp_series:
  defines "ks peers \<equiv> map (\<lambda>d. (d, [])) (take 3 gobgp_Describe) @ named (drop 3 gobgp_Describe) fst peers"
  shows "fst ` set (ks peers) \<subseteq> set gobgp_Describe" "distinct (ks peers) \<longleftrightarrow> distinct (map fst peers)"
proof -
  let ?E = "map (\<lambda>d. (d, [])) (take 3 gobgp_Describe) :: (Desc \<times> string list) list" and ?F = "named (drop 3 gobgp_Describe) fst peers"
  have E: "fst ` set ?E \<subseteq> set (take 3 gobgp_Describe)" by (simp add: image_image)
  note F = fst_named [of fst "drop 3 gobgp_Describe" peers]
  show "fst ` set (ks peers) \<subseteq> set gobgp_Describe" unfolding ks_def desc_groups(2) set_append image_Un using E F by blast
  have "distinct ?E" using desc_groups_apart(7) by (simp add: distinct_map inj_on_def)
  moreover have "set ?E \<inter> set ?F = {}" by (rule apart [OF E F desc_groups_apart(3)])
  ultimately show "distinct (ks peers) \<longleftrightarrow> distinct (map fst peers)"
    unfolding ks_def distinct_append using distinct_named [OF desc_groups_apart(11,8), of fst peers] by simp
qed

section \<open>Properties\<close>

text \<open>
  C37: the samples are well typed. With a library that panics on a wrong number of labels, collecting
  never panics, hands over the expected number of samples and only announced descriptors; and the
  samples of both exporters together are free of duplicates, which would make the whole scrape fail,
  if and only if no two VRFs, no two interfaces and no two peers have the same name. The metrics are
  keyed by the identifiers, so nothing in the exporters prevents two VRFs of one name.
\<close>

theorem collected_series:
  assumes "const_metrics mk"
  shows "\<exists>ms ns. vpp_Collect mk vrfs n ifs = Some ms \<and> gobgp_Collect mk g peers = Some ns \<and>
    sm_desc ` set ms \<subseteq> set vpp_Describe \<and> sm_desc ` set ns \<subseteq> set gobgp_Describe \<and>
    length ms = 2 * length vrfs + 1 + 8 * length ifs \<and> length ns = 3 + 4 * length peers \<and>
    (distinct (map series (ms @ ns)) \<longleftrightarrow>
      distinct (map vm_VRFName vrfs) \<and> distinct (map im_interfaceName ifs) \<and> distinct (map fst peers))"
proof -
  obtain ms where ms: "vpp_Collect mk vrfs n ifs = Some ms" "map series ms =
      named (take 2 vpp_Describe) vm_VRFName vrfs @ [(vppUDPTunnelTotal, [''default''])] @ named (drop 3 vpp_Describe) im_interfaceName ifs"
    using vpp_Collect_ok [OF assms] by blast
  obtain ns where ns: "gobgp_Collect mk g peers = Some ns"
      "map series ns = map (\<lambda>d. (d, [])) (take 3 gobgp_Describe) @ named (drop 3 gobgp_Describe) fst peers"
    using gobgp_Collect_ok [OF assms] by blast
  note vpp = vpp_series [of vrfs ifs, folded ms(2)] and gobgp = gobgp_series [of peers, folded ns(2)]
  have desc: "sm_desc ` set ks = fst ` set (map series ks)" for ks by (force simp: series_def)
  have "set (map series ms) \<inter> set (map series ns) = {}" by (rule apart [OF vpp(1) gobgp(1) desc_groups_apart(4)])
  then have "distinct (map series (ms @ ns)) \<longleftrightarrow>
      distinct (map vm_VRFName vrfs) \<and> distinct (map im_interfaceName ifs) \<and> distinct (map fst peers)"
    unfolding map_append distinct_append vpp(2) gobgp(2) by simp
  moreover have "length ms = 2 * length vrfs + 1 + 8 * length ifs" "length ns = 3 + 4 * length peers"
    using arg_cong [OF ms(2), of length] arg_cong [OF ns(2), of length]
    unfolding length_append length_named length_map by (simp_all add: vpp_Describe_def gobgp_Describe_def)
  ultimately show ?thesis using ms(1) ns(1) vpp(1) gobgp(1) unfolding desc by blast
qed

theorem collected_series_witness:
  "\<exists>mk. const_metrics mk \<and> (\<exists>ms ns. vpp_Collect mk [NewVPPVRFMetric ''blue'', NewVPPVRFMetric ''blue''] 0 [] = Some ms \<and>
     gobgp_Collect mk \<lparr>gm_VRFCount = 2, gm_PeerCount = 1, gm_ActivePeerCount = 1\<rparr>
       [(''192.0.2.1'', NewGoBGPPerPeerMetric)] = Some ns \<and> length ms = 5 \<and> \<not> distinct (map series (ms @ ns)))"
proof -
  let ?mk = "\<lambda>d ty v ls. if length ls = length (dc_labels d)
    then Some \<lparr>sm_desc = d, sm_type = ty, sm_value = v, sm_labels = ls\<rparr> else None"
  let ?g = "\<lparr>gm_VRFCount = 2, gm_PeerCount = 1, gm_ActivePeerCount = 1\<rparr> :: GoBGPGeneralMetric"
  have mk: "const_metrics ?mk" by (simp add: const_metrics_def)
  obtain ms ns where "vpp_Collect ?mk [NewVPPVRFMetric ''blue'', NewVPPVRFMetric ''blue''] 0 [] = Some ms"
      "gobgp_Collect ?mk ?g [(''192.0.2.1'', NewGoBGPPerPeerMetric)] = Some ns" "length ms = 2 * 2 + 1 + 8 * 0"
      "distinct (map series (ms @ ns)) \<longleftrightarrow> distinct (map vm_VRFName [NewVPPVRFMetric ''blue'', NewVPPVRFMetric ''blue''])
        \<and> distinct (map im_interfaceName []) \<and> distinct (map fst [(''192.0.2.1'', NewGoBGPPerPeerMetric)])"
    using collected_series [OF mk, of "[NewVPPVRFMetric ''blue'', NewVPPVRFMetric ''blue'']" 0 "[]" ?g
        "[(''192.0.2.1'', NewGoBGPPerPeerMetric)]"] by auto
  then show ?thesis using mk by (intro exI [of _ ?mk] exI [of _ ms] exI [of _ ns]) (simp del: map_append)
qed

end
