(* ===== verification/Logging.thy ===== *)
theory Logging
  imports Config
begin

text \<open>
  \<^verbatim>\<open>pkg/logger\<close> and \<^verbatim>\<open>pkg/logger/gobgplogger\<close>: how the logging section of the configuration becomes
  the logger of the program and the one of the GoBGP server. Writing a record is a call of \<^verbatim>\<open>slog\<close> or
  \<^verbatim>\<open>logrus\<close>; what is decided here is the least level written, the format and the stream.
\<close>

datatype level = LevelDebug | LevelInfo | LevelWarn | LevelError
datatype stream = Stdout | Stderr
datatype format = TextFormat | JSONFormat

record logger =
  lg_level :: level
  lg_format :: format
  lg_output :: stream

section \<open>logger.go\<close>

text \<open>The options of \<^verbatim>\<open>New\<close>, functions that write one field of its defaults.\<close>

record logger_cfg =
  lc_level :: string
  lc_format :: string
  lc_output :: string

definition WithLevel :: "string \<Rightarrow> logger_cfg \<Rightarrow> logger_cfg" where
  "WithLevel level s = s\<lparr>lc_level := level\<rparr>"

definition WithFormat :: "string \<Rightarrow> logger_cfg \<Rightarrow> logger_cfg" where
  "WithFormat format s = s\<lparr>lc_format := format\<rparr>"

definition WithOutput :: "string \<Rightarrow> logger_cfg \<Rightarrow> logger_cfg" where
  "WithOutput out s = s\<lparr>lc_output := out\<rparr>"

definition logLevel :: "string \<Rightarrow> level" where
  "logLevel level =
     (if level = ''debug'' then LevelDebug
      else if level = ''info'' then LevelInfo
      else if level = ''warn'' then LevelWarn
      else if level = ''error'' then LevelError
      else LevelInfo)"

definition logOutput :: "string \<Rightarrow> stream" where
  "logOutput out = (if out = ''stdout'' then Stdout else if out = ''stderr'' then Stderr else Stdout)"

definition NewLogger :: "(logger_cfg \<Rightarrow> logger_cfg) list \<Rightarrow> logger" where
  "NewLogger opts = (let cfg = fold (\<lambda>opt. opt) opts \<lparr>lc_level = ''info'', lc_format = ''json'', lc_output = ''stdout''\<rparr> in
     \<lparr>lg_level = logLevel (lc_level cfg),
      lg_format = (if lc_format cfg = ''console'' then TextFormat else JSONFormat),
      lg_output = logOutput (lc_output cfg)\<rparr>)"

text \<open>The global logger, as \<^verbatim>\<open>app.Init\<close> sets it.\<close>

definition InitLogger :: "Config \<Rightarrow> logger" where
  "InitLogger cfg = NewLogger [WithLevel (lo_Level (cfg_Logging cfg)), WithFormat (lo_Format (cfg_Logging cfg)),
     WithOutput (lo_Output (cfg_Logging cfg))]"

section \<open>gobgplogger.go\<close>

text \<open>Go's \<^verbatim>\<open>strings.ToLower\<close> on ASCII text.\<close>

definition lower_char :: "char \<Rightarrow> char" where
  "lower_char c = (let n = of_char c :: nat in if 65 \<le> n \<and> n \<le> 90 then char_of (n + 32) else c)"

definition ToLower :: "string \<Rightarrow> string" where
  "ToLower s = map lower_char s"

definition NewGoBGPLogger :: "string \<Rightarrow> string \<Rightarrow> string \<Rightarrow> logger" where
  "NewGoBGPLogger level format out =
     \<lparr>lg_level = (let l = ToLower level in
        if l = ''debug'' then LevelDebug else if l = ''info'' then LevelInfo
        else if l = ''warn'' then LevelWarn else if l = ''error'' then LevelError else LevelInfo),
      lg_format = (if ToLower format = ''json'' then JSONFormat else TextFormat),
      lg_output = (let out = ToLower out in
        if out = ''stdout'' then Stdout else if out = ''stderr'' then Stderr else Stdout)\<rparr>"

definition server_logger :: "Config \<Rightarrow> logger" where
  "server_logger cfg = NewGoBGPLogger (lo_Level (cfg_Logging cfg)) (lo_Format (cfg_Logging cfg)) (lo_Output (cfg_Logging cfg))"

section \<open>Lemmas\<close>

lemma ToLower_id [simp]:
  "ToLower ''debug'' = ''debug''" "ToLower ''info'' = ''info''" "ToLower ''warn'' = ''warn''" "ToLower ''error'' = ''error''"
  "ToLower ''stdout'' = ''stdout''" "ToLower ''stderr'' = ''stderr''" "ToLower ''console'' = ''console''"
  by (simp_all add: ToLower_def lower_char_def)

section \<open>Properties\<close>

text \<open>
  C36: the two loggers read one configuration in two ways. They write the same levels to the same
  stream except where a level or the error stream is not spelled in lower case, which only the GoBGP
  server's logger understands; and they write the same format only for \<^verbatim>\<open>console\<close> and for spellings of
  \<^verbatim>\<open>json\<close>: any other value gives JSON in the one and text in the other.
\<close>

theorem loggers_agree:
  "(lg_level (InitLogger cfg) = lg_level (server_logger cfg) \<longleftrightarrow>
      \<not> (ToLower (lo_Level (cfg_Logging cfg)) \<in> {''debug'', ''warn'', ''error''} \<and>
         lo_Level (cfg_Logging cfg) \<noteq> ToLower (lo_Level (cfg_Logging cfg)))) \<and>
   (lg_output (InitLogger cfg) = lg_output (server_logger cfg) \<longleftrightarrow>
      \<not> (ToLower (lo_Output (cfg_Logging cfg)) = ''stderr'' \<and> lo_Output (cfg_Logging cfg) \<noteq> ''stderr'')) \<and>
   (lg_format (InitLogger cfg) = lg_format (server_logger cfg) \<longleftrightarrow>
      lo_Format (cfg_Logging cfg) = ''console'' \<or> ToLower (lo_Format (cfg_Logging cfg)) = ''json'')"
proof (intro conjI)
  let ?l = "lo_Level (cfg_Logging cfg)" and ?f = "lo_Format (cfg_Logging cfg)" and ?o = "lo_Output (cfg_Logging cfg)"
  have app: "InitLogger cfg = \<lparr>lg_level = logLevel ?l, lg_format = (if ?f = ''console'' then TextFormat else JSONFormat),
      lg_output = logOutput ?o\<rparr>"
    by (simp add: InitLogger_def NewLogger_def WithLevel_def WithFormat_def WithOutput_def Let_def)
  show "lg_level (InitLogger cfg) = lg_level (server_logger cfg) \<longleftrightarrow>
      \<not> (ToLower ?l \<in> {''debug'', ''warn'', ''error''} \<and> ?l \<noteq> ToLower ?l)"
    by (auto simp: app server_logger_def NewGoBGPLogger_def logLevel_def Let_def)
  show "lg_output (InitLogger cfg) = lg_output (server_logger cfg) \<longleftrightarrow> \<not> (ToLower ?o = ''stderr'' \<and> ?o \<noteq> ''stderr'')"
    by (auto simp: app server_logger_def NewGoBGPLogger_def logOutput_def Let_def)
  show "lg_format (InitLogger cfg) = lg_format (server_logger cfg) \<longleftrightarrow> ?f = ''console'' \<or> ToLower ?f = ''json''"
    by (auto simp: app server_logger_def NewGoBGPLogger_def)
qed

end
