(* ===== verification/Bfd_Packet.thy ===== *)
theory Bfd_Packet
  imports Prelude
begin

text \<open>
  \<^verbatim>\<open>pkg/bfd/packet.go\<close> and the receiving loop of \<^verbatim>\<open>transport_server.go\<close>. The wire format is that of the
  \<^verbatim>\<open>gopacket\<close> library, which is outside the repository: \<open>G\<close> parses bytes into a packet with its layers
  and serializes a BFD layer. What is modelled is what the code adds: the checks on a parsed packet,
  the layer it builds, and which datagrams reach the sessions.
\<close>

section \<open>The BFD layer\<close>

text \<open>The four values of the two bit state field, and the number each is converted to.\<close>

datatype BFDState = AdminDown | Down | Init | Up

fun state_int :: "BFDState \<Rightarrow> int" where
  "state_int AdminDown = 0"
| "state_int Down = 1"
| "state_int Init = 2"
| "state_int Up = 3"

text \<open>The diagnostics the code uses.\<close>

abbreviation (input) BFDDiagnosticNone :: u8 where "BFDDiagnosticNone \<equiv> 0"
abbreviation (input) BFDDiagnosticTimeExpired :: u8 where "BFDDiagnosticTimeExpired \<equiv> 1"
abbreviation (input) BFDDiagnosticNeighborSignalDown :: u8 where "BFDDiagnosticNeighborSignalDown \<equiv> 3"

record BFDAuthHeader =
  ah_AuthType :: u8
  ah_KeyID :: u8
  ah_SequenceNumber :: u32
  ah_Data :: "u8 list"

text \<open>The base layer's \<^verbatim>\<open>Contents\<close> and \<^verbatim>\<open>Payload\<close> are not serialized and not modelled.\<close>

record BFD =
  b_Version :: u8
  b_Diagnostic :: u8
  b_State :: BFDState
  b_Poll :: bool
  b_Final :: bool
  b_ControlPlaneIndependent :: bool
  b_AuthPresent :: bool
  b_Demand :: bool
  b_Multipoint :: bool
  b_DetectMultiplier :: u8
  b_MyDiscriminator :: u32
  b_YourDiscriminator :: u32
  b_DesiredMinTxInterval :: u32
  b_RequiredMinRxInterval :: u32
  b_RequiredMinEchoRxInterval :: u32
  b_AuthHeader :: "BFDAuthHeader option"

section \<open>errors.go\<close>

datatype bfd_err =
    ErrBFDPacketDecode
  | ErrNoBFDLayerFound
  | ErrBFDLayerMismatch
  | ErrBFDLayer nat
  | ErrUnsupportedBFDVersion
  | ErrBFDAuthHeader
  | ErrBFDAuthType
  | ErrBFDAuthKeyID
  | ErrBFDAuthHeaderData

section \<open>The packet library\<close>

datatype LayerType = LayerTypeBFD | LayerTypePayload | LayerTypeOther string

text \<open>
  A parsed packet: whether it has an error layer, the types of its layers, and its application layer
  when that is a BFD layer.
\<close>

record packet =
  pk_ErrorLayer :: bool
  pk_Layers :: "LayerType list"
  pk_ApplicationLayer :: "BFD option"

record gopacket =
  NewPacket :: "u8 list \<Rightarrow> packet"
  SerializeTo :: "BFD \<Rightarrow> err + u8 list"

section \<open>packet.go\<close>

definition auth :: BFDAuthHeader where
  "auth = \<lparr>ah_AuthType = 2, ah_KeyID = 2, ah_SequenceNumber = 5,
     ah_Data = [0x01, 0x02, 0x03, 0x04, 0x05, 0x06, 0x07, 0x08, 0x09, 0x10, 0x11, 0x12, 0x13, 0x14, 0x15, 0x16]\<rparr>"

text \<open>The loop over the wanted layers; the check before it keeps the index in range.\<close>

fun check_each :: "(nat \<times> LayerType) list \<Rightarrow> LayerType list \<Rightarrow> bfd_err option go" where
  "check_each [] got = Some None"
| "check_each ((i, l) # want) got =
     (if l = LayerTypePayload then check_each want got
      else do {
        g \<leftarrow> at got i;
        (if g \<noteq> l then Some (Some (ErrBFDLayer i)) else check_each want got)
      })"

definition checkLayers :: "packet \<Rightarrow> LayerType list \<Rightarrow> bfd_err option go" where
  "checkLayers p want =
     (if length (pk_Layers p) < length want then Some (Some ErrBFDLayerMismatch)
      else check_each (enumerate 0 want) (pk_Layers p))"

definition validate :: "BFD \<Rightarrow> bfd_err option" where
  "validate p =
     (if b_Version p \<noteq> 1 then Some ErrUnsupportedBFDVersion
      else if \<not> b_AuthPresent p then None
      else case b_AuthHeader p of
        None \<Rightarrow> Some ErrBFDAuthHeader
      | Some h \<Rightarrow>
          if ah_AuthType h \<noteq> ah_AuthType auth then Some ErrBFDAuthType
          else if ah_KeyID h \<noteq> ah_KeyID auth then Some ErrBFDAuthKeyID
          else if ah_Data h \<noteq> ah_Data auth then Some ErrBFDAuthHeaderData
          else None)"

definition DecodePacket :: "gopacket \<Rightarrow> u8 list \<Rightarrow> (bfd_err + BFD) go" where
  "DecodePacket G packetBytes = (let p = NewPacket G packetBytes in
     if pk_ErrorLayer p then Some (Inl ErrBFDPacketDecode)
     else do {
       e \<leftarrow> checkLayers p [LayerTypeBFD];
       (case e of
          Some e \<Rightarrow> Some (Inl e)
        | None \<Rightarrow> (case pk_ApplicationLayer p of
            None \<Rightarrow> Some (Inl ErrNoBFDLayerFound)
          | Some b \<Rightarrow> (case validate b of
              Some e \<Rightarrow> Some (Inl e)
            | None \<Rightarrow> Some (Inr b))))
     })"

text \<open>A failed serialization gives the empty packet.\<close>

definition EncodePacket :: "gopacket \<Rightarrow> u8 \<Rightarrow> u8 \<Rightarrow> BFDState \<Rightarrow> bool \<Rightarrow> bool \<Rightarrow> bool \<Rightarrow> bool \<Rightarrow> bool \<Rightarrow> bool
    \<Rightarrow> u8 \<Rightarrow> u32 \<Rightarrow> u32 \<Rightarrow> u32 \<Rightarrow> u32 \<Rightarrow> u32 \<Rightarrow> BFDAuthHeader option \<Rightarrow> u8 list" where
  "EncodePacket G version diagnostic state poll final controlPlaneIndependent authPresent demand multipoint
      detectMultiplier myDiscriminator yourDiscriminator desiredMinTxInterval requiredMinRxInterval
      requiredMinEchoRxInterval authHeader =
     (case SerializeTo G \<lparr>b_Version = version, b_Diagnostic = diagnostic, b_State = state, b_Poll = poll,
          b_Final = final, b_ControlPlaneIndependent = controlPlaneIndependent, b_AuthPresent = authPresent,
          b_Demand = demand, b_Multipoint = multipoint, b_DetectMultiplier = detectMultiplier,
          b_MyDiscriminator = myDiscriminator, b_YourDiscriminator = yourDiscriminator,
          b_DesiredMinTxInterval = desiredMinTxInterval, b_RequiredMinRxInterval = requiredMinRxInterval,
          b_RequiredMinEchoRxInterval = requiredMinEchoRxInterval, b_AuthHeader = authHeader\<rparr> of
        Inl e \<Rightarrow> []
      | Inr bytes \<Rightarrow> bytes)"

section \<open>transport_server.go\<close>

text \<open>
  The receiving loop over what the socket yields, an error or a datagram with its sender: the packets
  it queues. Both \<^verbatim>\<open>break\<close> statements leave the loop, after which the listener is closed; \<open>None\<close> would
  be a panic.
\<close>

fun server_loop :: "gopacket \<Rightarrow> (err + (u8 list \<times> string)) list \<Rightarrow> (BFD \<times> string) list go" where
  "server_loop G [] = Some []"
| "server_loop G (Inl e # reads) = Some []"
| "server_loop G (Inr (bytes, addr) # reads) = do {
     r \<leftarrow> DecodePacket G bytes;
     (case r of
        Inl e \<Rightarrow> Some []
      | Inr p \<Rightarrow> do {
          queue \<leftarrow> server_loop G reads;
          Some ((p, addr) # queue)
        })
   }"

section \<open>Lemmas\<close>

text \<open>The packets \<^verbatim>\<open>gopacket\<close> can carry: five bits of diagnostic, and a header exactly when announced.\<close>

definition encodable :: "BFD \<Rightarrow> bool" where
  "encodable p \<longleftrightarrow> b_Version p < 8 \<and> b_Diagnostic p < 32 \<and> (b_AuthPresent p \<longleftrightarrow> b_AuthHeader p \<noteq> None)"

text \<open>What is documented of the library: it parses what it serialized as that one layer.\<close>

definition codec_ok :: "gopacket \<Rightarrow> bool" where
  "codec_ok G \<longleftrightarrow> (\<forall>p. encodable p \<longrightarrow> (\<exists>bytes. SerializeTo G p = Inr bytes \<and>
     NewPacket G bytes = \<lparr>pk_ErrorLayer = False, pk_Layers = [LayerTypeBFD], pk_ApplicationLayer = Some p\<rparr>))"

lemma checkLayers_BFD: "checkLayers p [LayerTypeBFD] \<noteq> None"
  by (cases "pk_Layers p") (simp_all add: checkLayers_def)

lemma DecodePacket_total: "DecodePacket G bytes \<noteq> None"
  using checkLayers_BFD [of "NewPacket G bytes"]
  by (auto simp: DecodePacket_def Let_def split: option.splits)

lemma server_loop_total: "server_loop G reads \<noteq> None"
proof (induction G reads rule: server_loop.induct)
  case (3 G bytes addr reads)
  obtain r where "DecodePacket G bytes = Some r" using DecodePacket_total [of G bytes] by blast
  then show ?case using 3 by (cases r) auto
qed simp_all

lemma validate_None:
  "validate p = None \<longleftrightarrow> b_Version p = 1 \<and> (b_AuthPresent p \<longrightarrow>
     (\<exists>h. b_AuthHeader p = Some h \<and> ah_AuthType h = 2 \<and> ah_KeyID h = 2 \<and> ah_Data h = ah_Data auth))"
  by (auto simp: validate_def auth_def split: option.splits)

lemma DecodePacket_Inr:
  "DecodePacket G bytes = Some (Inr p) \<longleftrightarrow>
     \<not> pk_ErrorLayer (NewPacket G bytes) \<and> pk_Layers (NewPacket G bytes) \<noteq> [] \<and>
     hd (pk_Layers (NewPacket G bytes)) = LayerTypeBFD \<and> pk_ApplicationLayer (NewPacket G bytes) = Some p \<and>
     validate p = None"
  by (cases "pk_Layers (NewPacket G bytes)")
    (auto simp: DecodePacket_def Let_def checkLayers_def split: option.splits if_splits)

lemma decode_serialized:
  assumes "codec_ok G" "encodable p" "validate p = None" "SerializeTo G p = Inr bytes"
  shows "DecodePacket G bytes = Some (Inr p)"
  using assms unfolding DecodePacket_Inr codec_ok_def by force

text \<open>A run of datagrams that all decode.\<close>

lemma server_loop_append:
  "\<forall>(bytes, p, addr) \<in> set good. DecodePacket G bytes = Some (Inr p) \<Longrightarrow>
     server_loop G (map (\<lambda>(bytes, p, addr). Inr (bytes, addr)) good @ reads) =
     map_option ((@) (map (\<lambda>(bytes, p, addr). (p, addr)) good)) (server_loop G reads)"
proof (induction good)
  case Nil
  show ?case by (cases "server_loop G reads") simp_all
next
  case (Cons x good)
  obtain bytes p addr where x: "x = (bytes, p, addr)" by (cases x)
  then show ?case using Cons by (cases "server_loop G reads") simp_all
qed

section \<open>Properties\<close>

text \<open>
  C34: what gets past the decoder. Decoding never panics; a packet is accepted exactly when the bytes
  parse without error, their first layer is a BFD layer, its version is 1 and, where it announces
  authentication, it carries the configured key type, key id and data.
\<close>

theorem DecodePacket_accepts:
  "(\<exists>r. DecodePacket G bytes = Some r) \<and>
   (DecodePacket G bytes = Some (Inr p) \<longleftrightarrow>
     \<not> pk_ErrorLayer (NewPacket G bytes) \<and> (\<exists>rest. pk_Layers (NewPacket G bytes) = LayerTypeBFD # rest) \<and>
     pk_ApplicationLayer (NewPacket G bytes) = Some p \<and> b_Version p = 1 \<and>
     (b_AuthPresent p \<longrightarrow> (\<exists>h. b_AuthHeader p = Some h \<and> ah_AuthType h = ah_AuthType auth \<and> ah_KeyID h = ah_KeyID auth \<and>
        ah_Data h = ah_Data auth)))"
proof -
  have "(\<exists>rest. ls = LayerTypeBFD # rest) = (ls \<noteq> [] \<and> hd ls = LayerTypeBFD)" for ls by (cases ls) auto
  then show ?thesis
    using DecodePacket_total [of G bytes] by (auto simp: DecodePacket_Inr validate_None auth_def)
qed

text \<open>
  One bad datagram silences the receiver. Whatever was received before is delivered, but after the
  first datagram that does not decode nothing is, however many valid ones follow it: the loop ends
  and the socket is closed, so that every session served by it will time out.
\<close>

theorem server_loop_stops:
  assumes "\<forall>(bytes, p, addr) \<in> set good. DecodePacket G bytes = Some (Inr p)"
    and "DecodePacket G bad = Some (Inl e)"
  shows "server_loop G (map (\<lambda>(bytes, p, addr). Inr (bytes, addr)) good @ Inr (bad, sender) # later) =
     Some (map (\<lambda>(bytes, p, addr). (p, addr)) good)"
  using server_loop_append [OF assms(1)] assms(2) by simp

text \<open>
  A library on which the decoder can be run: it carries one packet, the byte 1, and anything else
  fails to parse.
\<close>

definition sample_bfd :: "BFDState \<Rightarrow> BFD" where
  "sample_bfd st = \<lparr>b_Version = 1, b_Diagnostic = 0, b_State = st, b_Poll = False, b_Final = False,
     b_ControlPlaneIndependent = False, b_AuthPresent = False, b_Demand = False, b_Multipoint = False,
     b_DetectMultiplier = 3, b_MyDiscriminator = 7, b_YourDiscriminator = 0, b_DesiredMinTxInterval = 1000000,
     b_RequiredMinRxInterval = 400000, b_RequiredMinEchoRxInterval = 0, b_AuthHeader = None\<rparr>"

definition one_packet :: gopacket where
  "one_packet = \<lparr>NewPacket = (\<lambda>bytes. if bytes = [1]
       then \<lparr>pk_ErrorLayer = False, pk_Layers = [LayerTypeBFD], pk_ApplicationLayer = Some (sample_bfd Down)\<rparr>
       else \<lparr>pk_ErrorLayer = True, pk_Layers = [], pk_ApplicationLayer = None\<rparr>),
     SerializeTo = (\<lambda>p. if p = sample_bfd Down then Inr [1] else Inl (ExtErr ''not supported''))\<rparr>"

theorem DecodePacket_accepts_witness:
  "DecodePacket one_packet [1] = Some (Inr (sample_bfd Down)) \<and>
   DecodePacket one_packet [2] \<noteq> Some (Inr (sample_bfd Down))"
  using DecodePacket_accepts [of one_packet "[1]" "sample_bfd Down"] DecodePacket_accepts [of one_packet "[2]" "sample_bfd Down"]
  by (simp add: one_packet_def sample_bfd_def)

theorem server_loop_stops_witness:
  "server_loop one_packet [Inr ([1], ''192.0.2.1:49152''), Inr ([], ''198.51.100.9:4000''), Inr ([1], ''192.0.2.1:49152'')] =
     Some [(sample_bfd Down, ''192.0.2.1:49152'')]"
proof -
  have "DecodePacket one_packet [1] = Some (Inr (sample_bfd Down))" by code_simp
  moreover have "DecodePacket one_packet [] = Some (Inl ErrBFDPacketDecode)" by code_simp
  ultimately show ?thesis
    using server_loop_stops [of "[([1], sample_bfd Down, ''192.0.2.1:49152'')]" one_packet "[]" ErrBFDPacketDecode
        "''198.51.100.9:4000''" "[Inr ([1], ''192.0.2.1:49152'')]"] by simp
qed

end
