(* ===== verification/Bfd_Session.thy ===== *)
theory Bfd_Session
  imports Complex_Main Bfd_Packet
begin

text \<open>
  \<^verbatim>\<open>pkg/bfd/session.go\<close>: one BFD session. Its three goroutines are three kinds of steps over the same
  \<open>Session\<close>: a received packet (\<^verbatim>\<open>RxPacket\<close>), an iteration of the sending loop (\<^verbatim>\<open>sessionLoop\<close>) and an
  iteration of the failure detector (\<^verbatim>\<open>DetectFailure\<close>). The socket is the record \<open>link\<close>.
\<close>

section \<open>The session\<close>

abbreviation (input) DesiredMinTXInterval :: u32 where "DesiredMinTXInterval \<equiv> 1000000"

text \<open>A connection: \<^verbatim>\<open>nil\<close> is \<open>None\<close>; a closed one is still there, but every write to it fails.\<close>

datatype conn = ConnOpen | ConnClosed

text \<open>
  \<open>se_clientDown\<close>, \<open>se_clientQuit\<close> and \<open>se_BFDDone\<close> say of a channel that it is closed or, for the
  second, that a value waits on it: what a \<^verbatim>\<open>select\<close> can see. Times are in milliseconds.
\<close>

record Session =
  se_conn :: "conn option"
  se_clientDown :: bool
  se_clientQuit :: bool
  se_BFDDone :: bool
  se_LocalIP :: string
  se_RemoteIP :: string
  se_Passive :: bool
  se_RxInterval :: int
  se_TxInterval :: int
  se_State :: BFDState
  se_RemoteState :: BFDState
  se_LocalDiscr :: u32
  se_RemoteDiscr :: u32
  se_LocalDiag :: u8
  se_desiredMinTxInterval :: u32
  se_requiredMinRxInterval :: u32
  se_remoteMinRxInterval :: u32
  se_DemandMode :: bool
  se_RemoteDemandMode :: bool
  se_DetectMult :: u8
  se_AuthType :: bool
  se_asyncTxInterval :: u32
  se_finalAsyncTxInterval :: u32
  se_LastRxPacketTime :: int
  se_asyncDetectTime :: u32
  se_finalAsyncDetectTime :: u32
  se_PollSequence :: bool
  se_remoteDetectMult :: u32
  se_remoteMinTxInterval :: u32

text \<open>
  The outcomes of the next dials and writes (success when exhausted), the packets written and the
  calls of the state callback, newest last.
\<close>

record link =
  lk_dials :: "err option list"
  lk_writes :: "err option list"
  lk_sent :: "u8 list list"
  lk_calls :: "(string \<times> int \<times> int) list"

definition next_outcome :: "err option list \<Rightarrow> err option \<times> err option list" where
  "next_outcome os = (case os of [] \<Rightarrow> (None, []) | e # os \<Rightarrow> (e, os))"

definition NewClient :: "link \<Rightarrow> err option \<times> link" where
  "NewClient lk = (case next_outcome (lk_dials lk) of (e, os) \<Rightarrow> (e, lk\<lparr>lk_dials := os\<rparr>))"

text \<open>The source port of a client; \<open>intN n\<close> is \<^verbatim>\<open>rand.IntN(n)\<close>, between 0 and \<open>n - 1\<close>.\<close>

definition RandInt :: "(int \<Rightarrow> int) \<Rightarrow> int \<Rightarrow> int \<Rightarrow> int" where
  "RandInt intN lo hi = (if lo \<ge> hi \<or> lo = 0 \<or> hi = 0 then hi else intN (hi - lo) + lo)"

lemma RandInt_port:
  assumes "\<And>n. 0 < n \<Longrightarrow> 0 \<le> intN n \<and> intN n < n"
  shows "49152 \<le> RandInt intN 49152 65535 \<and> RandInt intN 49152 65535 < 65535"
  using assms [of 16383] by (simp add: RandInt_def)

section \<open>Closing the connection\<close>

text \<open>
  Closing a \<^verbatim>\<open>nil\<close> connection panics, and so does closing the channel twice: both are recovered, the
  first before the channel is closed.
\<close>

definition closeConn :: "Session \<Rightarrow> Session" where
  "closeConn s = (case se_conn s of
      None \<Rightarrow> s
    | Some _ \<Rightarrow> s\<lparr>se_conn := Some ConnClosed, se_clientDown := True\<rparr>)"

definition restartTxPackets :: "Session \<Rightarrow> Session" where
  "restartTxPackets s = closeConn s"

section \<open>Intervals\<close>

definition calcDetectTime :: "u32 \<Rightarrow> u32 \<Rightarrow> u32 \<Rightarrow> u32" where
  "calcDetectTime detectMult rxInterval txInterval =
     (if detectMult = 0 \<and> rxInterval = 0 \<and> txInterval = 0 then 0
      else if rxInterval > txInterval then detectMult * rxInterval
      else detectMult * txInterval)"

definition setRemoteDetectMult :: "u32 \<Rightarrow> Session \<Rightarrow> Session" where
  "setRemoteDetectMult value s =
     (if value = se_remoteDetectMult s then s
      else s\<lparr>se_asyncDetectTime := calcDetectTime value (se_requiredMinRxInterval s) (se_remoteDetectMult s),
             se_remoteDetectMult := value\<rparr>)"

text \<open>The field written last is the one the code writes.\<close>

definition setRemoteMinTxInterval :: "u32 \<Rightarrow> Session \<Rightarrow> Session" where
  "setRemoteMinTxInterval value s =
     (if value = se_remoteMinTxInterval s then s
      else s\<lparr>se_asyncDetectTime := calcDetectTime (se_remoteDetectMult s) (se_requiredMinRxInterval s) value,
             se_remoteMinRxInterval := value\<rparr>)"

definition setRemoteMinRxInterval :: "u32 \<Rightarrow> Session \<Rightarrow> Session" where
  "setRemoteMinRxInterval value s =
     (if value = se_remoteMinRxInterval s then s
      else let oldTxInterval = se_asyncTxInterval s;
               s = s\<lparr>se_asyncTxInterval := (if value > se_desiredMinTxInterval s then value else se_desiredMinTxInterval s)\<rparr>;
               s = (if se_asyncTxInterval s < oldTxInterval then restartTxPackets s else s)
           in s\<lparr>se_remoteMinRxInterval := value\<rparr>)"

definition setRequiredMinRxInterval :: "u32 \<Rightarrow> Session \<Rightarrow> Session" where
  "setRequiredMinRxInterval value s =
     (if value = se_requiredMinRxInterval s then s
      else let detectTime = calcDetectTime (se_remoteDetectMult s) value (se_remoteMinRxInterval s);
               s = (if value < se_requiredMinRxInterval s \<and> se_State s = Up
                    then s\<lparr>se_finalAsyncDetectTime := detectTime\<rparr> else s\<lparr>se_asyncDetectTime := detectTime\<rparr>)
           in s\<lparr>se_requiredMinRxInterval := value, se_PollSequence := True\<rparr>)"

definition setDesiredMinTxInterval :: "u32 \<Rightarrow> Session \<Rightarrow> Session" where
  "setDesiredMinTxInterval value s =
     (if value = se_desiredMinTxInterval s then s
      else let txInterval = (if value > se_remoteMinRxInterval s then value else se_remoteMinRxInterval s);
               s = (if value > se_desiredMinTxInterval s \<and> se_State s = Up
                    then s\<lparr>se_finalAsyncDetectTime := txInterval\<rparr> else s\<lparr>se_asyncTxInterval := value\<rparr>)
           in s\<lparr>se_desiredMinTxInterval := value, se_PollSequence := True\<rparr>)"

section \<open>A new session\<close>

text \<open>
  \<open>r\<close> is the random number of the discriminator, a non-negative \<^verbatim>\<open>int32\<close>. The sequence numbers of the
  authentication, which nothing reads, are left out.
\<close>

definition NewSession :: "nat \<Rightarrow> string \<Rightarrow> string \<Rightarrow> bool \<Rightarrow> int \<Rightarrow> int \<Rightarrow> int \<Rightarrow> Session" where
  "NewSession r localIP remoteIP passive rxInterval txInterval detectMult =
     (let detectMult = (if detectMult \<le> 0 then 3 else detectMult);
          s = \<lparr>se_conn = None, se_clientDown = False, se_clientQuit = False, se_BFDDone = False,
               se_LocalIP = localIP, se_RemoteIP = remoteIP, se_Passive = passive,
               se_RxInterval = rxInterval, se_TxInterval = txInterval,
               se_State = Down, se_RemoteState = Down, se_LocalDiscr = of_nat (r mod 2 ^ 31), se_RemoteDiscr = 0,
               se_LocalDiag = BFDDiagnosticNone, se_desiredMinTxInterval = DesiredMinTXInterval,
               se_requiredMinRxInterval = of_int rxInterval, se_remoteMinRxInterval = 1,
               se_DemandMode = False, se_RemoteDemandMode = False, se_DetectMult = of_int detectMult,
               se_AuthType = False, se_asyncTxInterval = DesiredMinTXInterval, se_finalAsyncTxInterval = 0,
               se_LastRxPacketTime = 0, se_asyncDetectTime = 0, se_finalAsyncDetectTime = 0,
               se_PollSequence = False, se_remoteDetectMult = 0, se_remoteMinTxInterval = 0\<rparr>
      in setRequiredMinRxInterval (of_int rxInterval) (setDesiredMinTxInterval DesiredMinTXInterval s))"

section \<open>Sending\<close>

text \<open>The bytes of a control packet, and its transmission: a \<^verbatim>\<open>nil\<close> connection panics.\<close>

definition tx_bytes :: "gopacket \<Rightarrow> bool \<Rightarrow> Session \<Rightarrow> u8 list" where
  "tx_bytes G final s =
     (let demand = (se_DemandMode s \<and> se_State s = Up \<and> se_RemoteState s = Up);
          poll = (if \<not> final then se_PollSequence s else False);
          tmpAuth = (if se_AuthType s then Some auth else None)
      in EncodePacket G 1 (se_LocalDiag s) (se_State s) poll final False (se_AuthType s) demand False
           (se_DetectMult s) (se_LocalDiscr s) (se_RemoteDiscr s) (se_desiredMinTxInterval s)
           (se_requiredMinRxInterval s) 0 tmpAuth)"

definition TxPacket :: "gopacket \<Rightarrow> bool \<Rightarrow> Session \<Rightarrow> link \<Rightarrow> (Session \<times> link) go" where
  "TxPacket G final s lk = (case se_conn s of
      None \<Rightarrow> panic
    | Some ConnClosed \<Rightarrow> Some (closeConn s, lk)
    | Some ConnOpen \<Rightarrow> (case next_outcome (lk_writes lk) of
        (Some e, os) \<Rightarrow> Some (closeConn s, lk\<lparr>lk_writes := os\<rparr>)
      | (None, os) \<Rightarrow> Some (s, lk\<lparr>lk_writes := os, lk_sent := lk_sent lk @ [tx_bytes G final s]\<rparr>)))"

section \<open>Receiving\<close>

text \<open>The parts of \<^verbatim>\<open>RxPacket\<close>: what is noted of the peer, the new state, the end of a poll sequence.\<close>

definition rx_remote :: "BFD \<Rightarrow> Session \<Rightarrow> Session" where
  "rx_remote p s =
     setRemoteMinTxInterval (b_DesiredMinTxInterval p)
       (setRemoteDetectMult (ucast (b_DetectMultiplier p))
          (setRemoteMinRxInterval (b_RequiredMinRxInterval p)
             (s\<lparr>se_RemoteDiscr := b_MyDiscriminator p, se_RemoteState := b_State p, se_RemoteDemandMode := b_Demand p\<rparr>)))"

definition callFunc :: "Session \<Rightarrow> BFDState \<Rightarrow> link \<Rightarrow> link" where
  "callFunc s new lk = lk\<lparr>lk_calls := lk_calls lk @ [(se_RemoteIP s, state_int (se_State s), state_int new)]\<rparr>"

definition rx_state :: "BFD \<Rightarrow> Session \<Rightarrow> link \<Rightarrow> Session \<times> link" where
  "rx_state p s lk =
     (if b_State p = AdminDown then
        (if se_State s \<noteq> Down
         then (s\<lparr>se_LocalDiag := BFDDiagnosticNeighborSignalDown, se_State := Down,
                 se_desiredMinTxInterval := DesiredMinTXInterval\<rparr>, callFunc s Down lk)
         else (s, lk))
      else if se_State s = Down then
        (if b_State p = Down then (s\<lparr>se_State := Init\<rparr>, callFunc s Init lk)
         else if b_State p = Init
         then (setDesiredMinTxInterval (of_int (se_TxInterval s)) (s\<lparr>se_State := Up\<rparr>), callFunc s Up lk)
         else (s, lk))
      else if se_State s = Init then
        (if b_State p = Init \<or> b_State p = Up
         then (setDesiredMinTxInterval (of_int (se_TxInterval s)) (s\<lparr>se_State := Up\<rparr>), callFunc s Up lk)
         else (s, lk))
      else
        (if b_State p = Down
         then (s\<lparr>se_LocalDiag := BFDDiagnosticNeighborSignalDown, se_State := Down\<rparr>, callFunc s Down lk)
         else (s, lk)))"

definition rx_final :: "Session \<Rightarrow> Session" where
  "rx_final s =
     (let s = s\<lparr>se_PollSequence := False\<rparr>;
          s = (if se_finalAsyncTxInterval s > 0
               then s\<lparr>se_asyncTxInterval := se_finalAsyncTxInterval s, se_finalAsyncTxInterval := 0\<rparr> else s)
      in if se_finalAsyncDetectTime s > 0
         then s\<lparr>se_asyncDetectTime := se_finalAsyncDetectTime s, se_finalAsyncDetectTime := 0\<rparr> else s)"

text \<open>The three checks of the authentication flags amount to their equality.\<close>

definition RxPacket :: "gopacket \<Rightarrow> int \<Rightarrow> BFD \<Rightarrow> Session \<Rightarrow> link \<Rightarrow> (Session \<times> link) go" where
  "RxPacket G now p s lk =
     (if b_AuthPresent p \<noteq> se_AuthType s then Some (s, lk)
      else let s = rx_remote p s in
        if se_State s = AdminDown then Some (s, lk)
        else let (s, lk) = rx_state p s lk in do {
          (s, lk) \<leftarrow> (if b_Poll p then TxPacket G True s lk else Some (s, lk));
          (let s = (if b_Final p then rx_final s else s)
           in Some (s\<lparr>se_LastRxPacketTime := now\<rparr>, lk))
        })"

section \<open>The sending loop\<close>

text \<open>
  The jittered interval in microseconds, for a random number \<open>r\<close> of [0, 1); the code computes with
  \<^verbatim>\<open>float64\<close>, here the numbers are rational.
\<close>

definition tx_interval :: "rat \<Rightarrow> Session \<Rightarrow> rat" where
  "tx_interval r s =
     (if se_DetectMult s = 1 then of_nat (unat (se_asyncTxInterval s)) * (r * 0.75 + 0.15)
      else of_nat (unat (se_asyncTxInterval s)) * (1 - r * 0.25))"

definition send_allowed :: "Session \<Rightarrow> bool" where
  "send_allowed s \<longleftrightarrow> \<not> ((se_RemoteDiscr s = 0 \<and> se_Passive s) \<or> se_remoteMinRxInterval s = 0 \<or>
     (\<not> se_PollSequence s \<and> se_RemoteDemandMode s \<and> se_State s = Up \<and> se_RemoteState s = Up))"

text \<open>
  The loop of one session. \<open>lp_detectors\<close> counts the failure detectors it has started, \<open>lp_blocked\<close>
  is a loop stuck in \<^verbatim>\<open>s.clientDown <- true\<close>, which nobody receives before a detector runs, and
  \<open>lp_exited\<close> one that has returned. The flag \<^verbatim>\<open>isBdfSessionStarted\<close> is a variable of the package: an
  argument and a result of each step.
\<close>

record loop =
  lp_session :: Session
  lp_link :: link
  lp_detectors :: nat
  lp_blocked :: bool
  lp_exited :: bool

definition start_detector :: "bool \<Rightarrow> loop \<Rightarrow> bool \<times> loop" where
  "start_detector started lp =
     (if \<not> started then (True, lp\<lparr>lp_detectors := lp_detectors lp + 1\<rparr>) else (started, lp))"

definition loop_init :: "Session \<Rightarrow> link \<Rightarrow> loop" where
  "loop_init s lk = (case NewClient lk of
      (Some e, lk) \<Rightarrow> \<lparr>lp_session = s, lp_link = lk, lp_detectors = 0, lp_blocked = True, lp_exited = False\<rparr>
    | (None, lk) \<Rightarrow> \<lparr>lp_session = s\<lparr>se_conn := Some ConnOpen\<rparr>, lp_link = lk, lp_detectors = 0,
        lp_blocked = False, lp_exited = False\<rparr>)"

text \<open>The three branches of the \<^verbatim>\<open>select\<close>.\<close>

definition loop_down :: "bool \<Rightarrow> loop \<Rightarrow> bool \<times> loop" where
  "loop_down started lp = (let s = lp_session lp in case NewClient (lp_link lp) of
      (Some e, lk) \<Rightarrow> (started, lp\<lparr>lp_session := closeConn s, lp_link := lk\<rparr>)
    | (None, lk) \<Rightarrow> start_detector started
        (lp\<lparr>lp_session := s\<lparr>se_conn := Some ConnOpen, se_clientDown := False\<rparr>, lp_link := lk\<rparr>))"

definition loop_quit :: "loop \<Rightarrow> loop" where
  "loop_quit lp = lp\<lparr>lp_session := closeConn ((lp_session lp)\<lparr>se_clientQuit := False\<rparr>), lp_exited := True\<rparr>"

definition loop_default :: "gopacket \<Rightarrow> bool \<Rightarrow> loop \<Rightarrow> (bool \<times> loop) go" where
  "loop_default G started lp = do {
     (s, lk) \<leftarrow> (if send_allowed (lp_session lp) then TxPacket G False (lp_session lp) (lp_link lp)
                 else Some (lp_session lp, lp_link lp));
     Some (start_detector started (lp\<lparr>lp_session := s, lp_link := lk\<rparr>))
   }"

text \<open>
  A step of the loop: \<^verbatim>\<open>select\<close> takes any branch that is ready, and the default one when none is.
\<close>

inductive loop_step :: "gopacket \<Rightarrow> bool \<times> loop \<Rightarrow> bool \<times> loop \<Rightarrow> bool" for G where
  client_down: "\<not> lp_blocked lp \<Longrightarrow> \<not> lp_exited lp \<Longrightarrow> se_clientDown (lp_session lp) \<Longrightarrow>
     loop_step G (started, lp) (loop_down started lp)"
| client_quit: "\<not> lp_blocked lp \<Longrightarrow> \<not> lp_exited lp \<Longrightarrow> se_clientQuit (lp_session lp) \<Longrightarrow>
     loop_step G (started, lp) (started, loop_quit lp)"
| send: "\<not> lp_blocked lp \<Longrightarrow> \<not> lp_exited lp \<Longrightarrow> \<not> se_clientDown (lp_session lp) \<Longrightarrow>
     \<not> se_clientQuit (lp_session lp) \<Longrightarrow> loop_default G started lp = Some after \<Longrightarrow>
     loop_step G (started, lp) after"

inductive_cases loop_stepE [elim]: "loop_step G (started, lp) after"

section \<open>The failure detector\<close>

text \<open>
  One poll of the detector at time \<open>now\<close>, every 150 milliseconds: \<open>None\<close> inside the result is a
  detector that has returned. Closing \<^verbatim>\<open>chBFDDone\<close> a second time panics.
\<close>

definition detect_poll :: "int \<Rightarrow> Session \<Rightarrow> link \<Rightarrow> (Session \<times> link) option go" where
  "detect_poll now s lk =
     (if se_clientDown s then Some None
      else if \<not> (se_DemandMode s \<or> se_asyncDetectTime s = 0) \<and> se_State s = Up \<and>
        now - se_LastRxPacketTime s > uint (se_asyncDetectTime s) div 1000
      then (let lk = callFunc s Down lk;
                s = setDesiredMinTxInterval DesiredMinTXInterval
                      (s\<lparr>se_State := Down, se_LocalDiag := BFDDiagnosticTimeExpired\<rparr>)
            in if se_BFDDone s then panic else Some (Some (s\<lparr>se_BFDDone := True\<rparr>, lk)))
      else Some (Some (s, lk)))"

text \<open>The polls at the times of the list.\<close>

fun detect_polls :: "int list \<Rightarrow> Session \<Rightarrow> link \<Rightarrow> (Session \<times> link) option go" where
  "detect_polls [] s lk = Some (Some (s, lk))"
| "detect_polls (t # ts) s lk = do {
     r \<leftarrow> detect_poll t s lk;
     (case r of None \<Rightarrow> Some None | Some (s, lk) \<Rightarrow> detect_polls ts s lk)
   }"

section \<open>Frames\<close>

text \<open>What the setters leave alone.\<close>

lemma setter_frames [simp]:
  "se_State (closeConn s) = se_State s" "se_conn (closeConn s) = None \<longleftrightarrow> se_conn s = None"
  "se_State (setRemoteDetectMult v s) = se_State s" "se_State (setRemoteMinTxInterval v s) = se_State s"
  "se_State (setRemoteMinRxInterval v s) = se_State s" "se_State (setDesiredMinTxInterval v s) = se_State s"
  "se_conn (setRemoteDetectMult v s) = se_conn s" "se_conn (setRemoteMinTxInterval v s) = se_conn s"
  "se_conn (setRemoteMinRxInterval v s) = None \<longleftrightarrow> se_conn s = None" "se_conn (setDesiredMinTxInterval v s) = se_conn s"
  by (simp_all add: closeConn_def setRemoteDetectMult_def setRemoteMinTxInterval_def setRemoteMinRxInterval_def
      setDesiredMinTxInterval_def restartTxPackets_def Let_def split: option.splits)

text \<open>The identity of a session, which no step changes.\<close>

definition same_id :: "Session \<Rightarrow> Session \<Rightarrow> bool" where
  "same_id s s' \<longleftrightarrow> se_LocalDiscr s' = se_LocalDiscr s \<and> se_RemoteIP s' = se_RemoteIP s \<and>
     se_DetectMult s' = se_DetectMult s \<and> se_AuthType s' = se_AuthType s \<and> se_TxInterval s' = se_TxInterval s \<and>
     se_Passive s' = se_Passive s \<and> se_requiredMinRxInterval s' = se_requiredMinRxInterval s \<and>
     se_DemandMode s' = se_DemandMode s \<and> se_remoteMinTxInterval s' = se_remoteMinTxInterval s \<and>
     se_BFDDone s' = se_BFDDone s"

lemma same_id_refl [simp]: "same_id s s"
  by (simp add: same_id_def)

lemma same_id_trans: "same_id s s' \<Longrightarrow> same_id s' s'' \<Longrightarrow> same_id s s''"
  by (simp add: same_id_def)

lemma same_id_closeConn: "same_id s (closeConn s)"
  by (simp add: same_id_def closeConn_def split: option.splits)

lemma same_id_setters:
  "same_id s (setRemoteDetectMult v s)" "same_id s (setRemoteMinTxInterval v s)"
  "same_id s (setRemoteMinRxInterval v s)" "same_id s (setDesiredMinTxInterval v s)"
  by (auto simp: same_id_def setRemoteDetectMult_def setRemoteMinTxInterval_def setRemoteMinRxInterval_def
      setDesiredMinTxInterval_def restartTxPackets_def closeConn_def Let_def split: option.splits)

lemma rx_remote_id: "same_id s (rx_remote p s)"
proof -
  let ?s = "s\<lparr>se_RemoteDiscr := b_MyDiscriminator p, se_RemoteState := b_State p, se_RemoteDemandMode := b_Demand p\<rparr>"
  have "same_id s ?s" by (simp add: same_id_def)
  then show ?thesis
    unfolding rx_remote_def by (blast intro: same_id_trans same_id_setters)
qed

lemma rx_remote_frame [simp]:
  "se_State (rx_remote p s) = se_State s" "se_conn (rx_remote p s) = None \<longleftrightarrow> se_conn s = None"
  by (simp_all add: rx_remote_def)

lemma rx_remote_values:
  "se_RemoteDiscr (rx_remote p s) = b_MyDiscriminator p" "se_RemoteState (rx_remote p s) = b_State p"
  "se_RemoteDemandMode (rx_remote p s) = b_Demand p"
  by (simp_all add: rx_remote_def setRemoteDetectMult_def setRemoteMinTxInterval_def setRemoteMinRxInterval_def
      restartTxPackets_def closeConn_def Let_def split: option.splits)

text \<open>The new state is that of RFC 5880, section 6.8.6.\<close>

fun rfc5880_state :: "BFDState \<Rightarrow> BFDState \<Rightarrow> BFDState" where
  "rfc5880_state AdminDown received = AdminDown"
| "rfc5880_state local AdminDown = Down"
| "rfc5880_state Down Down = Init"
| "rfc5880_state Down Init = Up"
| "rfc5880_state Down Up = Down"
| "rfc5880_state Init Down = Init"
| "rfc5880_state Init Init = Up"
| "rfc5880_state Init Up = Up"
| "rfc5880_state Up Down = Down"
| "rfc5880_state Up Init = Up"
| "rfc5880_state Up Up = Up"

lemma rx_state_next:
  assumes "rx_state p s lk = (s', lk')"
  shows "se_State s \<noteq> AdminDown \<Longrightarrow> se_State s' = rfc5880_state (se_State s) (b_State p)"
    and "se_conn s' = se_conn s" and "same_id s s'"
    and "se_RemoteDiscr s' = se_RemoteDiscr s" "se_RemoteState s' = se_RemoteState s"
    and "se_remoteMinRxInterval s' = se_remoteMinRxInterval s" "se_asyncDetectTime s' = se_asyncDetectTime s"
    and "se_RemoteDemandMode s' = se_RemoteDemandMode s" "se_clientDown s' = se_clientDown s"
    and "lk_sent lk' = lk_sent lk" "lk_writes lk' = lk_writes lk"
    and "lk_calls lk' = lk_calls lk @
      (if se_State s' = se_State s then [] else [(se_RemoteIP s, state_int (se_State s), state_int (se_State s'))])"
  using assms
  by (cases "se_State s"; cases "b_State p";
      auto simp: rx_state_def callFunc_def setDesiredMinTxInterval_def same_id_def Let_def split: if_splits)+

lemma TxPacket_frame:
  assumes "TxPacket G final s lk = Some (s', lk')"
  shows "s' = s \<or> s' = closeConn s" and "lk_calls lk' = lk_calls lk"
    and "lk_sent lk' = lk_sent lk \<or> (lk_sent lk' = lk_sent lk @ [tx_bytes G final s] \<and> s' = s)"
  using assms by (auto simp: TxPacket_def split: option.splits conn.splits prod.splits)

lemma TxPacket_total: "TxPacket G final s lk = None \<longleftrightarrow> se_conn s = None"
  by (auto simp: TxPacket_def split: option.splits conn.splits prod.splits)

lemma closeConn_frames:
  "same_id s (closeConn s)" "se_State (closeConn s) = se_State s" "se_RemoteDiscr (closeConn s) = se_RemoteDiscr s"
  "se_RemoteState (closeConn s) = se_RemoteState s" "se_remoteMinRxInterval (closeConn s) = se_remoteMinRxInterval s"
  "se_asyncDetectTime (closeConn s) = se_asyncDetectTime s" "se_RemoteDemandMode (closeConn s) = se_RemoteDemandMode s"
  by (simp_all add: closeConn_def same_id_def split: option.splits)

lemma rx_final_frames [simp]:
  "se_State (rx_final s) = se_State s" "se_conn (rx_final s) = se_conn s" "same_id s (rx_final s)"
  "se_RemoteDiscr (rx_final s) = se_RemoteDiscr s" "se_RemoteState (rx_final s) = se_RemoteState s"
  "se_remoteMinRxInterval (rx_final s) = se_remoteMinRxInterval s" "se_RemoteDemandMode (rx_final s) = se_RemoteDemandMode s"
  by (simp_all add: rx_final_def same_id_def Let_def)

text \<open>
  A packet that is taken in: it has the session's authentication flag and the session is not
  administratively down. The final session, seen from the state part.
\<close>

definition rx_taken :: "BFD \<Rightarrow> Session \<Rightarrow> bool" where
  "rx_taken p s \<longleftrightarrow> (b_AuthPresent p \<longleftrightarrow> se_AuthType s) \<and> se_State s \<noteq> AdminDown"

lemma RxPacket_taken:
  assumes t: "rx_taken p s" and run: "RxPacket G now p s lk = Some (s', lk')"
  obtains s1 lk1 s2 where "rx_state p (rx_remote p s) lk = (s1, lk1)" "s2 = s1 \<or> s2 = closeConn s1"
    "s' = (if b_Final p then rx_final s2 else s2)\<lparr>se_LastRxPacketTime := now\<rparr>" "lk_calls lk' = lk_calls lk1"
    "lk_sent lk' = lk_sent lk1 \<or> (lk_sent lk' = lk_sent lk1 @ [tx_bytes G True s1] \<and> s2 = s1)"
proof -
  obtain s1 lk1 where st: "rx_state p (rx_remote p s) lk = (s1, lk1)" by (cases "rx_state p (rx_remote p s) lk")
  then obtain s2 where s2: "(if b_Poll p then TxPacket G True s1 lk1 else Some (s1, lk1)) = Some (s2, lk')"
    "s' = (if b_Final p then rx_final s2 else s2)\<lparr>se_LastRxPacketTime := now\<rparr>"
    using t run by (auto simp: RxPacket_def rx_taken_def Let_def split: Option.bind_splits prod.splits if_splits)
  then have "s2 = s1 \<or> s2 = closeConn s1" "lk_calls lk' = lk_calls lk1"
    "lk_sent lk' = lk_sent lk1 \<or> (lk_sent lk' = lk_sent lk1 @ [tx_bytes G True s1] \<and> s2 = s1)"
    using TxPacket_frame [of G True s1 lk1 s2 lk'] by (auto split: if_splits)
  then show thesis using that st s2 by blast
qed

lemma RxPacket_fields:
  assumes t: "rx_taken p s" and run: "RxPacket G now p s lk = Some (s', lk')"
  shows "se_State s' = rfc5880_state (se_State s) (b_State p)" "same_id s s'"
    "se_RemoteDiscr s' = b_MyDiscriminator p" "se_RemoteState s' = b_State p" "se_RemoteDemandMode s' = b_Demand p"
    "se_remoteMinRxInterval s' = se_remoteMinRxInterval (rx_remote p s)"
    "\<not> b_Final p \<Longrightarrow> se_asyncDetectTime s' = se_asyncDetectTime (rx_remote p s)"
    "se_LastRxPacketTime s' = now"
    "lk_calls lk' = lk_calls lk @ (if se_State s' = se_State s then []
       else [(se_RemoteIP s, state_int (se_State s), state_int (se_State s'))])"
proof -
  obtain s1 lk1 s2 where st: "rx_state p (rx_remote p s) lk = (s1, lk1)" and s2: "s2 = s1 \<or> s2 = closeConn s1"
    and s': "s' = (if b_Final p then rx_final s2 else s2)\<lparr>se_LastRxPacketTime := now\<rparr>"
    and calls: "lk_calls lk' = lk_calls lk1" by (rule RxPacket_taken [OF t run])
  note n = rx_state_next [OF st]
  have id2: "same_id s s2" using same_id_trans [OF rx_remote_id n(3)] s2 same_id_trans same_id_closeConn by blast
  have f: "se_State s2 = se_State s1" "se_RemoteDiscr s2 = se_RemoteDiscr s1" "se_RemoteState s2 = se_RemoteState s1"
    "se_remoteMinRxInterval s2 = se_remoteMinRxInterval s1" "se_asyncDetectTime s2 = se_asyncDetectTime s1"
    "se_RemoteDemandMode s2 = se_RemoteDemandMode s1"
    using s2 closeConn_frames by auto
  have ip: "se_RemoteIP (rx_remote p s) = se_RemoteIP s" using rx_remote_id [of s p] by (simp add: same_id_def)
  show "se_State s' = rfc5880_state (se_State s) (b_State p)"
    using s' f n(1) t by (simp add: rx_taken_def)
  have "same_id s2 (if b_Final p then rx_final s2 else s2)" by simp
  moreover have "same_id x (x\<lparr>se_LastRxPacketTime := now\<rparr>)" for x by (simp add: same_id_def)
  ultimately show "same_id s s'" unfolding s' using id2 same_id_trans by blast
  show "se_RemoteDiscr s' = b_MyDiscriminator p" "se_RemoteState s' = b_State p" "se_RemoteDemandMode s' = b_Demand p"
    "se_remoteMinRxInterval s' = se_remoteMinRxInterval (rx_remote p s)"
    using s' f n rx_remote_values by simp_all
  show "\<not> b_Final p \<Longrightarrow> se_asyncDetectTime s' = se_asyncDetectTime (rx_remote p s)" using s' f n by simp
  show "se_LastRxPacketTime s' = now" by (simp add: s')
  show "lk_calls lk' = lk_calls lk @ (if se_State s' = se_State s then []
       else [(se_RemoteIP s, state_int (se_State s), state_int (se_State s'))])"
    using s' f n calls ip by simp
qed

lemma RxPacket_total: "se_conn s \<noteq> None \<Longrightarrow> RxPacket G now p s lk \<noteq> None"
proof -
  assume c: "se_conn s \<noteq> None"
  obtain s1 lk1 where st: "rx_state p (rx_remote p s) lk = (s1, lk1)" by (cases "rx_state p (rx_remote p s) lk")
  then have "se_conn s1 \<noteq> None" using rx_state_next(2) [OF st] c by simp
  then have "TxPacket G True s1 lk1 \<noteq> None" by (simp add: TxPacket_total)
  then show ?thesis using st by (auto simp: RxPacket_def Let_def)
qed

section \<open>Properties\<close>

lemma RxPacket_None: "RxPacket G now p s lk = None \<longleftrightarrow> rx_taken p s \<and> b_Poll p \<and> se_conn s = None"
proof -
  obtain s1 lk1 where st: "rx_state p (rx_remote p s) lk = (s1, lk1)" by (cases "rx_state p (rx_remote p s) lk")
  then have "TxPacket G True s1 lk1 = None \<longleftrightarrow> se_conn s = None" using rx_state_next(2) [OF st] by (simp add: TxPacket_total)
  then show ?thesis using st by (auto simp: RxPacket_def rx_taken_def Let_def split: Option.bind_splits)
qed

text \<open>The detection time computed from a packet, as a number.\<close>

lemma calcDetectTime_value:
  "tx \<noteq> 0 \<Longrightarrow> uint (calcDetectTime m rx tx) = (uint m * max (uint rx) (uint tx)) mod 2 ^ 32"
  by (auto simp: calcDetectTime_def uint_word_ariths word_less_alt max_def)

lemma rx_remote_intervals:
  assumes "se_remoteMinTxInterval s = 0" "b_DesiredMinTxInterval p \<noteq> 0"
  shows "se_remoteMinRxInterval (rx_remote p s) = b_DesiredMinTxInterval p"
    and "se_asyncDetectTime (rx_remote p s) =
      calcDetectTime (ucast (b_DetectMultiplier p)) (se_requiredMinRxInterval s) (b_DesiredMinTxInterval p)"
  using assms
  by (auto simp: rx_remote_def setRemoteDetectMult_def setRemoteMinTxInterval_def setRemoteMinRxInterval_def
      restartTxPackets_def closeConn_def Let_def split: option.splits)

text \<open>
  C11: the session follows the state machine of RFC 5880, section 6.8.6. A packet with the session's
  authentication flag, received on a session that is not administratively down, moves it to the
  state the standard prescribes for the local and the received state; the callback is called once
  when the state changes, with the old and the new state, and not otherwise; the peer's
  discriminator and state and the time of the packet are noted. The channel that ends the program is
  never closed here, also when the peer signals that the session went from up to down.
\<close>

theorem RxPacket_state:
  assumes "b_AuthPresent p = se_AuthType s" "se_State s \<noteq> AdminDown" "se_conn s \<noteq> None"
  shows "\<exists>s' lk'. RxPacket G now p s lk = Some (s', lk') \<and>
    se_State s' = rfc5880_state (se_State s) (b_State p) \<and>
    se_RemoteDiscr s' = b_MyDiscriminator p \<and> se_RemoteState s' = b_State p \<and> se_LastRxPacketTime s' = now \<and>
    lk_calls lk' = lk_calls lk @ (if se_State s' = se_State s then []
      else [(se_RemoteIP s, state_int (se_State s), state_int (se_State s'))]) \<and>
    se_BFDDone s' = se_BFDDone s"
proof -
  have t: "rx_taken p s" using assms by (simp add: rx_taken_def)
  obtain s' lk' where run: "RxPacket G now p s lk = Some (s', lk')" using RxPacket_total [OF assms(3)] by fastforce
  have "se_BFDDone s' = se_BFDDone s" using RxPacket_fields(2) [OF t run] by (simp add: same_id_def)
  then show ?thesis using run RxPacket_fields [OF t run] by blast
qed

definition a_session :: Session where
  "a_session = (NewSession 7 ''192.0.2.1'' ''192.0.2.2'' False 400000 400000 3)\<lparr>se_conn := Some ConnOpen\<rparr>"

definition no_link :: link where
  "no_link = \<lparr>lk_dials = [], lk_writes = [], lk_sent = [], lk_calls = []\<rparr>"

theorem RxPacket_state_witness:
  "\<exists>s' lk'. RxPacket one_packet 5 (sample_bfd Init) a_session no_link = Some (s', lk') \<and> se_State s' = Up \<and>
     lk_calls lk' = [(''192.0.2.2'', 1, 3)]"
proof -
  have "b_AuthPresent (sample_bfd Init) = se_AuthType a_session" "se_State a_session = Down" "se_conn a_session \<noteq> None"
    "se_RemoteIP a_session = ''192.0.2.2''" "lk_calls no_link = []" "b_State (sample_bfd Init) = Init"
    by (simp_all add: sample_bfd_def a_session_def NewSession_def setRequiredMinRxInterval_def setDesiredMinTxInterval_def
        no_link_def)
  then show ?thesis
    using RxPacket_state [of "sample_bfd Init" a_session one_packet 5 no_link] by fastforce
qed

text \<open>
  C26: when a received packet brings the process down. It does exactly when it is taken in, has the
  poll bit and the session has no connection yet, because its first dial failed or has not returned:
  the answer is written to a \<^verbatim>\<open>nil\<close> connection. Anybody can send such a packet, since one without a
  discriminator is matched by its source address alone.
\<close>

theorem RxPacket_panics:
  "RxPacket G now p s lk = panic \<longleftrightarrow>
     b_AuthPresent p = se_AuthType s \<and> se_State s \<noteq> AdminDown \<and> b_Poll p \<and> se_conn s = None"
  by (auto simp: RxPacket_None rx_taken_def)



text \<open>
  A peer that asks for silence is not heard. RFC 5880, section 6.8.7, forbids periodic packets to
  a peer that announces a required minimum receive interval of zero. The code checks for it, but
  \<^verbatim>\<open>setRemoteMinTxInterval\<close> overwrites the field with the peer's transmit interval: after any packet
  with a desired transmit interval, what the next sending step reads is that interval, and the
  session keeps sending unless one of the other two conditions stops it.
\<close>

theorem RxPacket_silence_ignored:
  assumes "se_remoteMinTxInterval s = 0" "b_RequiredMinRxInterval p = 0" "b_DesiredMinTxInterval p \<noteq> 0"
    and "b_AuthPresent p = se_AuthType s" "se_State s \<noteq> AdminDown"
    and run: "RxPacket G now p s lk = Some (s', lk')"
  shows "se_remoteMinRxInterval s' = b_DesiredMinTxInterval p \<and>
    (send_allowed s' \<longleftrightarrow> \<not> (b_MyDiscriminator p = 0 \<and> se_Passive s) \<and>
      \<not> (\<not> se_PollSequence s' \<and> b_Demand p \<and> se_State s' = Up \<and> b_State p = Up))"
proof -
  have t: "rx_taken p s" using assms by (simp add: rx_taken_def)
  note f = RxPacket_fields [OF t run]
  have "se_remoteMinRxInterval s' = b_DesiredMinTxInterval p"
    using f(6) rx_remote_intervals(1) [of s p] assms(1,3) by simp
  then show ?thesis using f(2-5) assms(3) by (simp add: send_allowed_def same_id_def)
qed

theorem RxPacket_silence_ignored_witness:
  "\<exists>s' lk'. RxPacket one_packet 5 ((sample_bfd Down)\<lparr>b_RequiredMinRxInterval := 0\<rparr>) a_session no_link = Some (s', lk') \<and>
     send_allowed s'"
proof -
  let ?p = "(sample_bfd Down)\<lparr>b_RequiredMinRxInterval := 0\<rparr>"
  have w: "se_remoteMinTxInterval a_session = 0" "b_RequiredMinRxInterval ?p = 0" "b_DesiredMinTxInterval ?p \<noteq> 0"
    "b_AuthPresent ?p = se_AuthType a_session" "se_State a_session \<noteq> AdminDown" "b_MyDiscriminator ?p = 7"
    "\<not> b_Demand ?p"
    by (simp_all add: sample_bfd_def a_session_def NewSession_def setRequiredMinRxInterval_def setDesiredMinTxInterval_def)
  obtain s' lk' where run: "RxPacket one_packet 5 ?p a_session no_link = Some (s', lk')"
    using RxPacket_total [of a_session one_packet 5 ?p no_link] by (fastforce simp: a_session_def)
  show ?thesis
    using run RxPacket_silence_ignored [OF w(1-5) run] w(6-7) by simp
qed

text \<open>One poll, on a session that is up and watched.\<close>

definition timed_out :: "Session \<Rightarrow> Session" where
  "timed_out s = (setDesiredMinTxInterval DesiredMinTXInterval
     (s\<lparr>se_State := Down, se_LocalDiag := BFDDiagnosticTimeExpired\<rparr>))\<lparr>se_BFDDone := True\<rparr>"

lemma timed_out_values [simp]:
  "se_State (timed_out s) = Down" "se_clientDown (timed_out s) = se_clientDown s"
  by (simp_all add: timed_out_def setDesiredMinTxInterval_def Let_def)

lemma detect_poll_up:
  assumes "se_State s = Up" "\<not> se_clientDown s" "\<not> se_DemandMode s" "se_asyncDetectTime s \<noteq> 0"
  shows "detect_poll t s lk =
    (if t \<le> se_LastRxPacketTime s + uint (se_asyncDetectTime s) div 1000 then Some (Some (s, lk))
     else if se_BFDDone s then panic else Some (Some (timed_out s, callFunc s Down lk)))"
proof -
  have "callFunc s Down = callFunc s Down" "lk_calls (callFunc s Down lk) = lk_calls lk @ [(se_RemoteIP s, 3, 1)]"
    using assms(1) by (simp_all add: callFunc_def)
  moreover have "setDesiredMinTxInterval v (s\<lparr>se_State := Down, se_LocalDiag := d\<rparr>)\<lparr>se_BFDDone := True\<rparr> =
      (setDesiredMinTxInterval v (s\<lparr>se_State := Down, se_LocalDiag := d\<rparr>))\<lparr>se_BFDDone := True\<rparr>" for v d by simp
  moreover have "se_BFDDone (setDesiredMinTxInterval v (s\<lparr>se_State := Down, se_LocalDiag := d\<rparr>)) = se_BFDDone s" for v d
    by (simp add: setDesiredMinTxInterval_def Let_def)
  ultimately show ?thesis using assms by (auto simp: detect_poll_def timed_out_def Let_def)
qed

lemma detect_poll_idle: "se_State s \<noteq> Up \<Longrightarrow> \<not> se_clientDown s \<Longrightarrow> detect_poll t s lk = Some (Some (s, lk))"
  by (simp add: detect_poll_def)

lemma detect_polls_idle: "se_State s \<noteq> Up \<Longrightarrow> \<not> se_clientDown s \<Longrightarrow> detect_polls ts s lk = Some (Some (s, lk))"
  by (induction ts) (simp_all add: detect_poll_idle)

text \<open>
  C14: the failure detector is exact to its polling. On a session that is up, with a connection and a
  detection time, however often and at whatever times it polls while no packet arrives: it leaves
  the session alone if no poll is later than the last packet plus the detection time, and otherwise
  takes it down exactly once, with the diagnostic of an expired detection time, one callback from up
  to down and the closing of the channel that ends the program. A timer that expired twice would
  close that channel twice, which panics.
\<close>

theorem detect_polls_effect:
  assumes "se_State s = Up" "\<not> se_clientDown s" "\<not> se_DemandMode s" "se_asyncDetectTime s \<noteq> 0"
  shows "detect_polls ts s lk =
    (if \<forall>t \<in> set ts. t \<le> se_LastRxPacketTime s + uint (se_asyncDetectTime s) div 1000 then Some (Some (s, lk))
     else if se_BFDDone s then panic
     else Some (Some (timed_out s, lk\<lparr>lk_calls := lk_calls lk @ [(se_RemoteIP s, 3, 1)]\<rparr>)))"
proof (induction ts)
  case (Cons t ts)
  have "callFunc s Down lk = lk\<lparr>lk_calls := lk_calls lk @ [(se_RemoteIP s, 3, 1)]\<rparr>"
    using assms(1) by (simp add: callFunc_def)
  then show ?case
    using Cons detect_poll_up [OF assms] assms(2) detect_polls_idle [of "timed_out s"] by simp
qed simp

definition up_session :: Session where
  "up_session = a_session\<lparr>se_State := Up, se_asyncDetectTime := 3000000, se_LastRxPacketTime := 1000\<rparr>"

theorem detect_polls_effect_witness:
  "detect_polls [3850, 4000] up_session no_link = Some (Some (up_session, no_link)) \<and>
   detect_polls [3850, 4000, 4150, 4300] up_session no_link =
     Some (Some (timed_out up_session, no_link\<lparr>lk_calls := [(''192.0.2.2'', 3, 1)]\<rparr>))"
proof -
  have "se_State up_session = Up" "\<not> se_clientDown up_session" "\<not> se_DemandMode up_session" "se_asyncDetectTime up_session \<noteq> 0"
    "se_LastRxPacketTime up_session = 1000" "uint (se_asyncDetectTime up_session) = 3000000" "\<not> se_BFDDone up_session"
    "se_RemoteIP up_session = ''192.0.2.2''" "lk_calls no_link = []"
    by (simp_all add: up_session_def a_session_def NewSession_def setRequiredMinRxInterval_def setDesiredMinTxInterval_def no_link_def)
  then show ?thesis by (simp add: detect_polls_effect del: detect_polls.simps)
qed

text \<open>
  How far the sending intervals spread. With a detection multiplier above one, the interval lies
  between three quarters of the negotiated one and all of it, as RFC 5880, section 6.8.7, demands.
  With a multiplier of one it ranges from 15 to 90 percent, although the standard and the comment
  above the code ask for at least 75 percent.
\<close>

lemma tx_interval_bounds:
  fixes s :: Session
  assumes "0 \<le> r" "r < 1"
  defines "T \<equiv> of_nat (unat (se_asyncTxInterval s)) :: rat"
  shows "if se_DetectMult s = 1 then tx_interval 0 s = T * (15 / 100) \<and>
      T * (15 / 100) \<le> tx_interval r s \<and> tx_interval r s \<le> T * (9 / 10)
    else T * (3 / 4) \<le> tx_interval r s \<and> tx_interval r s \<le> T"
proof -
  have T: "0 \<le> T" unfolding T_def by (rule of_nat_0_le_iff)
  have "3 / 4 \<le> 1 - r * 0.25" "1 - r * 0.25 \<le> 1" "15 / 100 \<le> r * 0.75 + 0.15" "r * 0.75 + 0.15 \<le> 9 / 10"
    using assms(1,2) by simp_all
  note this [THEN mult_left_mono, OF T]
  then show ?thesis unfolding tx_interval_def T_def [symmetric] by simp
qed

section \<open>The sessions of the process\<close>

text \<open>
  The loops of all sessions created so far, with the flag they share: a session is added, its loop
  takes a step, it receives a packet, its detector polls, or it is asked to quit.
\<close>

inductive loops :: "gopacket \<Rightarrow> bool \<times> loop list \<Rightarrow> bool" for G where
  none: "loops G (False, [])"
| add: "loops G (started, lps) \<Longrightarrow> loops G (started, lps @ [loop_init s lk])"
| step: "loops G (started, lps) \<Longrightarrow> i < length lps \<Longrightarrow> loop_step G (started, lps ! i) (started', lp) \<Longrightarrow>
    loops G (started', lps[i := lp])"
| packet: "loops G (started, lps) \<Longrightarrow> i < length lps \<Longrightarrow>
    RxPacket G now p (lp_session (lps ! i)) (lp_link (lps ! i)) = Some (s, lk) \<Longrightarrow>
    loops G (started, lps[i := (lps ! i)\<lparr>lp_session := s, lp_link := lk\<rparr>])"
| poll: "loops G (started, lps) \<Longrightarrow> i < length lps \<Longrightarrow> lp_detectors (lps ! i) > 0 \<Longrightarrow>
    detect_poll now (lp_session (lps ! i)) (lp_link (lps ! i)) = Some (Some (s, lk)) \<Longrightarrow>
    loops G (started, lps[i := (lps ! i)\<lparr>lp_session := s, lp_link := lk\<rparr>])"
| quit: "loops G (started, lps) \<Longrightarrow> i < length lps \<Longrightarrow>
    loops G (started, lps[i := (lps ! i)\<lparr>lp_session := (lp_session (lps ! i))\<lparr>se_clientQuit := True\<rparr>\<rparr>])"

lemma loop_step_detectors:
  "loop_step G (started, lp) (started', lp') \<Longrightarrow> (started \<longrightarrow> started') \<and>
     lp_detectors lp' + of_bool started = lp_detectors lp + of_bool started'"
  by (erule loop_stepE)
    (auto simp: loop_down_def loop_quit_def loop_default_def start_detector_def Let_def
      split: option.splits prod.splits if_splits Option.bind_splits)

lemma loop_init_detectors [simp]: "lp_detectors (loop_init s lk) = 0"
  by (simp add: loop_init_def split: prod.splits option.splits)

lemma detectors_upd:
  assumes "i < length lps"
  shows "sum_list (map lp_detectors (lps[i := lp])) + lp_detectors (lps ! i) =
    sum_list (map lp_detectors lps) + lp_detectors lp"
proof -
  have "lp_detectors (lps ! i) \<in> set (map lp_detectors lps)" using assms by simp
  from member_le_sum_list [OF this] show ?thesis using assms by (simp add: map_update sum_list_update)
qed

lemma loops_detectors:
  "loops G st \<Longrightarrow> sum_list (map lp_detectors (snd st)) = of_bool (fst st)"
proof (induction rule: loops.induct)
  case (step started lps i started' lp)
  then show ?case using loop_step_detectors [OF step(3)] detectors_upd [OF step(2), of lp] by simp
next
  case (packet started lps i now p s lk)
  then show ?case using detectors_upd [OF packet(2), of "(lps ! i)\<lparr>lp_session := s, lp_link := lk\<rparr>"] by simp
next
  case (poll started lps i now s lk)
  then show ?case using detectors_upd [OF poll(2), of "(lps ! i)\<lparr>lp_session := s, lp_link := lk\<rparr>"] by simp
next
  case (quit started lps i)
  then show ?case
    using detectors_upd [OF quit(2), of "(lps ! i)\<lparr>lp_session := (lp_session (lps ! i))\<lparr>se_clientQuit := True\<rparr>\<rparr>"] by simp
qed simp_all



end
