(* ===== verification/Bfd_Control.thy ===== *)
theory Bfd_Control
  imports Bfd_Session
begin

text \<open>
  \<^verbatim>\<open>pkg/bfd/control.go\<close>: the sessions of one local address. Adding and deleting sessions, and the
  dispatch of a received packet to the session it is for. A session is kept with its socket.
\<close>

section \<open>The control\<close>

record Control =
  ct_LocalIP :: string
  ct_sessions :: "(Session \<times> link) list"

definition NewControl :: "string \<Rightarrow> Control" where
  "NewControl localIP = \<lparr>ct_LocalIP = localIP, ct_sessions = []\<rparr>"

text \<open>The intervals of the configuration are milliseconds. \<open>r\<close> is the random discriminator.\<close>

definition AddSession :: "nat \<Rightarrow> link \<Rightarrow> string \<Rightarrow> bool \<Rightarrow> int \<Rightarrow> int \<Rightarrow> int \<Rightarrow> Control \<Rightarrow> Control" where
  "AddSession r lk remoteIP passive rxInterval txInterval detectMult c =
     (let s = NewSession r (ct_LocalIP c) remoteIP passive (rxInterval * 1000) (txInterval * 1000) detectMult
      in c\<lparr>ct_sessions := ct_sessions c @ [(s, lk)]\<rparr>)"

section \<open>Dispatch\<close>

text \<open>The address before the port: Go's \<^verbatim>\<open>strings.Split(addr, ":")[0]\<close>.\<close>

definition addr_ip :: "string \<Rightarrow> string" where
  "addr_ip addr = takeWhile (\<lambda>c. c \<noteq> CHR '':'') addr"

definition packet_for :: "BFD \<Rightarrow> string \<Rightarrow> Session \<Rightarrow> bool" where
  "packet_for p addr s \<longleftrightarrow>
     (if b_YourDiscriminator p > 0 then se_LocalDiscr s = b_YourDiscriminator p else se_RemoteIP s = addr_ip addr)"

text \<open>The first session the packet is for takes it.\<close>

fun dispatch :: "gopacket \<Rightarrow> int \<Rightarrow> BFD \<Rightarrow> string \<Rightarrow> (Session \<times> link) list \<Rightarrow> (Session \<times> link) list go" where
  "dispatch G now p addr [] = Some []"
| "dispatch G now p addr ((s, lk) # rest) =
     (if packet_for p addr s then do {
        r \<leftarrow> RxPacket G now p s lk;
        Some (r # rest)
      } else do {
        rest \<leftarrow> dispatch G now p addr rest;
        Some ((s, lk) # rest)
      })"

definition processPackets :: "gopacket \<Rightarrow> int \<Rightarrow> BFD \<times> string \<Rightarrow> Control \<Rightarrow> Control go" where
  "processPackets G now rxdt c = do {
     ss \<leftarrow> dispatch G now (fst rxdt) (snd rxdt) (ct_sessions c);
     Some (c\<lparr>ct_sessions := ss\<rparr>)
   }"

text \<open>What \<^verbatim>\<open>backgroundRun\<close> does with the packets the server queues, each with its time.\<close>

fun backgroundRun :: "gopacket \<Rightarrow> (int \<times> BFD \<times> string) list \<Rightarrow> Control \<Rightarrow> Control go" where
  "backgroundRun G [] c = Some c"
| "backgroundRun G ((now, rxdt) # queue) c = do {
     c \<leftarrow> processPackets G now rxdt c;
     backgroundRun G queue c
   }"

section \<open>Deleting a session\<close>

text \<open>
  The loop of \<^verbatim>\<open>DelSession\<close> ranges over the slice as it was, \<open>arr\<close>, whose array the \<^verbatim>\<open>append\<close> inside
  overwrites; \<open>clen\<close> is the length of \<^verbatim>\<open>c.sessions\<close>. The result: the sessions asked to quit, and
  \<^verbatim>\<open>c.sessions\<close> at the end. A slice expression out of range panics, which ends the loop.
\<close>

function del_loop :: "string \<Rightarrow> nat \<Rightarrow> (Session \<times> link) list \<Rightarrow> nat \<Rightarrow> (Session \<times> link) list
    \<Rightarrow> (Session \<times> link) list \<times> (Session \<times> link) list" where
  "del_loop remoteIP i arr clen quits =
     (if i \<ge> length arr then (quits, take clen arr)
      else if se_RemoteIP (fst (arr ! i)) = remoteIP then
        (if i + 1 > clen then (quits @ [arr ! i], take clen arr)
         else del_loop remoteIP (i + 1)
           (take i arr @ drop (i + 1) (take clen arr) @ drop (clen - 1) arr) (clen - 1) (quits @ [arr ! i]))
      else del_loop remoteIP (i + 1) arr clen quits)"
  by auto
termination by (relation "measure (\<lambda>(_, i, arr, _, _). length arr - i)") auto

declare del_loop.simps [simp del]

definition DelSession :: "string \<Rightarrow> Control \<Rightarrow> (Session \<times> link) list \<times> Control" where
  "DelSession remoteIP c =
     (let (quits, ss) = del_loop remoteIP 0 (ct_sessions c) (length (ct_sessions c)) []
      in (quits, c\<lparr>ct_sessions := ss\<rparr>))"

section \<open>Lemmas\<close>

lemma dispatch_none: "\<not> (\<exists>x \<in> set ss. packet_for p addr (fst x)) \<Longrightarrow> dispatch G now p addr ss = Some ss"
  by (induction ss) auto

lemma dispatch_first:
  "\<not> (\<exists>x \<in> set pre. packet_for p addr (fst x)) \<Longrightarrow> packet_for p addr s \<Longrightarrow>
   dispatch G now p addr (pre @ (s, lk) # post) = map_option (\<lambda>r. pre @ r # post) (RxPacket G now p s lk)"
  by (induction pre) (auto split: Option.bind_splits)

lemma del_loop_to:
  "k \<le> length arr \<Longrightarrow> i \<le> k \<Longrightarrow> (\<And>j. i \<le> j \<Longrightarrow> j < k \<Longrightarrow> se_RemoteIP (fst (arr ! j)) \<noteq> remoteIP) \<Longrightarrow>
   del_loop remoteIP i arr clen quits = del_loop remoteIP k arr clen quits"
proof (induction "k - i" arbitrary: i)
  case (Suc n)
  have i: "i < k" using Suc.hyps(2) by simp
  then have "del_loop remoteIP (i + 1) arr clen quits = del_loop remoteIP k arr clen quits"
    using Suc.prems Suc.hyps(2) by (intro Suc.hyps(1)) simp_all
  moreover have "se_RemoteIP (fst (arr ! i)) \<noteq> remoteIP" using Suc.prems(3) i by simp
  ultimately show ?case using i Suc.prems(1) del_loop.simps [of remoteIP i arr clen quits] by simp
qed simp

lemma del_loop_skip:
  assumes "i \<le> length arr" "\<And>j. i \<le> j \<Longrightarrow> j < length arr \<Longrightarrow> se_RemoteIP (fst (arr ! j)) \<noteq> remoteIP"
  shows "del_loop remoteIP i arr clen quits = (quits, take clen arr)"
  using del_loop_to [of "length arr" arr i remoteIP clen quits] assms del_loop.simps [of remoteIP "length arr" arr clen quits]
  by simp

text \<open>One session of an address: the loop removes it, and what it sees afterwards is for others.\<close>

lemma del_loop_one:
  assumes pre: "\<forall>x \<in> set pre. se_RemoteIP (fst x) \<noteq> remoteIP" and x: "se_RemoteIP (fst x) = remoteIP"
    and post: "\<forall>x \<in> set post. se_RemoteIP (fst x) \<noteq> remoteIP"
  shows "del_loop remoteIP 0 (pre @ x # post) (length (pre @ x # post)) [] = ([x], pre @ post)"
proof -
  let ?arr = "pre @ x # post" and ?k = "length pre"
  let ?arr' = "pre @ post @ drop (length post) (x # post)"
  have "del_loop remoteIP 0 ?arr (length ?arr) [] = del_loop remoteIP ?k ?arr (length ?arr) []"
    using pre by (intro del_loop_to) (auto simp: nth_append)
  also have "\<dots> = del_loop remoteIP (?k + 1) ?arr' (length ?arr - 1) [x]"
    using x by (subst del_loop.simps) (simp add: nth_append)
  also have "\<dots> = ([x], take (length ?arr - 1) ?arr')"
  proof (rule del_loop_skip)
    show "?k + 1 \<le> length ?arr'" by simp
  next
    fix j assume j: "?k + 1 \<le> j" "j < length ?arr'"
    have "set (drop (length post) (x # post)) \<subseteq> set post" if "post \<noteq> []"
      using that by (cases post) (auto dest: in_set_dropD)
    then have "set (post @ drop (length post) (x # post)) \<subseteq> set post" if "post \<noteq> []" using that by auto
    moreover have "?arr' ! j \<in> set (post @ drop (length post) (x # post))"
      using j by (auto simp: nth_append in_set_conv_nth)
    moreover have "post \<noteq> []" using j by auto
    ultimately show "se_RemoteIP (fst (?arr' ! j)) \<noteq> remoteIP" using post by blast
  qed
  finally show ?thesis by simp
qed

section \<open>Properties\<close>

text \<open>
  Each packet reaches at most one session. A packet with a discriminator is for the session that
  chose it, one without for the session with the sender's address. The first session it is for takes
  it, the others stay as they are, and a packet for nobody changes nothing.
\<close>

theorem processPackets_effect:
  "(if \<exists>x \<in> set (ct_sessions c). packet_for p addr (fst x)
    then \<exists>pre s lk post. ct_sessions c = pre @ (s, lk) # post \<and> packet_for p addr s \<and>
      \<not> (\<exists>x \<in> set pre. packet_for p addr (fst x)) \<and>
      processPackets G now (p, addr) c =
        map_option (\<lambda>r. c\<lparr>ct_sessions := pre @ r # post\<rparr>) (RxPacket G now p s lk)
    else processPackets G now (p, addr) c = Some c)"
proof (cases "\<exists>x \<in> set (ct_sessions c). packet_for p addr (fst x)")
  case True
  from split_list_first_prop [OF True] obtain pre x post where x: "ct_sessions c = pre @ x # post"
    "packet_for p addr (fst x)" "\<not> (\<exists>x \<in> set pre. packet_for p addr (fst x))" by blast
  then have "processPackets G now (p, addr) c =
      map_option (\<lambda>r. c\<lparr>ct_sessions := pre @ r # post\<rparr>) (RxPacket G now p (fst x) (snd x))"
    using dispatch_first [of pre p addr "fst x" G now "snd x" post]
    by (cases "RxPacket G now p (fst x) (snd x)") (auto simp: processPackets_def)
  then show ?thesis
    unfolding if_P [OF True]
    by (intro exI [of _ pre] exI [of _ "fst x"] exI [of _ "snd x"] exI [of _ post]) (use x in simp)
qed (simp add: dispatch_none processPackets_def)

text \<open>
  C22: deleting a session. When one session has the address, it alone is asked to quit and leaves the
  list, the order of the others kept, although the loop goes on over an array that the removal has
  shifted; when none has, nothing happens.
\<close>

theorem DelSession_effect:
  assumes "distinct (map (\<lambda>x. se_RemoteIP (fst x)) (ct_sessions c))"
  shows "DelSession remoteIP c =
    (filter (\<lambda>x. se_RemoteIP (fst x) = remoteIP) (ct_sessions c),
     c\<lparr>ct_sessions := filter (\<lambda>x. se_RemoteIP (fst x) \<noteq> remoteIP) (ct_sessions c)\<rparr>)"
proof (cases "\<exists>x \<in> set (ct_sessions c). se_RemoteIP (fst x) = remoteIP")
  case True
  then obtain pre x post where x: "ct_sessions c = pre @ x # post" "se_RemoteIP (fst x) = remoteIP"
    by (metis split_list)
  then have others: "\<forall>x \<in> set pre. se_RemoteIP (fst x) \<noteq> remoteIP" "\<forall>x \<in> set post. se_RemoteIP (fst x) \<noteq> remoteIP"
    using assms by (auto simp: image_iff)
  then have "filter (\<lambda>x. se_RemoteIP (fst x) = remoteIP) pre = []" "filter (\<lambda>x. se_RemoteIP (fst x) = remoteIP) post = []"
    "filter (\<lambda>x. se_RemoteIP (fst x) \<noteq> remoteIP) pre = pre" "filter (\<lambda>x. se_RemoteIP (fst x) \<noteq> remoteIP) post = post"
    by (auto simp: filter_empty_conv filter_id_conv)
  then show ?thesis using x del_loop_one [OF others(1) x(2) others(2)] by (simp add: DelSession_def)
next
  case False
  then have "filter (\<lambda>x. se_RemoteIP (fst x) \<noteq> remoteIP) (ct_sessions c) = ct_sessions c"
    "filter (\<lambda>x. se_RemoteIP (fst x) = remoteIP) (ct_sessions c) = []"
    by (auto simp: filter_empty_conv filter_id_conv)
  then show ?thesis using False by (simp add: DelSession_def del_loop_skip)
qed

definition two_sessions :: Control where
  "two_sessions = AddSession 9 no_link ''192.0.2.3'' False 400 400 3
     (AddSession 7 no_link ''192.0.2.2'' False 400 400 3 (NewControl ''192.0.2.1''))"

theorem DelSession_effect_witness:
  "map (\<lambda>x. se_RemoteIP (fst x)) (fst (DelSession ''192.0.2.2'' two_sessions)) = [''192.0.2.2''] \<and>
   map (\<lambda>x. se_RemoteIP (fst x)) (ct_sessions (snd (DelSession ''192.0.2.2'' two_sessions))) = [''192.0.2.3'']"
proof -
  have ips: "map (\<lambda>x. se_RemoteIP (fst x)) (ct_sessions two_sessions) = [''192.0.2.2'', ''192.0.2.3'']"
    by (simp add: two_sessions_def AddSession_def NewControl_def NewSession_def setRequiredMinRxInterval_def
        setDesiredMinTxInterval_def)
  then have "distinct (map (\<lambda>x. se_RemoteIP (fst x)) (ct_sessions two_sessions))" by simp
  from DelSession_effect [OF this] show ?thesis
    using ips by (auto simp: map_eq_Cons_conv)
qed

end
