(* ===== verification/Bfd_Protocol.thy ===== *)
theory Bfd_Protocol
  imports Bfd_Control
begin

text \<open>
  Two sessions of \<^verbatim>\<open>pkg/bfd\<close> facing each other over a network that loses, repeats and reorders
  packets: what the code on both sides guarantees together. The packets are bytes, written by
  \<^verbatim>\<open>TxPacket\<close>, decoded by the peer's server and dispatched to its session.
\<close>

section \<open>What a packet says\<close>

text \<open>The layer behind the bytes of \<^verbatim>\<open>TxPacket\<close>.\<close>

definition tx_packet :: "bool \<Rightarrow> Session \<Rightarrow> BFD" where
  "tx_packet final s = \<lparr>b_Version = 1, b_Diagnostic = se_LocalDiag s, b_State = se_State s,
     b_Poll = (\<not> final \<and> se_PollSequence s), b_Final = final, b_ControlPlaneIndependent = False,
     b_AuthPresent = se_AuthType s, b_Demand = (se_DemandMode s \<and> se_State s = Up \<and> se_RemoteState s = Up),
     b_Multipoint = False, b_DetectMultiplier = se_DetectMult s, b_MyDiscriminator = se_LocalDiscr s,
     b_YourDiscriminator = se_RemoteDiscr s, b_DesiredMinTxInterval = se_desiredMinTxInterval s,
     b_RequiredMinRxInterval = se_requiredMinRxInterval s, b_RequiredMinEchoRxInterval = 0,
     b_AuthHeader = (if se_AuthType s then Some auth else None)\<rparr>"

lemma tx_packet_fields [simp]:
  "b_State (tx_packet final s) = se_State s" "b_MyDiscriminator (tx_packet final s) = se_LocalDiscr s"
  "b_YourDiscriminator (tx_packet final s) = se_RemoteDiscr s" "b_AuthPresent (tx_packet final s) = se_AuthType s"
  "b_DesiredMinTxInterval (tx_packet final s) = se_desiredMinTxInterval s"
  "b_RequiredMinRxInterval (tx_packet final s) = se_requiredMinRxInterval s"
  "b_Final (tx_packet final s) = final"
  by (simp_all add: tx_packet_def)

lemma tx_bytes_packet:
  "tx_bytes G final s = (case SerializeTo G (tx_packet final s) of Inl e \<Rightarrow> [] | Inr bytes \<Rightarrow> bytes)"
  by (cases final) (simp_all add: tx_bytes_def EncodePacket_def tx_packet_def Let_def)

lemma tx_decode:
  assumes "codec_ok G" "se_LocalDiag s < 32"
  shows "DecodePacket G (tx_bytes G final s) = Some (Inr (tx_packet final s))"
proof -
  have e: "encodable (tx_packet final s)" using assms(2) by (simp add: encodable_def tx_packet_def)
  have v: "validate (tx_packet final s) = None" by (simp add: validate_None tx_packet_def auth_def)
  obtain bytes where "SerializeTo G (tx_packet final s) = Inr bytes"
    using assms(1) e unfolding codec_ok_def by blast
  then show ?thesis using decode_serialized [OF assms(1) e v] by (simp add: tx_bytes_packet)
qed

section \<open>A library that carries every packet\<close>

text \<open>
  A simple encoding, one octet for each flag and small number, which meets what is assumed of the
  packet library.
\<close>

definition octets :: "u32 \<Rightarrow> u8 list" where
  "octets w = map (\<lambda>k. of_nat (unat w div 256 ^ k)) [3, 2, 1, 0]"

definition word4 :: "u8 list \<Rightarrow> u32" where
  "word4 bs = of_nat (((unat (bs ! 0) * 256 + unat (bs ! 1)) * 256 + unat (bs ! 2)) * 256 + unat (bs ! 3))"

definition state_of :: "u8 \<Rightarrow> BFDState" where
  "state_of b = (if b = 0 then AdminDown else if b = 1 then Down else if b = 2 then Init else Up)"

definition octet_encode :: "BFD \<Rightarrow> u8 list" where
  "octet_encode p = [b_Version p, b_Diagnostic p, of_int (state_int (b_State p)), of_bool (b_Poll p),
     of_bool (b_Final p), of_bool (b_ControlPlaneIndependent p), of_bool (b_AuthPresent p), of_bool (b_Demand p),
     of_bool (b_Multipoint p), b_DetectMultiplier p] @ octets (b_MyDiscriminator p) @
     octets (b_YourDiscriminator p) @ octets (b_DesiredMinTxInterval p) @ octets (b_RequiredMinRxInterval p) @
     octets (b_RequiredMinEchoRxInterval p) @
     (case b_AuthHeader p of None \<Rightarrow> []
      | Some h \<Rightarrow> [ah_AuthType h, ah_KeyID h] @ octets (ah_SequenceNumber h) @ ah_Data h)"

definition octet_decode :: "u8 list \<Rightarrow> BFD" where
  "octet_decode bs = \<lparr>b_Version = bs ! 0, b_Diagnostic = bs ! 1, b_State = state_of (bs ! 2), b_Poll = (bs ! 3 = 1),
     b_Final = (bs ! 4 = 1), b_ControlPlaneIndependent = (bs ! 5 = 1), b_AuthPresent = (bs ! 6 = 1),
     b_Demand = (bs ! 7 = 1), b_Multipoint = (bs ! 8 = 1), b_DetectMultiplier = bs ! 9,
     b_MyDiscriminator = word4 (drop 10 bs), b_YourDiscriminator = word4 (drop 14 bs),
     b_DesiredMinTxInterval = word4 (drop 18 bs), b_RequiredMinRxInterval = word4 (drop 22 bs),
     b_RequiredMinEchoRxInterval = word4 (drop 26 bs),
     b_AuthHeader = (if bs ! 6 = 1 then Some \<lparr>ah_AuthType = bs ! 30, ah_KeyID = bs ! 31,
       ah_SequenceNumber = word4 (drop 32 bs), ah_Data = drop 36 bs\<rparr> else None)\<rparr>"

definition octet_codec :: gopacket where
  "octet_codec = \<lparr>NewPacket = (\<lambda>bs. if length bs < 30 \<or> bs ! 6 = 1 \<and> length bs < 36
       then \<lparr>pk_ErrorLayer = True, pk_Layers = [], pk_ApplicationLayer = None\<rparr>
       else \<lparr>pk_ErrorLayer = False, pk_Layers = [LayerTypeBFD], pk_ApplicationLayer = Some (octet_decode bs)\<rparr>),
     SerializeTo = (\<lambda>p. Inr (octet_encode p))\<rparr>"

lemma base256: "(n :: nat) < 2 ^ 32 \<Longrightarrow>
    ((n div 256 ^ 3 mod 256 * 256 + n div 256 ^ 2 mod 256) * 256 + n div 256 mod 256) * 256 + n mod 256 = n"
proof -
  assume "n < 2 ^ 32"
  then have top: "n div 256 ^ 3 mod 256 = n div 256 ^ 3" by simp
  have split: "n div 256 ^ Suc k * 256 + n div 256 ^ k mod 256 = n div 256 ^ k" for k
    by (simp add: div_mult2_eq mult.commute [of 256 "256 ^ k"] power_Suc2 del: power_Suc)
  show ?thesis
    unfolding top using split [of 2] split [of 1] split [of 0] by (simp add: numeral_3_eq_3 numeral_2_eq_2)
qed

lemma word4_octets [simp]: "word4 (octets w @ rest) = w"
proof -
  have "unat w < 2 ^ 32" using unsigned_less [of w, where 'a = nat] by simp
  from base256 [OF this] have n: "((unat w div 256 ^ 3 mod 256 * 256 + unat w div 256 ^ 2 mod 256) * 256 +
      unat w div 256 mod 256) * 256 + unat w mod 256 = unat w" .
  have "word4 (octets w @ rest) = of_nat (((unat w div 256 ^ 3 mod 256 * 256 + unat w div 256 ^ 2 mod 256) * 256 +
      unat w div 256 mod 256) * 256 + unat w mod 256)"
    unfolding word4_def octets_def by (rule arg_cong [of _ _ of_nat]) (simp add: unat_of_nat del: of_nat_unat)
  then show ?thesis unfolding n by simp
qed

lemma length_octets [simp]: "length (octets w) = 4"
  by (simp add: octets_def)

lemma state_of_int [simp]: "state_of (of_int (state_int st)) = st"
  by (cases st) (simp_all add: state_of_def)

lemma octet_decode_encode:
  assumes "b_AuthPresent p \<longleftrightarrow> b_AuthHeader p \<noteq> None"
  shows "octet_decode (octet_encode p) = p"
  using assms word4_octets [of _ "[]"]
  by (cases "b_AuthHeader p") (simp_all add: octet_decode_def octet_encode_def nth_append)

lemma octet_codec_ok: "codec_ok octet_codec"
  unfolding codec_ok_def
proof (intro allI impI)
  fix p assume "encodable p"
  then have h: "b_AuthPresent p \<longleftrightarrow> b_AuthHeader p \<noteq> None" by (simp add: encodable_def)
  then have "30 \<le> length (octet_encode p) \<and> (octet_encode p ! 6 = 1 \<longrightarrow> 36 \<le> length (octet_encode p))"
    by (cases "b_AuthHeader p") (simp_all add: octet_encode_def)
  then show "\<exists>bytes. SerializeTo octet_codec p = Inr bytes \<and>
      NewPacket octet_codec bytes = \<lparr>pk_ErrorLayer = False, pk_Layers = [LayerTypeBFD], pk_ApplicationLayer = Some p\<rparr>"
    using octet_decode_encode [OF h] by (auto simp: octet_codec_def)
qed

section \<open>Two sessions\<close>

type_synonym party = "Session \<times> link"

text \<open>
  Everything that can happen to two sessions: either of them sends, receives any packet the other has
  ever written that is for it (so that packets get lost, repeated and reordered), runs a poll of
  its detector, or has its connection replaced or closed. The rule \<open>swap\<close> gives the other party the
  same steps.
\<close>

inductive pair_run :: "gopacket \<Rightarrow> party \<times> party \<Rightarrow> bool" for G where
  start: "lk_sent la = [] \<Longrightarrow> lk_sent lb = [] \<Longrightarrow> pair_run G
    (((NewSession ra ipa ipb pa rxa txa ma)\<lparr>se_conn := ca\<rparr>, la), ((NewSession rb ipb ipa pb rxb txb mb)\<lparr>se_conn := cb\<rparr>, lb))"
| swap: "pair_run G (x, y) \<Longrightarrow> pair_run G (y, x)"
| send: "pair_run G ((a, la), y) \<Longrightarrow> TxPacket G False a la = Some x' \<Longrightarrow> pair_run G (x', y)"
| receive: "pair_run G ((a, la), (b, lb)) \<Longrightarrow> bytes \<in> set (lk_sent lb) \<Longrightarrow> DecodePacket G bytes = Some (Inr p) \<Longrightarrow>
    packet_for p addr a \<Longrightarrow> RxPacket G now p a la = Some x' \<Longrightarrow> pair_run G (x', (b, lb))"
| detect: "pair_run G ((a, la), y) \<Longrightarrow> detect_poll now a la = Some (Some x') \<Longrightarrow> pair_run G (x', y)"
| reconnect: "pair_run G ((a, la), y) \<Longrightarrow>
    pair_run G ((a\<lparr>se_conn := c, se_clientDown := d\<rparr>, la\<lparr>lk_dials := ds\<rparr>), y)"

text \<open>What holds of one party with respect to the other.\<close>

definition says :: "gopacket \<Rightarrow> Session \<Rightarrow> Session \<Rightarrow> u8 list \<Rightarrow> bool" where
  "says G a b bytes \<longleftrightarrow> (\<forall>p. DecodePacket G bytes = Some (Inr p) \<longrightarrow> b_MyDiscriminator p = se_LocalDiscr a \<and>
     (b_State p \<in> {Init, Up} \<longrightarrow> se_RemoteDiscr a = se_LocalDiscr b))"

fun half :: "gopacket \<Rightarrow> party \<Rightarrow> party \<Rightarrow> bool" where
  "half G (a, la) (b, lb) \<longleftrightarrow> se_State a \<noteq> AdminDown \<and> se_LocalDiag a < 32 \<and>
     (se_State a \<in> {Init, Up} \<longrightarrow> se_RemoteDiscr a = se_LocalDiscr b) \<and>
     (se_State a = Up \<longrightarrow> se_RemoteDiscr b = se_LocalDiscr a) \<and>
     (\<forall>bytes \<in> set (lk_sent la). says G a b bytes)"

lemma says_tx:
  assumes "codec_ok G" "se_LocalDiag s < 32" "se_LocalDiscr s = se_LocalDiscr a"
    and "se_State s \<in> {Init, Up} \<longrightarrow> se_RemoteDiscr a = se_LocalDiscr b"
  shows "says G a b (tx_bytes G final s)"
  using assms tx_decode [OF assms(1,2), of final] by (auto simp: says_def)

text \<open>
  A step of the first party keeps both halves if it keeps its identity, writes nothing new but a
  packet of its new state, and its new state is justified.
\<close>

lemma half_step:
  assumes codec: "codec_ok G" and inv: "half G (a, la) (b, lb)" "half G (b, lb) (a, la)"
    and frame: "se_LocalDiscr a' = se_LocalDiscr a" "se_LocalDiag a' < 32" "se_State a' \<noteq> AdminDown"
    and discr: "se_RemoteDiscr a' = se_RemoteDiscr a \<or> se_RemoteDiscr a' = se_LocalDiscr b"
    and heard: "se_State a' \<in> {Init, Up} \<Longrightarrow> se_RemoteDiscr a' = se_LocalDiscr b"
    and up: "se_State a' = Up \<Longrightarrow> se_RemoteDiscr b = se_LocalDiscr a"
    and sent: "\<And>bytes. bytes \<in> set (lk_sent la') \<Longrightarrow> bytes \<in> set (lk_sent la) \<or>
      (\<exists>f s. bytes = tx_bytes G f s \<and> se_LocalDiag s < 32 \<and> se_LocalDiscr s = se_LocalDiscr a \<and> se_State s = se_State a')"
  shows "half G (a', la') (b, lb) \<and> half G (b, lb) (a', la')"
proof -
  have "says G a' b bytes" if "bytes \<in> set (lk_sent la')" for bytes
    using sent [OF that]
  proof
    assume "bytes \<in> set (lk_sent la)"
    then show ?thesis using inv(1) discr frame(1) by (auto simp: says_def)
  next
    assume "\<exists>f s. bytes = tx_bytes G f s \<and> se_LocalDiag s < 32 \<and> se_LocalDiscr s = se_LocalDiscr a \<and> se_State s = se_State a'"
    then show ?thesis using says_tx [OF codec] heard frame(1) by metis
  qed
  moreover have "says G b a' bytes" if "bytes \<in> set (lk_sent lb)" for bytes
    using inv(2) that frame(1) by (auto simp: says_def)
  ultimately show ?thesis using inv frame heard up discr by auto
qed

lemma rx_remote_diag [simp]: "se_LocalDiag (rx_remote p s) = se_LocalDiag s"
  by (simp add: rx_remote_def setRemoteDetectMult_def setRemoteMinTxInterval_def setRemoteMinRxInterval_def
      restartTxPackets_def closeConn_def Let_def split: option.splits)

lemma rx_state_diag: "rx_state p s lk = (s', lk') \<Longrightarrow> se_LocalDiag s' = se_LocalDiag s \<or> se_LocalDiag s' = 3"
  by (auto simp: rx_state_def setDesiredMinTxInterval_def Let_def split: if_splits)

lemma closeConn_diag [simp]: "se_LocalDiag (closeConn s) = se_LocalDiag s"
  by (simp add: closeConn_def split: option.splits)

text \<open>What a packet that is taken in writes, and its diagnostic.\<close>

lemma RxPacket_sends:
  assumes t: "rx_taken p s" and run: "RxPacket G now p s lk = Some (s', lk')"
  shows "se_LocalDiag s' = se_LocalDiag s \<or> se_LocalDiag s' = 3"
    and "lk_sent lk' = lk_sent lk \<or> (\<exists>s1. lk_sent lk' = lk_sent lk @ [tx_bytes G True s1] \<and>
      se_LocalDiag s1 = se_LocalDiag s' \<and> se_LocalDiscr s1 = se_LocalDiscr s \<and> se_State s1 = se_State s')"
proof -
  obtain s1 lk1 s2 where st: "rx_state p (rx_remote p s) lk = (s1, lk1)" and s2: "s2 = s1 \<or> s2 = closeConn s1"
    and s': "s' = (if b_Final p then rx_final s2 else s2)\<lparr>se_LastRxPacketTime := now\<rparr>"
    and sent: "lk_sent lk' = lk_sent lk1 \<or> (lk_sent lk' = lk_sent lk1 @ [tx_bytes G True s1] \<and> s2 = s1)"
    by (rule RxPacket_taken [OF t run])
  have d: "se_LocalDiag s' = se_LocalDiag s1" using s' s2 by (auto simp: rx_final_def Let_def)
  show "se_LocalDiag s' = se_LocalDiag s \<or> se_LocalDiag s' = 3" using rx_state_diag [OF st] d by simp
  have "se_State s1 = se_State s'" using s' s2 by auto
  moreover have "se_LocalDiscr s1 = se_LocalDiscr s"
    using rx_state_next(3) [OF st] rx_remote_id [of s p] by (simp add: same_id_def)
  ultimately show "lk_sent lk' = lk_sent lk \<or> (\<exists>s1. lk_sent lk' = lk_sent lk @ [tx_bytes G True s1] \<and>
      se_LocalDiag s1 = se_LocalDiag s' \<and> se_LocalDiscr s1 = se_LocalDiscr s \<and> se_State s1 = se_State s')"
    using sent rx_state_next(10) [OF st] d by auto
qed

lemma half_receive:
  assumes codec: "codec_ok G" and inv: "half G (a, la) (b, lb)" "half G (b, lb) (a, la)"
    and p: "bytes \<in> set (lk_sent lb)" "DecodePacket G bytes = Some (Inr p)"
    and run: "RxPacket G now p a la = Some (a', la')"
  shows "half G (a', la') (b, lb) \<and> half G (b, lb) (a', la')"
proof (cases "rx_taken p a")
  case False
  then have "b_AuthPresent p \<noteq> se_AuthType a" using inv(1) by (simp add: rx_taken_def)
  then show ?thesis using run inv by (simp add: RxPacket_def)
next
  case True
  note f = RxPacket_fields [OF True run] and g = RxPacket_sends [OF True run]
  have says: "b_MyDiscriminator p = se_LocalDiscr b" "b_State p \<in> {Init, Up} \<Longrightarrow> se_RemoteDiscr b = se_LocalDiscr a"
    using inv(2) p by (auto simp: says_def)
  have id: "se_LocalDiscr a' = se_LocalDiscr a" using f(2) by (simp add: same_id_def)
  have diag: "se_LocalDiag a' < 32" using g(1) inv(1) by auto
  have na: "se_State a' \<noteq> AdminDown" using f(1) inv(1) by (cases "se_State a"; cases "b_State p") simp_all
  have up: "se_RemoteDiscr b = se_LocalDiscr a" if "se_State a' = Up"
    using that f(1) says(2) inv(1) by (cases "se_State a"; cases "b_State p") auto
  show ?thesis
    by (rule half_step [OF codec inv id diag na])
      (use f(3) says(1) up g(2) id diag in auto)
qed

lemma NewSession_half:
  assumes "lk_sent la = []"
  shows "half G ((NewSession r ip ip' passive rx tx mult)\<lparr>se_conn := c\<rparr>, la) y"
  using assms
  by (cases y) (simp add: NewSession_def setRequiredMinRxInterval_def setDesiredMinTxInterval_def)

lemma pair_run_half:
  assumes codec: "codec_ok G"
  shows "pair_run G xy \<Longrightarrow> half G (fst xy) (snd xy) \<and> half G (snd xy) (fst xy)"
proof (induction rule: pair_run.induct)
  case (send a la y x')
  obtain b lb a' la' where [simp]: "y = (b, lb)" "x' = (a', la')" by (cases y, cases x')
  have inv: "half G (a, la) (b, lb)" "half G (b, lb) (a, la)" using send.IH by (simp_all del: half.simps)
  have "TxPacket G False a la = Some (a', la')" using send.hyps by simp
  note tx = TxPacket_frame(1,3) [OF this]
  have same: "se_LocalDiscr a' = se_LocalDiscr a" "se_State a' = se_State a" "se_RemoteDiscr a' = se_RemoteDiscr a"
    "se_LocalDiag a' = se_LocalDiag a"
    using tx(1) closeConn_frames [of a] by (auto simp: same_id_def)
  have "half G (a', la') (b, lb) \<and> half G (b, lb) (a', la')"
  proof (rule half_step [OF codec inv])
    fix bytes assume "bytes \<in> set (lk_sent la')"
    then have "bytes \<in> set (lk_sent la) \<or> bytes = tx_bytes G False a" using tx(2) by auto
    then show "bytes \<in> set (lk_sent la) \<or> (\<exists>f s. bytes = tx_bytes G f s \<and> se_LocalDiag s < 32 \<and>
        se_LocalDiscr s = se_LocalDiscr a \<and> se_State s = se_State a')"
      using inv(1) same(2) by auto
  qed (use inv(1) same in auto)
  then show ?case by simp
next
  case (receive a la b lb bytes p addr now x')
  obtain a' la' where x': "x' = (a', la')" by (cases x')
  have inv: "half G (a, la) (b, lb)" "half G (b, lb) (a, la)" using receive.IH by (simp_all del: half.simps)
  have "half G (a', la') (b, lb) \<and> half G (b, lb) (a', la')"
    by (rule half_receive [OF codec inv receive.hyps(2,3)]) (use receive.hyps(5) x' in simp)
  then show ?case by (simp add: x' del: half.simps)
next
  case (detect a la y now x')
  obtain b lb a' la' where [simp]: "y = (b, lb)" "x' = (a', la')" by (cases y, cases x')
  have inv: "half G (a, la) (b, lb)" "half G (b, lb) (a, la)" using detect.IH by (simp_all del: half.simps)
  have poll: "detect_poll now a la = Some (Some (a', la'))" using detect.hyps by simp
  have same: "se_LocalDiscr a' = se_LocalDiscr a" "se_RemoteDiscr a' = se_RemoteDiscr a" "lk_sent la' = lk_sent la"
    "se_State a' = se_State a \<or> se_State a' = Down" "se_LocalDiag a' = se_LocalDiag a \<or> se_LocalDiag a' = 1"
    using poll by (auto simp: detect_poll_def setDesiredMinTxInterval_def callFunc_def Let_def split: if_splits)
  have "half G (a', la') (b, lb) \<and> half G (b, lb) (a', la')"
    by (rule half_step [OF codec inv]) (use inv(1) same in auto)
  then show ?case by simp
next
  case (start la lb)
  then show ?case using NewSession_half by (simp del: half.simps)
next
  case (reconnect a la y c d ds)
  then show ?case by (cases y) (simp add: says_def)
qed simp

section \<open>A packet sent and received\<close>

text \<open>
  One iteration of the first party's loop, whose packet, if it writes one, is decoded by the other
  party's server and handled by its session, if it is for it.
\<close>

definition exchange :: "gopacket \<Rightarrow> int \<Rightarrow> string \<Rightarrow> party \<Rightarrow> party \<Rightarrow> (party \<times> party) go" where
  "exchange G now addr x y =
     (if \<not> send_allowed (fst x) then Some (x, y)
      else do {
        x' \<leftarrow> TxPacket G False (fst x) (snd x);
        (if lk_sent (snd x') = lk_sent (snd x) then Some (x', y)
         else do {
           r \<leftarrow> DecodePacket G (last (lk_sent (snd x')));
           (case r of
              Inl e \<Rightarrow> Some (x', y)
            | Inr p \<Rightarrow> if packet_for p addr (fst y)
                then do { y' \<leftarrow> RxPacket G now p (fst y) (snd y); Some (x', y') } else Some (x', y))
         })
      })"

text \<open>A working connection, on which no write fails, that the packet \<open>p\<close> does not make restart.\<close>

definition working :: "party \<Rightarrow> bool" where
  "working x \<longleftrightarrow> se_conn (fst x) = Some ConnOpen \<and> lk_writes (snd x) = []"

definition no_restart :: "BFD \<Rightarrow> Session \<Rightarrow> bool" where
  "no_restart p s \<longleftrightarrow> se_asyncTxInterval s \<le> max (se_desiredMinTxInterval s) (b_RequiredMinRxInterval p)"

lemma rx_remote_conn: "no_restart p s \<Longrightarrow> se_conn (rx_remote p s) = se_conn s"
  by (auto simp: no_restart_def rx_remote_def setRemoteDetectMult_def setRemoteMinTxInterval_def setRemoteMinRxInterval_def
      max_def Let_def split: if_splits)

lemma TxPacket_working:
  "working (s, lk) \<Longrightarrow> TxPacket G final s lk = Some (s, lk\<lparr>lk_sent := lk_sent lk @ [tx_bytes G final s]\<rparr>)"
  by (simp add: working_def TxPacket_def next_outcome_def)

lemma RxPacket_working:
  assumes w: "working (s, lk)" and n: "no_restart p s" and t: "rx_taken p s"
  obtains s' lk' where "RxPacket G now p s lk = Some (s', lk')" "working (s', lk')"
proof -
  obtain s1 lk1 where st: "rx_state p (rx_remote p s) lk = (s1, lk1)" by (cases "rx_state p (rx_remote p s) lk")
  have w1: "working (s1, lk1)"
    using w rx_remote_conn [OF n] rx_state_next(2,11) [OF st] by (simp add: working_def)
  have "RxPacket G now p s lk = Some ((if b_Final p then rx_final s1 else s1)\<lparr>se_LastRxPacketTime := now\<rparr>,
      if b_Poll p then lk1\<lparr>lk_sent := lk_sent lk1 @ [tx_bytes G True s1]\<rparr> else lk1)"
    using t st TxPacket_working [OF w1] by (auto simp: RxPacket_def rx_taken_def Let_def)
  then show thesis by (rule that) (use w1 in \<open>auto simp: working_def\<close>)
qed

lemma exchange_works:
  assumes codec: "codec_ok G" and a: "working (a, la)" "send_allowed a" "se_LocalDiag a < 32"
    and b: "working (b, lb)" "no_restart (tx_packet False a) b" "rx_taken (tx_packet False a) b"
    and for_b: "packet_for (tx_packet False a) addr b"
  obtains b' lb' la' where "RxPacket G now (tx_packet False a) b lb = Some (b', lb')" "working (b', lb')"
    "working (a, la')" "exchange G now addr (a, la) (b, lb) = Some ((a, la'), (b', lb'))"
proof -
  obtain b' lb' where rx: "RxPacket G now (tx_packet False a) b lb = Some (b', lb')" and w: "working (b', lb')"
    by (rule RxPacket_working [OF b])
  show thesis
  proof (rule that [OF rx w])
    show "working (a, la\<lparr>lk_sent := lk_sent la @ [tx_bytes G False a]\<rparr>)" using a(1) by (simp add: working_def)
    show "exchange G now addr (a, la) (b, lb) = Some ((a, la\<lparr>lk_sent := lk_sent la @ [tx_bytes G False a]\<rparr>), (b', lb'))"
      using a TxPacket_working [OF a(1), of G False] tx_decode [OF codec a(3), of False] for_b rx
      by (simp add: exchange_def)
  qed
qed

text \<open>A session that has just been created, with its connection.\<close>

definition new_session :: "Session \<Rightarrow> bool" where
  "new_session s \<longleftrightarrow> se_conn s = Some ConnOpen \<and> se_State s = Down \<and> se_RemoteDiscr s = 0 \<and> se_LocalDiag s = 0 \<and>
     se_desiredMinTxInterval s = 1000000 \<and> se_asyncTxInterval s = 1000000 \<and> se_remoteMinTxInterval s = 0 \<and>
     se_remoteMinRxInterval s = 1 \<and> \<not> se_PollSequence s \<and> \<not> se_DemandMode s \<and> \<not> se_RemoteDemandMode s \<and> \<not> se_AuthType s"

lemma NewSession_new: "new_session ((NewSession r ip ip' passive rx tx mult)\<lparr>se_conn := Some ConnOpen\<rparr>)"
  by (simp add: new_session_def NewSession_def setRequiredMinRxInterval_def setDesiredMinTxInterval_def)

lemma packet_for_either:
  "b_YourDiscriminator p = 0 \<or> b_YourDiscriminator p = se_LocalDiscr s \<Longrightarrow> se_RemoteIP s = addr_ip addr \<Longrightarrow>
   packet_for p addr s"
  by (auto simp: packet_for_def)

text \<open>The first packet, which takes the receiver from down to init.\<close>

lemma first_packet:
  assumes "new_session a" "new_session b" "RxPacket G now (tx_packet False a) b lb = Some (b', lb')"
  shows "se_State b' = Init" "se_LocalDiag b' = 0" "se_desiredMinTxInterval b' = 1000000"
    "se_asyncTxInterval b' = max 1000000 (se_requiredMinRxInterval a) \<or> se_asyncTxInterval b' = 1000000"
    "\<not> se_PollSequence b'" "se_remoteMinRxInterval b' = 1000000" "\<not> se_DemandMode b'"
proof -
  let ?p = "tx_packet False a"
  have poll: "\<not> b_Poll ?p" using assms(1) by (simp add: tx_packet_def new_session_def)
  have b': "b' = (rx_remote ?p b)\<lparr>se_State := Init, se_LastRxPacketTime := now\<rparr>"
    using assms poll by (auto simp: RxPacket_def rx_state_def new_session_def Let_def)
  show "se_State b' = Init" "se_LocalDiag b' = 0" "\<not> se_DemandMode b'"
    using b' assms(2) rx_remote_id [of b ?p] by (simp_all add: new_session_def same_id_def)
  have "se_desiredMinTxInterval (rx_remote ?p b) = se_desiredMinTxInterval b"
    "se_PollSequence (rx_remote ?p b) = se_PollSequence b"
    by (simp_all add: rx_remote_def setRemoteDetectMult_def setRemoteMinTxInterval_def setRemoteMinRxInterval_def
        restartTxPackets_def closeConn_def Let_def split: option.splits)
  then show "se_desiredMinTxInterval b' = 1000000" "\<not> se_PollSequence b'"
    using b' assms(2) by (simp_all add: new_session_def)
  show "se_asyncTxInterval b' = max 1000000 (se_requiredMinRxInterval a) \<or> se_asyncTxInterval b' = 1000000"
    using b' assms(1,2)
    by (auto simp: new_session_def rx_remote_def setRemoteDetectMult_def setRemoteMinTxInterval_def
        setRemoteMinRxInterval_def restartTxPackets_def closeConn_def max_def Let_def split: option.splits)
  show "se_remoteMinRxInterval b' = 1000000"
    using b' rx_remote_intervals(1) [of b ?p] assms(1,2) by (simp add: new_session_def)
qed

lemma handshake:
  assumes codec: "codec_ok G" and new: "new_session a" "new_session b"
    and active: "\<not> se_Passive a" "se_LocalDiscr a \<noteq> 0 \<or> \<not> se_Passive b"
    and ip: "se_RemoteIP b = addr_ip addra" "se_RemoteIP a = addr_ip addrb"
    and w: "lk_writes la = []" "lk_writes lb = []"
  shows "\<exists>x1 y1 x2 y2 x3 y3. exchange G t1 addra (a, la) (b, lb) = Some (x1, y1) \<and>
    exchange G t2 addrb y1 x1 = Some (y2, x2) \<and> exchange G t3 addra x2 y2 = Some (x3, y3) \<and>
    se_State (fst x3) = Up \<and> se_State (fst y3) = Up"
proof -
  note na = new(1) [unfolded new_session_def] and nb = new(2) [unfolded new_session_def]
  have a1: "working (a, la)" "send_allowed a" "se_LocalDiag a < 32" "working (b, lb)"
    using na nb w active(1) by (simp_all add: working_def send_allowed_def)
  have b1: "no_restart (tx_packet False a) b" "rx_taken (tx_packet False a) b" "packet_for (tx_packet False a) addra b"
    using na nb ip(1) by (simp_all add: no_restart_def rx_taken_def packet_for_either)
  obtain b' lb' la' where rx1: "RxPacket G t1 (tx_packet False a) b lb = Some (b', lb')" and wb': "working (b', lb')"
    and wa': "working (a, la')" and e1: "exchange G t1 addra (a, la) (b, lb) = Some ((a, la'), (b', lb'))"
    by (rule exchange_works [OF codec a1(1-3) a1(4) b1])
  note f = first_packet [OF new rx1] and g = RxPacket_fields [OF b1(2) rx1]
  note idb = g(2) [unfolded same_id_def]
  have a2: "send_allowed b'" "se_LocalDiag b' < 32"
    using f g(3) idb active(2) g(5) na by (auto simp: send_allowed_def tx_packet_def)
  have b2: "no_restart (tx_packet False b') a" "rx_taken (tx_packet False b') a" "packet_for (tx_packet False b') addrb a"
    using na nb idb g(3) ip(2) by (simp_all add: no_restart_def rx_taken_def packet_for_either)
  obtain a' la2 lb2 where rx2: "RxPacket G t2 (tx_packet False b') a la' = Some (a', la2)" and wa2: "working (a', la2)"
    and wb2: "working (b', lb2)" and e2: "exchange G t2 addrb (b', lb') (a, la') = Some ((b', lb2), (a', la2))"
    by (rule exchange_works [OF codec wb' a2 wa' b2])
  note h = RxPacket_fields [OF b2(2) rx2]
  note ida = h(2) [unfolded same_id_def]
  have up_a: "se_State a' = Up" using h(1) f(1) na by simp
  have "se_remoteMinRxInterval a' \<noteq> 0" using h(6) rx_remote_intervals(1) [of a "tx_packet False b'"] na f(3) by simp
  moreover have "se_LocalDiag a' < 32"
    using RxPacket_sends(1) [OF b2(2) rx2] na by auto
  ultimately have a3: "send_allowed a'" "se_LocalDiag a' < 32"
    using h(5) f(7) ida active(1) by (auto simp: send_allowed_def tx_packet_def)
  have "se_asyncTxInterval b' \<le> max (se_desiredMinTxInterval b') (b_RequiredMinRxInterval (tx_packet False a'))"
    using f(3,4) ida by auto
  then have b3: "no_restart (tx_packet False a') b'" "rx_taken (tx_packet False a') b'" "packet_for (tx_packet False a') addra b'"
    using h(3) ida idb na nb f(1) ip(1) by (simp_all add: no_restart_def rx_taken_def packet_for_either)
  obtain b3 lb3 la3 where rx3: "RxPacket G t3 (tx_packet False a') b' lb2 = Some (b3, lb3)"
    and e3: "exchange G t3 addra (a', la2) (b', lb2) = Some ((a', la3), (b3, lb3))"
    by (rule exchange_works [OF codec wa2 a3 wb2 b3])
  have "se_State b3 = Up" using RxPacket_fields(1) [OF b3(2) rx3] f(1) up_a by simp
  then show ?thesis using e1 e2 e3 up_a by auto
qed

text \<open>An exchange is a run of the two sessions.\<close>

lemma exchange_run:
  assumes run: "pair_run G (x, y)" and e: "exchange G now addr x y = Some (x', y')"
  shows "pair_run G (x', y')"
proof (cases "send_allowed (fst x)")
  case True
  obtain a la where x: "x = (a, la)" by (cases x)
  obtain b lb where y: "y = (b, lb)" by (cases y)
  obtain a1 la1 where tx: "TxPacket G False a la = Some (a1, la1)"
    using e True x by (cases "TxPacket G False a la") (auto simp: exchange_def)
  have r1: "pair_run G ((a1, la1), (b, lb))" using pair_run.send [of G a la "(b, lb)" "(a1, la1)"] run tx x y by simp
  show ?thesis
  proof (cases "lk_sent la1 = lk_sent la")
    case True
    then show ?thesis using e \<open>send_allowed (fst x)\<close> tx r1 x y by (simp add: exchange_def)
  next
    case False
    then have last: "last (lk_sent la1) \<in> set (lk_sent la1)" using TxPacket_frame(3) [OF tx] by auto
    obtain r where r: "DecodePacket G (last (lk_sent la1)) = Some r" using DecodePacket_total by blast
    note eqs = e False \<open>send_allowed (fst x)\<close> tx r x y
    show ?thesis
    proof (cases r)
      case (Inl err)
      then show ?thesis using eqs r1 by (simp add: exchange_def)
    next
      case (Inr p)
      show ?thesis
      proof (cases "packet_for p addr b")
        case True
        then have rx: "RxPacket G now p b lb = Some y'" and x': "x' = (a1, la1)"
          using eqs Inr by (cases "RxPacket G now p b lb"; auto simp: exchange_def)+
        have "DecodePacket G (last (lk_sent la1)) = Some (Inr p)" using r Inr by simp
        from pair_run.receive [OF pair_run.swap [OF r1] last this True rx] show ?thesis
          unfolding x' by (rule pair_run.swap)
      next
        case False
        then show ?thesis using eqs Inr r1 by (simp add: exchange_def)
      qed
    qed
  qed
qed (use e run in \<open>simp add: exchange_def\<close>)

section \<open>Properties\<close>

text \<open>
  C21: what is sent is what is received. Over a packet library that parses what it serializes, the
  bytes a session writes are accepted by the peer's decoder, with or without authentication, and
  give back the session's state, diagnostic, discriminators, intervals and multiplier; a packet that
  answers a poll has the final bit and not the poll bit.
\<close>

theorem TxPacket_decodes:
  assumes "codec_ok G" "se_LocalDiag s < 32" "se_conn s = Some ConnOpen" "lk_writes lk = []"
  shows "\<exists>lk' bytes p. TxPacket G final s lk = Some (s, lk') \<and> lk_sent lk' = lk_sent lk @ [bytes] \<and>
    DecodePacket G bytes = Some (Inr p) \<and> b_State p = se_State s \<and> b_Diagnostic p = se_LocalDiag s \<and>
    b_MyDiscriminator p = se_LocalDiscr s \<and> b_YourDiscriminator p = se_RemoteDiscr s \<and>
    b_DesiredMinTxInterval p = se_desiredMinTxInterval s \<and> b_RequiredMinRxInterval p = se_requiredMinRxInterval s \<and>
    b_DetectMultiplier p = se_DetectMult s \<and> b_AuthPresent p = se_AuthType s \<and>
    b_Final p = final \<and> b_Poll p = (\<not> final \<and> se_PollSequence s)"
  using TxPacket_working [of s lk G final] assms tx_decode [OF assms(1,2), of final]
  by (auto simp: working_def tx_packet_def)

theorem TxPacket_decodes_witness:
  "\<exists>bytes p lk'. TxPacket octet_codec True (a_session\<lparr>se_AuthType := True\<rparr>) no_link = Some (a_session\<lparr>se_AuthType := True\<rparr>, lk') \<and>
     lk_sent lk' = [bytes] \<and> DecodePacket octet_codec bytes = Some (Inr p) \<and> b_MyDiscriminator p = 7 \<and> b_AuthPresent p"
proof -
  let ?s = "a_session\<lparr>se_AuthType := True\<rparr>"
  have "se_LocalDiag ?s < 32" "se_conn ?s = Some ConnOpen" "lk_writes no_link = []" "lk_sent no_link = []"
    "se_LocalDiscr ?s = 7" "se_AuthType ?s"
    by (simp_all add: a_session_def NewSession_def setRequiredMinRxInterval_def setDesiredMinTxInterval_def no_link_def)
  then show ?thesis using TxPacket_decodes [OF octet_codec_ok, of ?s no_link True] by auto
qed


lemma addr_ips: "addr_ip ''192.0.2.1:49152'' = ''192.0.2.1''" "addr_ip ''192.0.2.2:50000'' = ''192.0.2.2''"
  by (simp_all add: addr_ip_def)

definition party_a :: Session where
  "party_a = (NewSession 7 ''192.0.2.1'' ''192.0.2.2'' False 400000 400000 3)\<lparr>se_conn := Some ConnOpen\<rparr>"

definition party_b :: Session where
  "party_b = (NewSession 9 ''192.0.2.2'' ''192.0.2.1'' True 300000 2000000 5)\<lparr>se_conn := Some ConnOpen\<rparr>"


text \<open>
  C15: two sessions come up. On a network that delivers, with connections that work, three packets are
  enough for two new sessions, whatever their intervals, multipliers and discriminators, if the first
  to send is active and the other is active too or the first's discriminator is not zero: one to init,
  then the first party up, then the other.
\<close>

theorem handshake_completes:
  assumes "codec_ok G" "addr_ip addra = ipa" "addr_ip addrb = ipb" "ra mod 2 ^ 31 \<noteq> 0 \<or> \<not> pb"
    and "lk_writes la = []" "lk_writes lb = []"
  shows "\<exists>x1 y1 x2 y2 x3 y3.
    exchange G t1 addra ((NewSession ra ipa ipb False rxa txa ma)\<lparr>se_conn := Some ConnOpen\<rparr>, la)
      ((NewSession rb ipb ipa pb rxb txb mb)\<lparr>se_conn := Some ConnOpen\<rparr>, lb) = Some (x1, y1) \<and>
    exchange G t2 addrb y1 x1 = Some (y2, x2) \<and> exchange G t3 addra x2 y2 = Some (x3, y3) \<and>
    se_State (fst x3) = Up \<and> se_State (fst y3) = Up"
proof -
  let ?a = "(NewSession ra ipa ipb False rxa txa ma)\<lparr>se_conn := Some ConnOpen\<rparr>"
  let ?b = "(NewSession rb ipb ipa pb rxb txb mb)\<lparr>se_conn := Some ConnOpen\<rparr>"
  have "ra mod 2 ^ 31 < 2 ^ 32" by (rule less_trans [OF mod_less_divisor]) simp_all
  then have n: "unat (of_nat (ra mod 2 ^ 31) :: u32) = ra mod 2 ^ 31" by (simp add: unat_of_nat)
  have "se_LocalDiscr ?a = of_nat (ra mod 2 ^ 31)"
    by (simp add: NewSession_def setRequiredMinRxInterval_def setDesiredMinTxInterval_def)
  then have "ra mod 2 ^ 31 \<noteq> 0 \<Longrightarrow> se_LocalDiscr ?a \<noteq> 0" using n by (metis unat_0)
  then have "\<not> se_Passive ?a" "se_LocalDiscr ?a \<noteq> 0 \<or> \<not> se_Passive ?b" "se_RemoteIP ?b = addr_ip addra"
    "se_RemoteIP ?a = addr_ip addrb"
    using assms(2-4) by (auto simp: NewSession_def setRequiredMinRxInterval_def setDesiredMinTxInterval_def)
  from handshake [OF assms(1) NewSession_new NewSession_new this assms(5,6)] show ?thesis .
qed

theorem handshake_completes_witness:
  "\<exists>x1 y1 x2 y2 x3 y3.
    exchange octet_codec 1 ''192.0.2.1:49152'' (party_a, no_link) (party_b, no_link) = Some (x1, y1) \<and>
    exchange octet_codec 2 ''192.0.2.2:50000'' y1 x1 = Some (y2, x2) \<and>
    exchange octet_codec 3 ''192.0.2.1:49152'' x2 y2 = Some (x3, y3) \<and>
    se_State (fst x3) = Up \<and> se_State (fst y3) = Up"
proof -
  have "lk_writes no_link = []" "(7 :: nat) mod 2 ^ 31 \<noteq> 0 \<or> \<not> True" by (simp_all add: no_link_def)
  then show ?thesis
    unfolding party_a_def party_b_def by (intro handshake_completes [OF octet_codec_ok addr_ips])
qed

end
