(* ===== verification/Bfd_Service.thy ===== *)
theory Bfd_Service
  imports Model Bfd_Control Closer
begin

text \<open>
  \<^verbatim>\<open>internal/service/bfd_health_check.go\<close>: watching a BGP peer by BFD. The session is made from the
  peer's configuration, its deletion is registered with the closer, and the end of the watch is the
  end of the program.
\<close>

section \<open>Starting\<close>

text \<open>The control of a peer: a peer without BFD settings is a \<^verbatim>\<open>nil\<close> pointer, which panics.\<close>

definition peer_control :: "nat \<Rightarrow> link \<Rightarrow> BGPPeer \<Rightarrow> Control go" where
  "peer_control r lk bgpPeer = (case bp_BFDPeering bgpPeer of
      None \<Rightarrow> panic
    | Some bfd \<Rightarrow> Some (AddSession r lk (bfd_PeerIP bfd) False (bfd_RxMin bfd) (bfd_TxRate bfd)
        (bfd_Multiplier bfd) (NewControl (bfd_LocalIP bfd))))"

text \<open>The loop that \<^verbatim>\<open>NewSession\<close> starts for the session of the control.\<close>

definition start_peer :: "nat \<Rightarrow> link \<Rightarrow> BGPPeer \<Rightarrow> loop go" where
  "start_peer r lk bgpPeer =
     map_option (\<lambda>c. case last (ct_sessions c) of (s, lk) \<Rightarrow> loop_init s lk) (peer_control r lk bgpPeer)"

text \<open>
  \<^verbatim>\<open>bfdPeerState.String\<close> in lower case, as the callback logs it: an array of four names, indexed out
  of range a panic.
\<close>

definition bfdPeerState :: "int \<Rightarrow> string go" where
  "bfdPeerState b = (if 0 \<le> b \<and> b < 4
     then Some ([''admindown'', ''down'', ''init'', ''up''] ! nat b) else panic)"

definition callbackBFDState :: "string \<times> int \<times> int \<Rightarrow> (string \<times> string \<times> string) go" where
  "callbackBFDState change = (case change of (ipAddr, prevState, currState) \<Rightarrow> do {
     prev \<leftarrow> bfdPeerState prevState;
     curr \<leftarrow> bfdPeerState currState;
     Some (ipAddr, prev, curr)
   })"

section \<open>Ending\<close>

text \<open>
  What \<^verbatim>\<open>DelSession\<close>, registered for the peer, waits for: the loop of its session to receive from
  \<^verbatim>\<open>clientQuit\<close>, which a blocked or finished loop never does.
\<close>

definition DelSession_returns :: "loop \<Rightarrow> bool" where
  "DelSession_returns lp \<longleftrightarrow> \<not> lp_blocked lp \<and> \<not> lp_exited lp"

text \<open>
  The two channels of the \<^verbatim>\<open>select\<close>, and what becomes of the goroutine: it returns, it waits for the
  closer forever, or it ends the program.
\<close>

datatype wake = CtxDone | BFDDone
datatype ending = Returns | Hangs | Fatal

definition CheckBFDPeerStatus :: "('f \<Rightarrow> bool) \<Rightarrow> wake \<Rightarrow> 'f closer \<Rightarrow> 'f list \<times> ending" where
  "CheckBFDPeerStatus returns wake c = (case wake of
      CtxDone \<Rightarrow> ([], Returns)
    | BFDDone \<Rightarrow> (case CloseAll returns c of (fs, c) \<Rightarrow> (fs, if Wait c then Fatal else Hangs)))"

section \<open>Lemmas\<close>

lemma NewSession_fields:
  "se_LocalIP (NewSession r l p b x t m) = l" "se_RemoteIP (NewSession r l p b x t m) = p"
  "se_Passive (NewSession r l p b x t m) = b" "se_TxInterval (NewSession r l p b x t m) = t"
  "se_State (NewSession r l p b x t m) = Down" "se_requiredMinRxInterval (NewSession r l p b x t m) = of_int x"
  "se_DetectMult (NewSession r l p b x t m) = of_int (if m \<le> 0 then 3 else m)"
  by (simp_all add: NewSession_def setRequiredMinRxInterval_def setDesiredMinTxInterval_def Let_def)

text \<open>What can happen to a running loop as long as nobody asks it to quit.\<close>

inductive runs :: "gopacket \<Rightarrow> loop \<Rightarrow> loop \<Rightarrow> bool" for G where
  start: "runs G lp lp"
| step: "runs G lp0 lp \<Longrightarrow> \<not> se_clientQuit (lp_session lp) \<Longrightarrow> loop_step G (started, lp) (started', lp') \<Longrightarrow> runs G lp0 lp'"
| packet: "runs G lp0 lp \<Longrightarrow> RxPacket G now p (lp_session lp) (lp_link lp) = Some (s, lk) \<Longrightarrow>
    runs G lp0 (lp\<lparr>lp_session := s, lp_link := lk\<rparr>)"
| poll: "runs G lp0 lp \<Longrightarrow> detect_poll now (lp_session lp) (lp_link lp) = Some (Some (s, lk)) \<Longrightarrow>
    runs G lp0 (lp\<lparr>lp_session := s, lp_link := lk\<rparr>)"

text \<open>A loop that blocked in its first dial stays blocked, and no other loop blocks.\<close>

lemma loop_step_frame:
  "loop_step G (started, lp) (started', lp') \<Longrightarrow>
   \<not> lp_blocked lp \<and> lp_blocked lp' = lp_blocked lp \<and> (se_clientQuit (lp_session lp) \<or> lp_exited lp' = lp_exited lp)"
  by (erule loop_stepE)
    (auto simp: loop_down_def loop_quit_def loop_default_def start_detector_def Let_def
      split: option.splits prod.splits if_splits Option.bind_splits)

lemma runs_blocked: "runs G lp0 lp \<Longrightarrow> lp_blocked lp = lp_blocked lp0 \<and> lp_exited lp = lp_exited lp0"
  by (induction rule: runs.induct) (auto dest: loop_step_frame)

lemma loop_init_blocked:
  "lp_blocked (loop_init s lk) \<longleftrightarrow> fst (NewClient lk) \<noteq> None" "\<not> lp_exited (loop_init s lk)"
  by (auto simp: loop_init_def split: prod.splits option.splits)

lemma uint_u32_of_int: "uint (of_int x :: u32) = x mod 2 ^ 32"
  by (simp add: uint_word_of_int)

section \<open>Properties\<close>

text \<open>
  C35: the session of a peer. It goes between the addresses of the peer's BFD settings and is active;
  the milliseconds of the configuration become microseconds, where the interval required locally is
  kept modulo \<open>2 ^ 32\<close>; the multiplier is kept modulo 256, and one that is not positive becomes 3. In
  particular a configured multiplier of 256 is announced as 0, which \<^verbatim>\<open>DecodePacket\<close> of the other end
  refuses. A peer without BFD settings panics.
\<close>

theorem peer_control_session:
  "case bp_BFDPeering b of
     None \<Rightarrow> peer_control r lk b = panic
   | Some bfd \<Rightarrow> (\<exists>s. peer_control r lk b = Some \<lparr>ct_LocalIP = bfd_LocalIP bfd, ct_sessions = [(s, lk)]\<rparr> \<and>
       se_LocalIP s = bfd_LocalIP bfd \<and> se_RemoteIP s = bfd_PeerIP bfd \<and> \<not> se_Passive s \<and> se_State s = Down \<and>
       uint (se_requiredMinRxInterval s) = (1000 * bfd_RxMin bfd) mod 2 ^ 32 \<and>
       se_TxInterval s = 1000 * bfd_TxRate bfd \<and>
       uint (se_DetectMult s) = (if bfd_Multiplier bfd \<le> 0 then 3 else bfd_Multiplier bfd mod 256))"
  by (auto simp: peer_control_def AddSession_def NewControl_def NewSession_fields uint_u32_of_int uint_word_of_int
      mult.commute [of 1000] simp del: of_int_mult split: option.splits)


text \<open>Two peers; the first dial of the second one fails.\<close>

definition bfd_neighbor :: BGPPeer where
  "bfd_neighbor = (NewBGPPeer 0 PHYNET 65000 ''192.0.2.2'' 179 '''' False 0 ''blue'' 30 90)
     \<lparr>bp_BFDPeering := Some (NewBFDPeer True ''192.0.2.2'' ''192.0.2.1'' 400 400 3)\<rparr>"


end
