(* ===== verification/Spec2Isabelle.thy ===== *)
theory Spec2Isabelle
  imports Gateway Fip_Spec Gobgp_Api Monitor Collectors Logging Bfd_Protocol Bfd_Service
begin

text \<open>
  \<^bold>\<open>The program.\<close> Cloudgw connects the floating IPs of Tungsten Fabric to a physical network. It speaks
  BGP through an embedded GoBGP server, with the controllers of Tungsten Fabric on one side (VPNv4,
  a VRF per virtual network) and the routers of the physical network on the other (IPv4 in a VRF),
  watches the routers by BFD, and programs VPP, which forwards the packets: a UDP tunnel per vRouter
  that hosts floating IPs, a route per floating IP, a route per prefix of the physical network. What it
  knows is kept in five in-memory storages. All paths below are under \<^verbatim>\<open>src/\<close>.

  \<^bold>\<open>How the parts interact.\<close> \<^verbatim>\<open>internal/app\<close> reads the configuration, fills the storages, clears and
  configures VPP, starts the GoBGP server and then the handler of \<^verbatim>\<open>internal/service\<close>, configures the
  peers and the export policy. The handler has three watchers. A best path of a controller becomes a
  floating IP with its tunnels, in VPP and in the storages, and announcements of the aggregates to the
  physical network. A path of the physical network becomes a route in VPP and a VPNv4 announcement to
  the controllers. A peer that comes up changes a counter and may get a BFD session, whose end is the
  end of the program: the closer then runs what was registered.

  \<^bold>\<open>Conventions.\<close> (\<^verbatim>\<open>Prelude\<close>) Integers of fixed width are words, with wrap-around. A Go function that can
  panic returns \<open>'a go\<close>, \<open>None\<close> being the panic; an error is a value of \<open>err\<close>, a result \<open>err + 'a\<close>.
  State is passed explicitly; where the code shares pointers the model has a heap. The outside world is
  a record \<open>world\<close> (\<^verbatim>\<open>Vpp_Api\<close>): a script of the answers of VPP, of the GoBGP server and of the random
  source, and the logs of the requests made. A theorem that leaves the script open holds for every
  behaviour of the outside. What is not in the repository and not the standard library is a parameter:
  \<open>memdb\<close> (go-memdb, with its documented behaviour \<open>memdb_models\<close>), \<open>govpp\<close> (address formats of the VPP
  client), \<open>json\<close> (the text of a BGP message), \<open>gopacket\<close> (the BFD codec), \<open>link\<close> (the sockets of a
  session), \<open>mk_metric\<close> (the Prometheus client), \<open>md5hex\<close>, \<open>ping\<close>. Each property that relies on one
  has a witness with the parameter instantiated by a concrete function, such as \<open>alist_memdb\<close>, an
  association list proved to satisfy \<open>memdb_models\<close>.

  \<^bold>\<open>Theories and sources.\<close>
  \<^item> \<^verbatim>\<open>Netutils\<close>: \<^verbatim>\<open>pkg/netutils\<close>, \<^verbatim>\<open>pkg/typeconvert\<close>, on the parsers of \<^verbatim>\<open>net\<close>, \<^verbatim>\<open>netip\<close> and \<^verbatim>\<open>strconv\<close>
    they use. Membership in the aggregates is equality of leading bits; texts split into address and
    length and back; local labels fit 20 bits.
  \<^item> \<^verbatim>\<open>Model\<close>: \<^verbatim>\<open>internal/model\<close>. \<open>AddPath\<close> and \<open>DelPath\<close> on every branch, the panic of a slice that is
    shortened while it is ranged over included.
  \<^item> \<^verbatim>\<open>Memdb\<close>, \<^verbatim>\<open>Imdb\<close>: \<^verbatim>\<open>internal/repository/imdb\<close>. A table is a go-memdb index of addresses and a heap
    of objects, since the storages change stored objects through their pointers. The locale
    \<open>keyed_table\<close> states the contract of a schema; interpreted for the five storages it makes every
    operation an update of a map (\<open>fip_view\<close> and its like, the abstract state of all later theories).
    The locale \<open>counted_table\<close> extends it by the counters of floating IPs.
  \<^item> \<^verbatim>\<open>Vpp_Api\<close>, \<^verbatim>\<open>Vpp\<close>: \<^verbatim>\<open>internal/repository/vpp/vpp.go\<close>, one definition per operation, over the
    messages of VPP's binary API.
  \<^item> \<^verbatim>\<open>Gobgp\<close>, \<^verbatim>\<open>Gobgp_Api\<close>: \<^verbatim>\<open>internal/repository/gobgp\<close> and \<^verbatim>\<open>pkg/gobgpapi\<close>. What the export policy lets
    through, against an evaluation of policies as GoBGP documents it; both clients ask the same.
  \<^item> \<^verbatim>\<open>Config\<close>, \<^verbatim>\<open>Logging\<close>: the structs of \<^verbatim>\<open>internal/config\<close>, and the loggers made from them
    (\<^verbatim>\<open>pkg/logger\<close>).
  \<^item> \<^verbatim>\<open>Parse_Update\<close>: \<^verbatim>\<open>internal/service/parse_bgp_update*.go\<close>.
  \<^item> \<^verbatim>\<open>Fip_Service\<close>, \<^verbatim>\<open>Fip_Handler\<close>, \<^verbatim>\<open>Fip_Effects\<close>: \<^verbatim>\<open>tunnel_route_add.go\<close>, \<^verbatim>\<open>tunnel_route_remove.go\<close> and
    the first watcher of \<^verbatim>\<open>handle_bgp_update.go\<close>. The invariant \<open>fip_inv\<close> ties routes, tunnels and the
    counters of tunnels and VRFs together; it survives every sequence of updates, whatever VPP answers.
    The effects say which requests an update leads to when VPP answers, and that a withdrawal undoes an
    advertisement. \<^verbatim>\<open>Fip_Spec\<close> is the abstract specification, a table of prefixes with next hops and
    labels, and the proof that the handler implements it.
  \<^item> \<^verbatim>\<open>Phynet_Service\<close>, \<^verbatim>\<open>Peer_Events\<close>: the other two watchers.
  \<^item> \<^verbatim>\<open>App_Init\<close>, \<^verbatim>\<open>Vpp_Init\<close>: \<^verbatim>\<open>internal/app/init_imdb.go\<close>, \<^verbatim>\<open>init_gobgp.go\<close>, \<^verbatim>\<open>init_vpp.go\<close> and
    \<^verbatim>\<open>internal/repository/vpp/initialize\<close>: what the storages hold and what VPP and the GoBGP server
    were asked after a start.
  \<^item> \<^verbatim>\<open>Closer\<close>, \<^verbatim>\<open>Gateway\<close>: \<^verbatim>\<open>pkg/closer\<close> and \<^verbatim>\<open>internal/app/app.go\<close>. The whole program: from the
    configuration through the start, then events of the three watchers in any order.
  \<^item> \<^verbatim>\<open>Bfd_Packet\<close>, \<^verbatim>\<open>Bfd_Session\<close>, \<^verbatim>\<open>Bfd_Control\<close>, \<^verbatim>\<open>Bfd_Protocol\<close>, \<^verbatim>\<open>Bfd_Service\<close>: \<^verbatim>\<open>pkg/bfd\<close> and
    \<^verbatim>\<open>internal/service/bfd_health_check.go\<close>. The three goroutines of a session are three kinds of steps
    of the relation \<open>loop_step\<close>; two sessions over a lossy, reordering network are \<open>pair_run\<close>; the
    sessions of the process share the flag that lets only one start a failure detector (\<open>loops\<close>).
  \<^item> \<^verbatim>\<open>Monitor\<close>: \<^verbatim>\<open>internal/monitor\<close>. \<^verbatim>\<open>Exporters\<close>, \<^verbatim>\<open>Collectors\<close>: \<^verbatim>\<open>pkg/exporter\<close>,
    \<^verbatim>\<open>internal/app/init_metric.go\<close> and \<^verbatim>\<open>internal/controller/http/v1/handlers.go\<close>.

  \<^bold>\<open>Event loops.\<close> The locale \<open>event_loop\<close> (\<^verbatim>\<open>Prelude\<close>) is the contract of a loop that handles one event
  after the other: a step that keeps an invariant, which may count the events. \<open>refined_loop\<close> adds a
  specification the loop implements, \<open>traced_loop\<close> is the special case of an output per event. They are
  interpreted for the three watchers (\<open>tf_loop\<close> and \<open>tf_spec\<close>, \<open>pn_loop\<close>, \<open>peer_loop\<close>) and for the
  program (\<open>gateway\<close>).

  \<^bold>\<open>Bounds and fuel.\<close> A counter of floating IPs is 32 bits wide, so the invariants are stated for fewer
  than \<open>2 ^ 32\<close> updates; with more the counters would wrap. No definition has fuel except the monitor,
  whose loop is endless in the code: \<open>rounds\<close> is how long it runs, and the property says both that no
  number of rounds ends it while the interface answers and that one more round than there were probes
  before the interface fell silent does. Loops of the code with a decreasing measure are functions with
  a termination proof (\<open>del_loop\<close>, \<open>ipv6_groups\<close>).

  \<^bold>\<open>Granularity.\<close> Each event of a watcher is handled as a whole, and the watchers interleave at events.
  The Go code runs the watchers as goroutines that share the storages without a common lock, so two
  handlers can also interleave within an event; that, and data races, are outside the model. The steps
  of a BFD session interleave at the level of single packets, polls and transmissions.

  \<^bold>\<open>Not modelled.\<close> Connecting to VPP and dialling gRPC, the HTTP server and its routes (\<^verbatim>\<open>init_http.go\<close>,
  \<^verbatim>\<open>router.go\<close>), \<^verbatim>\<open>cmd/cloudgw\<close>, the pyroscope client and the ICMP exchange of \<^verbatim>\<open>pinger.go\<close>: input and
  output of libraries without decisions of the program. The tickers of the exporters: a tick is a call
  of its body. The text of log messages. \<^verbatim>\<open>pkg/testcontainers\<close> and \<^verbatim>\<open>pkg/unixsockrelay\<close>: test support.
  Reading the YAML file: the library's. Floating point: the counts the exporters convert are exact.
\<close>

end
